theory Spec2Isabelle
  imports Main "HOL-Library.Word" "HOL-Library.AList" "HOL-Library.Multiset"
begin

section \<open>JavaScript strings\<close>

text \<open>
  A JavaScript string is a sequence of UTF-16 code units; \<open>length\<close>, \<open>substring\<close> and the
  regular expressions of the routes count code units. Literals of the source that are not
  ASCII are written as their code units.
\<close>

type_synonym jsstring = "16 word list"

definition ascii :: "string \<Rightarrow> jsstring" where
  "ascii s = map (\<lambda>c. word_of_nat (of_char c)) s"

text \<open>
  The characters matched by \<open>\s\<close> and removed by \<open>String.prototype.trim\<close>: white space
  and line terminators of ECMAScript.
\<close>

definition is_space :: "16 word \<Rightarrow> bool" where
  "is_space c \<longleftrightarrow>
     c \<in> set [9, 10, 11, 12, 13, 32, 160, 5760, 8232, 8233, 8239, 8287, 12288, 65279]
     \<or> (8192 \<le> c \<and> c \<le> 8202)"

definition trim :: "jsstring \<Rightarrow> jsstring" where
  "trim s = rev (dropWhile is_space (rev (dropWhile is_space s)))"

text \<open>
  \<open>s.replace(/P+/g, r)\<close> for a character class \<open>P\<close>: every maximal run of characters
  of the class becomes the single character \<open>r\<close>.
\<close>

function collapse_runs :: "(16 word \<Rightarrow> bool) \<Rightarrow> 16 word \<Rightarrow> jsstring \<Rightarrow> jsstring" where
  "collapse_runs P r [] = []"
| "collapse_runs P r (c # cs) =
     (if P c then r # collapse_runs P r (dropWhile P cs) else c # collapse_runs P r cs)"
  by pat_completeness auto
termination
  by (relation "measure (\<lambda>(P, r, cs). length cs)")
     (auto simp: le_imp_less_Suc length_dropWhile_le)

text \<open>Decimal rendering of a non-negative integer, as a template literal prints it.\<close>

function show_nat :: "nat \<Rightarrow> jsstring" where
  "show_nat n = (if n < 10 then [48 + word_of_nat n]
                 else show_nat (n div 10) @ [48 + word_of_nat (n mod 10)])"
  by pat_completeness auto
termination
  by (relation "measure id") auto

fun join_with :: "jsstring \<Rightarrow> jsstring list \<Rightarrow> jsstring" where
  "join_with sep [] = []"
| "join_with sep [s] = s"
| "join_with sep (s # t # ss) = s @ sep @ join_with sep (t # ss)"

section \<open>JavaScript values and errors\<close>

text \<open>
  The values \<open>JSON.parse\<close> can build, and \<open>undefined\<close>. A number is carried by its
  decimal rendering (what \<open>ToString\<close> gives), which is all the routes ever use of one: it is
  falsy exactly when it renders as \<open>0\<close> or \<open>NaN\<close>.
\<close>

datatype jsval =
    JUndefined
  | JNull
  | JBool bool
  | JNum jsstring
  | JStr jsstring
  | JArr "jsval list"
  | JObj "(jsstring \<times> jsval) list"

type_synonym jsobject = "(jsstring \<times> jsval) list"

text \<open>
  What the routes catch: an axios error with \<open>error.response?.status\<close>,
  \<open>error.response?.data?.error?.message\<close> and \<open>error.message\<close>; the \<open>SyntaxError\<close>
  of \<open>JSON.parse\<close> with its message; another instance of \<open>Error\<close> with its message; or
  a thrown value that is not an \<open>Error\<close>.
\<close>

datatype js_error =
    AxiosError "nat option" "jsstring option" jsstring
  | SyntaxError jsstring
  | Error jsstring
  | NonError

text \<open>
  A \<open>TypeError\<close> raised by the engine (reading a property of \<open>undefined\<close> or \<open>null\<close>,
  calling what is not a function, converting an object that cannot be converted). Its
  message is the engine's own; the model names the operation.
\<close>

definition type_error :: "string \<Rightarrow> js_error" where
  "type_error what = Error (ascii ''TypeError: '' @ ascii what)"

fun truthy :: "jsval \<Rightarrow> bool" where
  "truthy JUndefined = False"
| "truthy JNull = False"
| "truthy (JBool b) = b"
| "truthy (JNum n) = (n \<noteq> ascii ''0'' \<and> n \<noteq> ascii ''NaN'')"
| "truthy (JStr s) = (s \<noteq> [])"
| "truthy (JArr xs) = True"
| "truthy (JObj kvs) = True"

text \<open>\<open>a || b\<close>\<close>

definition or_else :: "jsval \<Rightarrow> jsval \<Rightarrow> jsval" where
  "or_else a b = (if truthy a then a else b)"

text \<open>
  \<open>ToString\<close>. An object built by \<open>JSON.parse\<close> converts through
  \<open>Object.prototype.toString\<close> unless it has an own property \<open>toString\<close>, which cannot be
  a function: then the conversion raises a \<open>TypeError\<close>. An array converts by joining its
  elements with a comma, \<open>undefined\<close> and \<open>null\<close> elements as the empty string.
\<close>

fun convertible :: "jsval \<Rightarrow> bool" where
  "convertible (JArr xs) = (\<forall>x \<in> set xs. convertible x)"
| "convertible (JObj kvs) = (map_of kvs (ascii ''toString'') = None)"
| "convertible v = True"

fun to_str :: "jsval \<Rightarrow> jsstring" where
  "to_str JUndefined = ascii ''undefined''"
| "to_str JNull = ascii ''null''"
| "to_str (JBool b) = (if b then ascii ''true'' else ascii ''false'')"
| "to_str (JNum n) = n"
| "to_str (JStr s) = s"
| "to_str (JArr xs) =
     join_with (ascii '','')
       (map (\<lambda>x. if x = JUndefined \<or> x = JNull then [] else to_str x) xs)"
| "to_str (JObj kvs) = ascii ''[object Object]''"

definition to_string :: "jsval \<Rightarrow> js_error + jsstring" where
  "to_string v = (if convertible v then Inr (to_str v)
                  else Inl (type_error ''Cannot convert object to primitive value''))"

text \<open>
  \<open>obj.name\<close> on an object literal or a parsed object, for the property names the routes
  read (none of them is a member of \<open>Object.prototype\<close>): the own property, or
  \<open>undefined\<close>.
\<close>

definition get_prop :: "jsobject \<Rightarrow> jsstring \<Rightarrow> jsval" where
  "get_prop obj k = (case map_of obj k of None \<Rightarrow> JUndefined | Some v \<Rightarrow> v)"

text \<open>
  Writing an own property keeps the position of a property that exists and appends a new
  one, as an object literal with a spread does.
\<close>

definition set_prop :: "jsstring \<Rightarrow> jsval \<Rightarrow> jsobject \<Rightarrow> jsobject" where
  "set_prop k v obj = AList.update k v obj"

text \<open>
  \<open>v.name\<close> on any value, for the names read below a field of a job (\<open>min\<close>, \<open>max\<close>,
  \<open>type\<close>, \<open>details\<close>, \<open>experience\<close>, \<open>skills\<close>, \<open>education\<close>): a \<open>TypeError\<close> on
  \<open>undefined\<close> and \<open>null\<close>, the own property of an object, and \<open>undefined\<close> on an array,
  a string, a number or a boolean, which carry no such member.
\<close>

fun member :: "jsval \<Rightarrow> jsstring \<Rightarrow> js_error + jsval" where
  "member JUndefined k = Inl (type_error ''Cannot read properties of undefined'')"
| "member JNull k = Inl (type_error ''Cannot read properties of null'')"
| "member (JObj kvs) k = Inr (get_prop kvs k)"
| "member v k = Inr JUndefined"

text \<open>
  \<open>v.join(sep)\<close>: only an array has the method; every other value raises a
  \<open>TypeError\<close>, and so does an element that cannot be converted to a string.
\<close>

fun join_method :: "jsval \<Rightarrow> jsstring \<Rightarrow> js_error + jsstring" where
  "join_method (JArr xs) sep =
     (if \<forall>x \<in> set xs. convertible x
      then Inr (join_with sep (map (\<lambda>x. if x = JUndefined \<or> x = JNull then [] else to_str x) xs))
      else Inl (type_error ''Cannot convert object to primitive value''))"
| "join_method JUndefined sep = Inl (type_error ''Cannot read properties of undefined'')"
| "join_method JNull sep = Inl (type_error ''Cannot read properties of null'')"
| "join_method v sep = Inl (type_error ''join is not a function'')"

text \<open>Sequencing of steps that may throw.\<close>

definition and_then :: "'e + 'a \<Rightarrow> ('a \<Rightarrow> 'e + 'b) \<Rightarrow> 'e + 'b" where
  "and_then m f = (case m of Inl e \<Rightarrow> Inl e | Inr x \<Rightarrow> f x)"

fun map_err :: "('a \<Rightarrow> 'e + 'b) \<Rightarrow> 'a list \<Rightarrow> 'e + 'b list" where
  "map_err f [] = Inr []"
| "map_err f (x # xs) =
     and_then (f x) (\<lambda>y. and_then (map_err f xs) (\<lambda>ys. Inr (y # ys)))"

section \<open>Content extraction\<close>

text \<open>
  The fetched page as the routes see it through cheerio, after
  \<open>$('script, style, nav, header, footer, aside, .advertisement, .ads, .sidebar').remove()\<close>:
  \<open>sel_text d s\<close> is \<open>$(s).text()\<close> (the empty string when nothing matches),
  \<open>sel_first_text d s\<close> is \<open>$(s).first().text()\<close>, and \<open>sel_each_text d s\<close> lists the
  text of every match in document order.
\<close>

record document =
  sel_text :: "jsstring \<Rightarrow> jsstring"
  sel_first_text :: "jsstring \<Rightarrow> jsstring"
  sel_each_text :: "jsstring \<Rightarrow> jsstring list"

definition contentSelectors :: "jsstring list" where
  "contentSelectors =
     [ascii ''main'', ascii ''.content'', ascii ''.main-content'', ascii ''.job-description'',
      ascii ''.job-detail'', ascii ''.post-content'', ascii ''article'', ascii ''.entry-content'']"

text \<open>
  The loop over the selectors, with \<open>mainContent\<close> as the accumulator: a candidate
  replaces it when its trimmed text is not empty and strictly longer.
\<close>

fun longest_candidate :: "document \<Rightarrow> jsstring list \<Rightarrow> jsstring \<Rightarrow> jsstring" where
  "longest_candidate d [] mainContent = mainContent"
| "longest_candidate d (selector # rest) mainContent =
     (let content = trim (sel_text d selector)
      in if content \<noteq> [] \<and> length content > length mainContent
         then longest_candidate d rest content
         else longest_candidate d rest mainContent)"

definition select_main_content :: "document \<Rightarrow> jsstring" where
  "select_main_content d =
     (let mainContent = longest_candidate d contentSelectors []
      in if mainContent = [] then trim (sel_text d (ascii ''body'')) else mainContent)"

text \<open>\<open>.replace(/\s+/g, ' ').replace(/\n+/g, '\n').trim()\<close>\<close>

definition clean_text :: "jsstring \<Rightarrow> jsstring" where
  "clean_text s = trim (collapse_runs (\<lambda>c. c = 10) 10 (collapse_runs is_space 32 s))"

section \<open>The outside world\<close>

text \<open>
  A request to the structuring service is identified by what varies in it: the structuring
  request carries the credential and \<open>content.substring(0, 4000)\<close>, embedded in the fixed
  instruction template; the probe carries the credential and the fixed message \<open>Hello\<close>.
\<close>

datatype post_request =
    StructureRequest jsstring jsstring
  | ProbeRequest jsstring

text \<open>
  A resolved call: \<open>response.status\<close> and \<open>response.data.choices[0].message.content\<close>.
  A body without that path makes the read raise a \<open>TypeError\<close> inside the same
  \<open>try\<close> as the call; the model counts it among the errors of the call.
\<close>

record post_response =
  reply_status :: nat
  reply_content :: jsstring

text \<open>
  What the report hands to the spreadsheet library. A cell is a value taken from a job, a
  number the report computes, or the text that \<open>+ 1\<close> makes of a member inherited from
  \<open>Object.prototype\<close> (see \<open>bump\<close>); a row is an object literal, its properties in
  order; a workbook is the list of its named sheets.
\<close>

datatype cell = CellVal jsval | CellNum nat | CellJunk

type_synonym row = "(jsstring \<times> cell) list"

type_synonym workbook = "(jsstring \<times> row list) list"

text \<open>
  The network, the clock, the built-ins of the platform and the spreadsheet library. The
  world \<open>'w\<close> is threaded through every effect, so that an answer may depend on everything
  that happened before.
  \<open>date_now\<close> is \<open>new Date().toISOString()\<close>; \<open>json_parse\<close> is \<open>JSON.parse\<close> on a text
  that starts with a brace (its result is then an object), \<open>Inl\<close> carrying the message of the
  \<open>SyntaxError\<close>; \<open>to_locale\<close> is \<open>new Date(v).toLocaleString('ja-JP')\<close>.
  \<open>XLSX.utils.json_to_sheet\<close> and \<open>XLSX.write\<close> belong to a library outside the
  repository, and either may throw on what it is given (a text too long for a cell, a value
  no cell can hold): \<open>json_to_sheet_throws rows\<close> and \<open>xlsx_write_throws book\<close> are the
  message of the exception of the call, \<open>None\<close> when it returns.
\<close>

record 'w env =
  axios_get :: "jsstring \<Rightarrow> 'w \<Rightarrow> (js_error + document) \<times> 'w"
  axios_post :: "post_request \<Rightarrow> 'w \<Rightarrow> (js_error + post_response) \<times> 'w"
  date_now :: "'w \<Rightarrow> jsstring \<times> 'w"
  json_parse :: "jsstring \<Rightarrow> jsstring + jsobject"
  to_locale :: "jsval \<Rightarrow> jsstring"
  json_to_sheet_throws :: "row list \<Rightarrow> jsstring option"
  xlsx_write_throws :: "workbook \<Rightarrow> jsstring option"

text \<open>What a route did, in order: page fetches, calls of the service, and waits (ms).\<close>

datatype event = Get jsstring | Post post_request | Delay nat

type_synonym 'w state = "'w \<times> event list"

definition do_get :: "'w env \<Rightarrow> jsstring \<Rightarrow> 'w state \<Rightarrow> (js_error + document) \<times> 'w state" where
  "do_get e u st =
     (case axios_get e u (fst st) of (r, w') \<Rightarrow> (r, (w', snd st @ [Get u])))"

definition do_post :: "'w env \<Rightarrow> post_request \<Rightarrow> 'w state \<Rightarrow> (js_error + post_response) \<times> 'w state" where
  "do_post e rq st =
     (case axios_post e rq (fst st) of (r, w') \<Rightarrow> (r, (w', snd st @ [Post rq])))"

definition do_now :: "'w env \<Rightarrow> 'w state \<Rightarrow> jsstring \<times> 'w state" where
  "do_now e st = (case date_now e (fst st) of (t, w') \<Rightarrow> (t, (w', snd st)))"

definition do_delay :: "nat \<Rightarrow> 'w state \<Rightarrow> 'w state" where
  "do_delay ms st = (fst st, snd st @ [Delay ms])"

section \<open>The batch route: extraction\<close>

definition extractContentFromUrl ::
  "'w env \<Rightarrow> jsstring \<Rightarrow> 'w state \<Rightarrow> (js_error + jsstring) \<times> 'w state" where
  "extractContentFromUrl e u st =
     (case do_get e u st of
        (Inl err, st') \<Rightarrow> (Inl err, st')
      | (Inr d, st') \<Rightarrow> (Inr (clean_text (select_main_content d)), st'))"

section \<open>Structuring\<close>

text \<open>
  \<open>aiResponse.match(/\{[\s\S]*\}/)\<close>: the match starts at the first opening brace and,
  the star being greedy, ends at the last closing brace after it; there is no match when no
  closing brace follows the first opening one.
\<close>

definition jsonMatch :: "jsstring \<Rightarrow> jsstring option" where
  "jsonMatch s =
     (let t = dropWhile (\<lambda>c. c \<noteq> 123) s
      in if 125 \<in> set t then Some (rev (dropWhile (\<lambda>c. c \<noteq> 125) (rev t))) else None)"

text \<open>
  The body of \<open>structureJobData\<close> as the preview route has it (and as the \<open>try\<close> block of
  the batch route has it): call the service, cut the JSON out of the reply, parse it, and
  build \<open>{...structuredData, url, extractedAt}\<close>. Every failure is thrown.
\<close>

definition structureJobData_preview ::
  "'w env \<Rightarrow> jsstring \<Rightarrow> jsstring \<Rightarrow> jsstring \<Rightarrow> 'w state \<Rightarrow> (js_error + jsobject) \<times> 'w state" where
  "structureJobData_preview e content u key st =
     (case do_post e (StructureRequest key (take 4000 content)) st of
        (Inl err, st1) \<Rightarrow> (Inl err, st1)
      | (Inr response, st1) \<Rightarrow>
          (case jsonMatch (reply_content response) of
             None \<Rightarrow> (Inl (Error (ascii ''No valid JSON found in AI response'')), st1)
           | Some matched \<Rightarrow>
               (case json_parse e matched of
                  Inl msg \<Rightarrow> (Inl (SyntaxError msg), st1)
                | Inr structuredData \<Rightarrow>
                    (case do_now e st1 of
                       (t, st2) \<Rightarrow>
                         (Inr (set_prop (ascii ''extractedAt'') (JStr t)
                                 (set_prop (ascii ''url'') (JStr u) structuredData)), st2)))))"

text \<open>
  The message the batch route's \<open>structureJobData\<close> derives from what it caught. The
  literals are, in order: the default "AI structuring failed"; for 402 "insufficient
  balance, add credit to the account"; for 401 "the API key is invalid, enter a correct
  one"; for 429 "rate limit reached, retry after a while"; "OpenRouter API error (status):";
  and "network error:".
\<close>

definition msg_default :: jsstring where
  "msg_default = [65, 73, 27083, 36896, 21270, 12395, 22833, 25943, 12375, 12414, 12375, 12383]"

definition msg_402 :: jsstring where
  "msg_402 = ascii ''OpenRouter API: '' @
     [27531, 39640, 19981, 36275, 12391, 12377, 12290, 12450, 12459, 12454, 12531, 12488,
      12395, 12463, 12524, 12472, 12483, 12488, 12434, 36861, 21152, 12375, 12390, 12367,
      12384, 12373, 12356, 12290]"

definition msg_401 :: jsstring where
  "msg_401 = ascii ''OpenRouter API: API'' @
     [12461, 12540, 12364, 28961, 21177, 12391, 12377, 12290, 27491, 12375, 12356, 65, 80, 73,
      12461, 12540, 12434, 20837, 21147, 12375, 12390, 12367, 12384, 12373, 12356, 12290]"

definition msg_429 :: jsstring where
  "msg_429 = ascii ''OpenRouter API: '' @
     [12524, 12540, 12488, 21046, 38480, 12395, 36948, 12375, 12414, 12375, 12383, 12290,
      12375, 12400, 12425, 12367, 24453, 12387, 12390, 12363, 12425, 20877, 35430, 34892,
      12375, 12390, 12367, 12384, 12373, 12356, 12290]"

definition msg_api_error :: "jsstring \<Rightarrow> jsstring \<Rightarrow> jsstring" where
  "msg_api_error status_text apiErrorMessage =
     ascii ''OpenRouter API '' @ [12456, 12521, 12540] @ ascii '' ('' @ status_text
       @ ascii ''): '' @ apiErrorMessage"

definition msg_network :: "jsstring \<Rightarrow> jsstring" where
  "msg_network m = [12493, 12483, 12488, 12527, 12540, 12463, 12456, 12521, 12540] @ ascii '': '' @ m"

text \<open>\<open>error.response?.data?.error?.message || error.message\<close>\<close>

definition apiErrorMessage :: "jsstring option \<Rightarrow> jsstring \<Rightarrow> jsstring" where
  "apiErrorMessage api m = (case api of Some a \<Rightarrow> (if a \<noteq> [] then a else m) | None \<Rightarrow> m)"

fun structuring_error_message :: "js_error \<Rightarrow> jsstring" where
  "structuring_error_message (AxiosError status api m) =
     (if status = Some 402 then msg_402
      else if status = Some 401 then msg_401
      else if status = Some 429 then msg_429
      else (case status of
              Some n \<Rightarrow> (if n \<noteq> 0 then msg_api_error (show_nat n) (apiErrorMessage api m)
                         else msg_network m)
            | None \<Rightarrow> msg_network m))"
| "structuring_error_message (SyntaxError m) = m"
| "structuring_error_message (Error m) = m"
| "structuring_error_message NonError = msg_default"

text \<open>
  The marker that opens the description of a record whose structuring failed
  ("AI structuring error" between lenticular brackets), and the heading of the excerpt
  ("extracted raw data", between two line feeds and one).
\<close>

definition ai_error_marker :: jsstring where
  "ai_error_marker = [12304, 65, 73, 27083, 36896, 21270, 12456, 12521, 12540, 12305]"

definition raw_data_heading :: jsstring where
  "raw_data_heading =
     [10, 10, 12304, 25277, 20986, 12373, 12428, 12383, 29983, 12487, 12540, 12479, 12305, 10]"

definition fallback_description :: "jsstring \<Rightarrow> jsstring \<Rightarrow> jsstring" where
  "fallback_description errorMessage content =
     ai_error_marker @ errorMessage @ raw_data_heading @ take 1000 content
       @ (if length content > 1000 then ascii ''...'' else [])"

text \<open>The object literal both fallbacks return, up to its description.\<close>

definition empty_job :: "jsstring \<Rightarrow> jsstring \<Rightarrow> jsstring \<Rightarrow> jsobject" where
  "empty_job description u t =
     [(ascii ''jobTitle'', JNull),
      (ascii ''companyName'', JNull),
      (ascii ''location'', JNull),
      (ascii ''salary'', JObj [(ascii ''min'', JNull), (ascii ''max'', JNull),
                               (ascii ''type'', JNull), (ascii ''details'', JNull)]),
      (ascii ''workingHours'', JNull),
      (ascii ''holidays'', JNull),
      (ascii ''benefits'', JArr []),
      (ascii ''requirements'', JObj [(ascii ''experience'', JNull), (ascii ''skills'', JArr []),
                                     (ascii ''education'', JNull)]),
      (ascii ''jobDescription'', JStr description),
      (ascii ''applicationMethod'', JNull),
      (ascii ''employmentType'', JNull),
      (ascii ''url'', JStr u),
      (ascii ''extractedAt'', JStr t)]"

text \<open>
  \<open>structureJobData\<close> of the batch route: the same body inside \<open>try\<close>, and a \<open>catch\<close>
  that turns whatever was thrown into a record. It never throws.
\<close>

definition structureJobData ::
  "'w env \<Rightarrow> jsstring \<Rightarrow> jsstring \<Rightarrow> jsstring \<Rightarrow> 'w state \<Rightarrow> jsobject \<times> 'w state" where
  "structureJobData e content u key st =
     (case structureJobData_preview e content u key st of
        (Inr job, st') \<Rightarrow> (job, st')
      | (Inl err, st') \<Rightarrow>
          (case do_now e st' of
             (t, st'') \<Rightarrow>
               (empty_job (fallback_description (structuring_error_message err) content) u t,
                st'')))"

section \<open>The batch route: one record per URL\<close>

text \<open>The message the \<open>catch\<close> inside the loop derives from what it caught.\<close>

fun processing_error_message :: "js_error \<Rightarrow> jsstring" where
  "processing_error_message (AxiosError status api m) =
     (if status = Some 402
        then ascii ''OpenRouter API: Payment required. Please check your account balance.''
      else if status = Some 401 then ascii ''OpenRouter API: Invalid API key.''
      else if status = Some 429
        then ascii ''OpenRouter API: Rate limit exceeded. Please try again later.''
      else (case status of
              Some n \<Rightarrow>
                (if n \<noteq> 0
                 then ascii ''OpenRouter API Error ('' @ show_nat n @ ascii ''): ''
                        @ apiErrorMessage api m
                 else ascii ''Network error: '' @ m)
            | None \<Rightarrow> ascii ''Network error: '' @ m))"
| "processing_error_message (SyntaxError m) = m"
| "processing_error_message (Error m) = m"
| "processing_error_message NonError = ascii ''Unknown error''"

text \<open>
  The body of the loop for one URL. The wait of 1000 ms is the last statement of the
  \<open>try\<close> block; the \<open>catch\<close> block pushes its record and has no wait.
\<close>

definition process_url ::
  "'w env \<Rightarrow> jsstring \<Rightarrow> jsstring \<Rightarrow> 'w state \<Rightarrow> jsobject \<times> 'w state" where
  "process_url e key u st =
     (case extractContentFromUrl e u st of
        (Inr content, st1) \<Rightarrow>
          (case structureJobData e content u key st1 of
             (structuredData, st2) \<Rightarrow> (structuredData, do_delay 1000 st2))
      | (Inl err, st1) \<Rightarrow>
          (case do_now e st1 of
             (t, st2) \<Rightarrow>
               (empty_job (ascii ''Error processing URL: '' @ processing_error_message err) u t,
                st2)))"

text \<open>\<open>for (const url of urls)\<close>, with \<open>jobsData\<close> as the accumulator.\<close>

fun process_urls ::
  "'w env \<Rightarrow> jsstring \<Rightarrow> jsstring list \<Rightarrow> 'w state \<Rightarrow> jsobject list
     \<Rightarrow> jsobject list \<times> 'w state" where
  "process_urls e key [] st jobsData = (jobsData, st)"
| "process_urls e key (u # us) st jobsData =
     (case process_url e key u st of
        (job, st') \<Rightarrow> process_urls e key us st' (jobsData @ [job]))"

section \<open>The report\<close>

text \<open>\<open>v || ''\<close>\<close>

definition or_blank :: "jsval \<Rightarrow> cell" where
  "or_blank v = CellVal (or_else v (JStr []))"

text \<open>
  Column and sheet names, in the order of the source: job title, company, location, lowest
  salary, highest salary, salary type, employment type, extracted at; salary details,
  working hours, holidays, benefits, required experience, required skills, education,
  description, how to apply; item, value; number of jobs, by job title, by location, by
  employment type; the sheets "list of jobs", "details", "statistics".
\<close>

definition col_jobTitle :: jsstring where "col_jobTitle = [32887, 31278]"
definition col_companyName :: jsstring where "col_companyName = [20250, 31038, 21517]"
definition col_location :: jsstring where "col_location = [21220, 21209, 22320]"
definition col_salary_min :: jsstring where "col_salary_min = [26368, 20302, 32102, 19982]"
definition col_salary_max :: jsstring where "col_salary_max = [26368, 39640, 32102, 19982]"
definition col_salary_type :: jsstring where "col_salary_type = [32102, 19982, 12479, 12452, 12503]"
definition col_employmentType :: jsstring where "col_employmentType = [38599, 29992, 24418, 24907]"
definition col_extractedAt :: jsstring where "col_extractedAt = [25277, 20986, 26085, 26178]"
definition col_salary_details :: jsstring where "col_salary_details = [32102, 19982, 35443, 32048]"
definition col_workingHours :: jsstring where "col_workingHours = [21220, 21209, 26178, 38291]"
definition col_holidays :: jsstring where "col_holidays = [20241, 26085]"
definition col_benefits :: jsstring where "col_benefits = [31119, 21033, 21402, 29983]"
definition col_experience :: jsstring where "col_experience = [24517, 35201, 32076, 39443]"
definition col_skills :: jsstring where "col_skills = [24517, 35201, 12473, 12461, 12523]"
definition col_education :: jsstring where "col_education = [23398, 27508, 35201, 20214]"
definition col_jobDescription :: jsstring where "col_jobDescription = [26989, 21209, 20869, 23481]"
definition col_applicationMethod :: jsstring where "col_applicationMethod = [24540, 21215, 26041, 27861]"
definition col_item :: jsstring where "col_item = [38917, 30446]"
definition col_value :: jsstring where "col_value = [20516]"
definition label_total :: jsstring where "label_total = [32207, 27714, 20154, 25968]"
definition label_by_jobTitle :: jsstring where "label_by_jobTitle = [32887, 31278, 21029, 38598, 35336]"
definition label_by_location :: jsstring where "label_by_location = [21220, 21209, 22320, 21029, 38598, 35336]"
definition label_by_employmentType :: jsstring where
  "label_by_employmentType = [38599, 29992, 24418, 24907, 21029, 38598, 35336]"
definition sheet_summary :: jsstring where "sheet_summary = [27714, 20154, 19968, 35239]"
definition sheet_detail :: jsstring where "sheet_detail = [35443, 32048, 24773, 22577]"
definition sheet_stats :: jsstring where "sheet_stats = [32113, 35336, 24773, 22577]"

text \<open>A row of the first sheet. Reading \<open>job.salary.min\<close> throws when \<open>job.salary\<close> is
  \<open>undefined\<close> or \<open>null\<close>.\<close>

definition summary_row :: "'w env \<Rightarrow> jsobject \<Rightarrow> js_error + row" where
  "summary_row e job =
     and_then (member (get_prop job (ascii ''salary'')) (ascii ''min'')) (\<lambda>salary_min.
     and_then (member (get_prop job (ascii ''salary'')) (ascii ''max'')) (\<lambda>salary_max.
     and_then (member (get_prop job (ascii ''salary'')) (ascii ''type'')) (\<lambda>salary_type.
       Inr [(col_jobTitle, or_blank (get_prop job (ascii ''jobTitle''))),
            (col_companyName, or_blank (get_prop job (ascii ''companyName''))),
            (col_location, or_blank (get_prop job (ascii ''location''))),
            (col_salary_min, or_blank salary_min),
            (col_salary_max, or_blank salary_max),
            (col_salary_type, or_blank salary_type),
            (col_employmentType, or_blank (get_prop job (ascii ''employmentType''))),
            (ascii ''URL'', CellVal (get_prop job (ascii ''url''))),
            (col_extractedAt,
               CellVal (JStr (to_locale e (get_prop job (ascii ''extractedAt'')))))])))"

text \<open>A row of the second sheet, from \<open>(job, index)\<close>.\<close>

definition detail_row :: "nat \<times> jsobject \<Rightarrow> js_error + row" where
  "detail_row p =
     (case p of (index, job) \<Rightarrow>
     and_then (member (get_prop job (ascii ''salary'')) (ascii ''details'')) (\<lambda>salary_details.
     and_then (join_method (get_prop job (ascii ''benefits'')) (ascii '', '')) (\<lambda>benefits.
     and_then (member (get_prop job (ascii ''requirements'')) (ascii ''experience'')) (\<lambda>experience.
     and_then (member (get_prop job (ascii ''requirements'')) (ascii ''skills'')) (\<lambda>skills.
     and_then (join_method skills (ascii '', '')) (\<lambda>skills_joined.
     and_then (member (get_prop job (ascii ''requirements'')) (ascii ''education'')) (\<lambda>education.
       Inr [(ascii ''No.'', CellNum (index + 1)),
            (col_jobTitle, or_blank (get_prop job (ascii ''jobTitle''))),
            (col_companyName, or_blank (get_prop job (ascii ''companyName''))),
            (col_location, or_blank (get_prop job (ascii ''location''))),
            (col_salary_details, or_blank salary_details),
            (col_workingHours, or_blank (get_prop job (ascii ''workingHours''))),
            (col_holidays, or_blank (get_prop job (ascii ''holidays''))),
            (col_benefits, CellVal (JStr benefits)),
            (col_experience, or_blank experience),
            (col_skills, CellVal (JStr skills_joined)),
            (col_education, or_blank education),
            (col_jobDescription, or_blank (get_prop job (ascii ''jobDescription''))),
            (col_applicationMethod, or_blank (get_prop job (ascii ''applicationMethod''))),
            (ascii ''URL'', CellVal (get_prop job (ascii ''url'')))])))))))"

text \<open>
  The three counting objects start as \<open>{}\<close>, so they inherit from \<open>Object.prototype\<close>.
  A tally is what such an object holds under a key: a count, or the string that
  \<open>(inherited || 0) + 1\<close> evaluates to when the key names a member of the prototype.
\<close>

datatype tally = Count nat | Junk

type_synonym tallies = "(jsstring \<times> tally) list"

definition object_prototype_names :: "jsstring list" where
  "object_prototype_names =
     [ascii ''constructor'', ascii ''hasOwnProperty'', ascii ''isPrototypeOf'',
      ascii ''propertyIsEnumerable'', ascii ''toLocaleString'', ascii ''toString'',
      ascii ''valueOf'', ascii ''__defineGetter__'', ascii ''__defineSetter__'',
      ascii ''__lookupGetter__'', ascii ''__lookupSetter__'', ascii ''__proto__'']"

text \<open>
  \<open>obj[v] = (obj[v] || 0) + 1\<close> for a truthy \<open>v\<close>. The key is \<open>ToString v\<close>. An own count
  is incremented; an absent key that the prototype does not have either starts at 1; an
  inherited member is truthy and \<open>+ 1\<close> appends to its text, and so does it to an own
  string. Assigning a string to \<open>__proto__\<close> goes to the setter of the prototype, which
  ignores it.
\<close>

definition bump :: "jsval \<Rightarrow> tallies \<Rightarrow> js_error + tallies" where
  "bump v obj =
     and_then (to_string v) (\<lambda>k.
       let new = (case map_of obj k of
                    Some (Count n) \<Rightarrow> Count (n + 1)
                  | Some Junk \<Rightarrow> Junk
                  | None \<Rightarrow> if k \<in> set object_prototype_names then Junk else Count 1)
       in Inr (if k = ascii ''__proto__'' then obj else AList.update k new obj))"

record stats =
  total_jobs :: nat
  by_jobTitle :: tallies
  by_location :: tallies
  by_employmentType :: tallies

text \<open>\<open>if (job.field) { ... }\<close>\<close>

definition bump_if_present :: "jsval \<Rightarrow> tallies \<Rightarrow> js_error + tallies" where
  "bump_if_present v obj = (if truthy v then bump v obj else Inr obj)"

definition count_job :: "jsobject \<Rightarrow> stats \<Rightarrow> js_error + stats" where
  "count_job job s =
     and_then (bump_if_present (get_prop job (ascii ''jobTitle'')) (by_jobTitle s)) (\<lambda>t1.
     and_then (bump_if_present (get_prop job (ascii ''location'')) (by_location s)) (\<lambda>t2.
     and_then (bump_if_present (get_prop job (ascii ''employmentType'')) (by_employmentType s)) (\<lambda>t3.
       Inr (s\<lparr>by_jobTitle := t1, by_location := t2, by_employmentType := t3\<rparr>))))"

text \<open>\<open>jobsData.forEach(job => ...)\<close>; an exception leaves the loop.\<close>

fun count_jobs :: "jsobject list \<Rightarrow> stats \<Rightarrow> js_error + stats" where
  "count_jobs [] s = Inr s"
| "count_jobs (job # jobs) s = and_then (count_job job s) (count_jobs jobs)"

text \<open>
  \<open>Object.entries\<close>: the own keys that are array indices (canonical decimal numerals below
  \<open>2^32 - 1\<close>) come first, in ascending order, then the others in the order of creation.
\<close>

definition digits_value :: "jsstring \<Rightarrow> nat" where
  "digits_value k = foldl (\<lambda>a c. 10 * a + unat (c - 48)) 0 k"

definition is_array_index :: "jsstring \<Rightarrow> bool" where
  "is_array_index k \<longleftrightarrow>
     k \<noteq> [] \<and> (\<forall>c \<in> set k. 48 \<le> c \<and> c \<le> 57) \<and> (k = [48] \<or> hd k \<noteq> 48)
     \<and> digits_value k < 4294967295"

definition entries :: "(jsstring \<times> 'a) list \<Rightarrow> (jsstring \<times> 'a) list" where
  "entries obj =
     sort_key (\<lambda>p. digits_value (fst p)) (filter (\<lambda>p. is_array_index (fst p)) obj)
       @ filter (\<lambda>p. \<not> is_array_index (fst p)) obj"

definition tally_cell :: "tally \<Rightarrow> cell" where
  "tally_cell t = (case t of Count n \<Rightarrow> CellNum n | Junk \<Rightarrow> CellJunk)"

definition stats_row :: "cell \<Rightarrow> cell \<Rightarrow> row" where
  "stats_row item val = [(col_item, item), (col_value, val)]"

definition blank_row :: row where
  "blank_row = stats_row (CellVal (JStr [])) (CellVal (JStr []))"

definition tally_rows :: "tallies \<Rightarrow> row list" where
  "tally_rows obj = map (\<lambda>(key, val). stats_row (CellVal (JStr key)) (tally_cell val)) (entries obj)"

definition statsData :: "stats \<Rightarrow> row list" where
  "statsData s =
     [stats_row (CellVal (JStr label_total)) (CellNum (total_jobs s)),
      blank_row,
      stats_row (CellVal (JStr label_by_jobTitle)) (CellVal (JStr []))]
     @ tally_rows (by_jobTitle s)
     @ [blank_row,
        stats_row (CellVal (JStr label_by_location)) (CellVal (JStr []))]
     @ tally_rows (by_location s)
     @ [blank_row,
        stats_row (CellVal (JStr label_by_employmentType)) (CellVal (JStr []))]
     @ tally_rows (by_employmentType s)"

definition compute_stats :: "jsobject list \<Rightarrow> js_error + stats" where
  "compute_stats jobsData =
     count_jobs jobsData
       \<lparr>total_jobs = length jobsData, by_jobTitle = [], by_location = [], by_employmentType = []\<rparr>"

text \<open>
  The two calls of the library. A sheet is kept as the rows it was made from and the file
  as the workbook it was written from; an exception of the library is an \<open>Error\<close>.
\<close>

definition json_to_sheet :: "'w env \<Rightarrow> row list \<Rightarrow> js_error + row list" where
  "json_to_sheet e rows =
     (case json_to_sheet_throws e rows of Some m \<Rightarrow> Inl (Error m) | None \<Rightarrow> Inr rows)"

definition xlsx_write :: "'w env \<Rightarrow> workbook \<Rightarrow> js_error + workbook" where
  "xlsx_write e book =
     (case xlsx_write_throws e book of Some m \<Rightarrow> Inl (Error m) | None \<Rightarrow> Inr book)"

text \<open>
  \<open>createExcelFile\<close>, statement by statement: the rows of a sheet, the sheet made of
  them and appended under its name, then the next one, and the file written at the end. The
  result is the workbook that was written, or the exception that left the function.
  \<open>book_new\<close> and \<open>book_append_sheet\<close>, which is given three different fixed names, are
  taken to return.
\<close>

definition createExcelFile :: "'w env \<Rightarrow> jsobject list \<Rightarrow> js_error + workbook" where
  "createExcelFile e jobsData =
     and_then (map_err (summary_row e) jobsData) (\<lambda>summaryData.
     and_then (json_to_sheet e summaryData) (\<lambda>summarySheet.
     and_then (map_err detail_row (zip [0 ..< length jobsData] jobsData)) (\<lambda>detailData.
     and_then (json_to_sheet e detailData) (\<lambda>detailSheet.
     and_then (compute_stats jobsData) (\<lambda>s.
     and_then (json_to_sheet e (statsData s)) (\<lambda>statsSheet.
       xlsx_write e [(sheet_summary, summarySheet), (sheet_detail, detailSheet),
                     (sheet_stats, statsSheet)]))))))"

section \<open>The batch route: the handler\<close>

record batch_request =
  req_urls :: "jsstring list option"
  req_apiKey :: "jsstring option"

text \<open>A JSON error body with its status, or the spreadsheet with its status and the
  value of \<open>Content-Disposition\<close>.\<close>

datatype batch_response =
    BatchError nat jsstring
  | BatchXlsx nat jsstring workbook

fun batch_status :: "batch_response \<Rightarrow> nat" where
  "batch_status (BatchError code m) = code"
| "batch_status (BatchXlsx code name wb) = code"

text \<open>The outer \<open>catch\<close> of the handler.\<close>

fun batch_failure :: "js_error \<Rightarrow> batch_response" where
  "batch_failure (AxiosError status api m) =
     (if status = Some 402
        then BatchError 402
          (ascii ''OpenRouter API: Payment required. Please check your account balance and try again.'')
      else if status = Some 401
        then BatchError 401 (ascii ''OpenRouter API: Invalid API key. Please check your API key.'')
      else if status = Some 429
        then BatchError 429 (ascii ''OpenRouter API: Rate limit exceeded. Please try again later.'')
      else (case status of
              Some n \<Rightarrow>
                (if n \<noteq> 0
                 then BatchError n (ascii ''OpenRouter API Error ('' @ show_nat n @ ascii ''): ''
                                      @ apiErrorMessage api m)
                 else BatchError 500 (ascii ''Network error: '' @ m))
            | None \<Rightarrow> BatchError 500 (ascii ''Network error: '' @ m)))"
| "batch_failure (SyntaxError m) = BatchError 500 (ascii ''Processing error: '' @ m)"
| "batch_failure (Error m) = BatchError 500 (ascii ''Processing error: '' @ m)"
| "batch_failure NonError = BatchError 500 (ascii ''Failed to process job data extraction'')"

definition POST_extract_to_excel ::
  "'w env \<Rightarrow> batch_request \<Rightarrow> 'w state \<Rightarrow> batch_response \<times> 'w state" where
  "POST_extract_to_excel e rq st =
     (case req_urls rq of
        None \<Rightarrow> (BatchError 400 (ascii ''URLs array is required''), st)
      | Some us \<Rightarrow>
          if us = [] then (BatchError 400 (ascii ''URLs array is required''), st)
          else (case req_apiKey rq of
                  None \<Rightarrow> (BatchError 400 (ascii ''OpenRouter API key is required''), st)
                | Some key \<Rightarrow>
                    if key = [] then (BatchError 400 (ascii ''OpenRouter API key is required''), st)
                    else (case process_urls e key us st [] of
                            (jobsData, st1) \<Rightarrow>
                              (case createExcelFile e jobsData of
                                 Inl err \<Rightarrow> (batch_failure err, st1)
                               | Inr excel \<Rightarrow>
                                   (case do_now e st1 of
                                      (t, st2) \<Rightarrow>
                                        (BatchXlsx 200
                                           (ascii ''attachment; filename='' @ [34] @ ascii ''job_data_''
                                              @ takeWhile (\<lambda>c. c \<noteq> 84) t
                                              @ ascii ''.xlsx'' @ [34])
                                           excel, st2))))))"

section \<open>The preview route\<close>

record raw_extraction =
  raw_title :: jsstring
  raw_h1 :: jsstring
  raw_h2Elements :: "jsstring list"
  raw_content :: jsstring
  raw_contentLength :: nat

text \<open>What \<open>extractContentFromUrl\<close> of the preview route computes from the page.\<close>

definition extract_from_document :: "document \<Rightarrow> raw_extraction" where
  "extract_from_document d =
     (let title = trim (sel_text d (ascii ''title''));
          h1 = trim (sel_first_text d (ascii ''h1''));
          h2Elements = take 5 (map trim (sel_each_text d (ascii ''h2'')));
          cleanContent = clean_text (select_main_content d)
      in \<lparr>raw_title = title, raw_h1 = h1, raw_h2Elements = h2Elements,
          raw_content = cleanContent, raw_contentLength = length cleanContent\<rparr>)"

definition extractContentFromUrl_preview ::
  "'w env \<Rightarrow> jsstring \<Rightarrow> 'w state \<Rightarrow> (js_error + raw_extraction) \<times> 'w state" where
  "extractContentFromUrl_preview e u st =
     (case do_get e u st of
        (Inl err, st') \<Rightarrow> (Inl err, st')
      | (Inr d, st') \<Rightarrow> (Inr (extract_from_document d), st'))"

text \<open>The last literal of \<open>validateApiKey\<close>: "the validation of the API key failed".\<close>

definition msg_probe_failed :: jsstring where
  "msg_probe_failed =
     [65, 80, 73, 12461, 12540, 12398, 26908, 35388, 12395, 22833, 25943, 12375, 12414, 12375,
      12383, 12290]"

text \<open>\<open>${status}\<close> for a status that may be \<open>undefined\<close>.\<close>

definition status_text :: "nat option \<Rightarrow> jsstring" where
  "status_text status = (case status of Some n \<Rightarrow> show_nat n | None \<Rightarrow> ascii ''undefined'')"

fun probe_error_message :: "js_error \<Rightarrow> jsstring" where
  "probe_error_message (AxiosError status api m) =
     (if status = Some 402 then msg_402
      else if status = Some 401 then msg_401
      else if status = Some 429 then msg_429
      else msg_api_error (status_text status) (apiErrorMessage api m))"
| "probe_error_message err = msg_probe_failed"

record key_validation =
  kv_valid :: bool
  kv_error :: "jsstring option"

text \<open>\<open>validateApiKey\<close>: one minimal call; it catches everything and never throws.\<close>

definition validateApiKey :: "'w env \<Rightarrow> jsstring \<Rightarrow> 'w state \<Rightarrow> key_validation \<times> 'w state" where
  "validateApiKey e key st =
     (case do_post e (ProbeRequest key) st of
        (Inr response, st') \<Rightarrow>
          (\<lparr>kv_valid = (reply_status response = 200), kv_error = None\<rparr>, st')
      | (Inl err, st') \<Rightarrow>
          (\<lparr>kv_valid = False, kv_error = Some (probe_error_message err)\<rparr>, st'))"

text \<open>The \<open>catch\<close> around the validation and the structuring.\<close>

fun preview_error_message :: "js_error \<Rightarrow> jsstring" where
  "preview_error_message (AxiosError status api m) =
     (if status = Some 402
        then ascii ''OpenRouter API: Payment required. Please check your account balance.''
      else if status = Some 401 then ascii ''OpenRouter API: Invalid API key.''
      else if status = Some 429
        then ascii ''OpenRouter API: Rate limit exceeded. Please try again later.''
      else ascii ''OpenRouter API Error ('' @ status_text status @ ascii ''): ''
             @ apiErrorMessage api m)"
| "preview_error_message (SyntaxError m) = ascii ''Structuring error: '' @ m"
| "preview_error_message (Error m) = ascii ''Structuring error: '' @ m"
| "preview_error_message NonError = ascii ''Structuring error: Unknown error''"

record preview_request =
  preq_url :: "jsstring option"
  preq_apiKey :: "jsstring option"

record preview_response =
  pr_rawData :: raw_extraction
  pr_url :: jsstring
  pr_structuredData :: "jsobject option"
  pr_error :: "jsstring option"
  pr_apiKeyValid :: "bool option"

datatype preview_result =
    PreviewError nat jsstring
  | PreviewOk preview_response

text \<open>The part of the handler under \<open>if (apiKey)\<close>.\<close>

definition preview_structuring ::
  "'w env \<Rightarrow> jsstring \<Rightarrow> jsstring \<Rightarrow> preview_response \<Rightarrow> 'w state
     \<Rightarrow> preview_response \<times> 'w state" where
  "preview_structuring e u key response st =
     (case validateApiKey e key st of
        (keyValidation, st1) \<Rightarrow>
          (let response1 = response\<lparr>pr_apiKeyValid := Some (kv_valid keyValidation)\<rparr>
           in if kv_valid keyValidation
              then (case structureJobData_preview e (raw_content (pr_rawData response)) u key st1 of
                      (Inr structuredData, st2) \<Rightarrow>
                        (response1\<lparr>pr_structuredData := Some structuredData\<rparr>, st2)
                    | (Inl err, st2) \<Rightarrow>
                        (response1\<lparr>pr_error := Some (preview_error_message err)\<rparr>, st2))
              else (response1\<lparr>pr_error :=
                       Some (case kv_error keyValidation of
                               Some m \<Rightarrow>
                                 (if m \<noteq> [] then m
                                  else ascii ''Invalid API key or insufficient credits'')
                             | None \<Rightarrow> ascii ''Invalid API key or insufficient credits'')\<rparr>,
                    st1)))"

definition POST_preview_extraction ::
  "'w env \<Rightarrow> preview_request \<Rightarrow> 'w state \<Rightarrow> preview_result \<times> 'w state" where
  "POST_preview_extraction e rq st =
     (case preq_url rq of
        None \<Rightarrow> (PreviewError 400 (ascii ''URL is required''), st)
      | Some u \<Rightarrow>
          if u = [] then (PreviewError 400 (ascii ''URL is required''), st)
          else (case extractContentFromUrl_preview e u st of
                  (Inl (AxiosError status api m), st1) \<Rightarrow>
                    (PreviewError 500 (ascii ''Failed to fetch URL: '' @ m), st1)
                | (Inl err, st1) \<Rightarrow> (PreviewError 500 (ascii ''Failed to process URL''), st1)
                | (Inr rawData, st1) \<Rightarrow>
                    (let response = \<lparr>pr_rawData = rawData, pr_url = u, pr_structuredData = None,
                                     pr_error = None, pr_apiKeyValid = None\<rparr>
                     in case preq_apiKey rq of
                          None \<Rightarrow> (PreviewOk response, st1)
                        | Some key \<Rightarrow>
                            if key = [] then (PreviewOk response, st1)
                            else (case preview_structuring e u key response st1 of
                                    (response', st2) \<Rightarrow> (PreviewOk response', st2)))))"

section \<open>The extract-content route\<close>

record extracted_data =
  ex_title :: jsstring
  ex_h1 :: jsstring
  ex_h2Elements :: "jsstring list"
  ex_content :: jsstring
  ex_url :: jsstring

datatype extract_result =
    ExtractError nat jsstring
  | ExtractOk extracted_data

text \<open>\<open>if (mainContent.length > 3000) mainContent = mainContent.substring(0, 3000) + '...'\<close>\<close>

definition limit_content :: "jsstring \<Rightarrow> jsstring" where
  "limit_content mainContent =
     (if length mainContent > 3000 then take 3000 mainContent @ ascii ''...'' else mainContent)"

definition POST_extract_content ::
  "'w env \<Rightarrow> jsstring option \<Rightarrow> 'w state \<Rightarrow> extract_result \<times> 'w state" where
  "POST_extract_content e url_field st =
     (case url_field of
        None \<Rightarrow> (ExtractError 400 (ascii ''URL is required''), st)
      | Some u \<Rightarrow>
          if u = [] then (ExtractError 400 (ascii ''URL is required''), st)
          else (case do_get e u st of
                  (Inl err, st1) \<Rightarrow>
                    (ExtractError 500 (ascii ''Failed to extract content from URL''), st1)
                | (Inr d, st1) \<Rightarrow>
                    (let title = trim (sel_text d (ascii ''title''));
                         h1 = trim (sel_first_text d (ascii ''h1''));
                         h2Elements = map trim (sel_each_text d (ascii ''h2''));
                         mainContent = limit_content (clean_text (select_main_content d))
                     in (ExtractOk \<lparr>ex_title = title, ex_h1 = h1,
                                     ex_h2Elements = take 5 h2Elements,
                                     ex_content = mainContent, ex_url = u\<rparr>, st1))))"

section \<open>The wording of the specification, for comparison\<close>

text \<open>
  Follows the specification, not the source: "the first balanced \<open>{...}\<close> region" of a
  reply. \<open>spec_balanced_from depth s\<close> reads \<open>s\<close> with \<open>depth\<close> braces open and returns
  the text up to the brace that closes the outermost one; \<open>spec_first_balanced_region\<close> tries
  every opening brace from the left.
\<close>

fun spec_balanced_from :: "nat \<Rightarrow> jsstring \<Rightarrow> jsstring option" where
  "spec_balanced_from depth [] = None"
| "spec_balanced_from depth (c # cs) =
     (if c = 123 then map_option ((#) c) (spec_balanced_from (Suc depth) cs)
      else if c = 125 then
        (case depth of
           0 \<Rightarrow> None
         | Suc 0 \<Rightarrow> Some [c]
         | Suc (Suc n) \<Rightarrow> map_option ((#) c) (spec_balanced_from (Suc n) cs))
      else map_option ((#) c) (spec_balanced_from depth cs))"

fun spec_first_balanced_region :: "jsstring \<Rightarrow> jsstring option" where
  "spec_first_balanced_region [] = None"
| "spec_first_balanced_region (c # cs) =
     (if c = 123
      then (case spec_balanced_from 0 (c # cs) of
              Some region \<Rightarrow> Some region
            | None \<Rightarrow> spec_first_balanced_region cs)
      else spec_first_balanced_region cs)"

section \<open>Notions used in the statements\<close>

text \<open>
  The shape of a job that \<open>createExcelFile\<close> relies on without checking it (the interface
  \<open>JobData\<close> declares it, \<open>JSON.parse\<close> does not enforce it): \<open>salary\<close> is
  neither \<open>undefined\<close> nor \<open>null\<close>, \<open>requirements\<close> is an object, \<open>benefits\<close> and
  \<open>requirements.skills\<close> are arrays whose elements can be turned into strings, and so can
  the truthy values of the three grouping fields.
\<close>

definition is_nullish :: "jsval \<Rightarrow> bool" where
  "is_nullish v \<longleftrightarrow> v = JUndefined \<or> v = JNull"

fun is_joinable :: "jsval \<Rightarrow> bool" where
  "is_joinable (JArr xs) = (\<forall>x \<in> set xs. convertible x)"
| "is_joinable v = False"

definition key_ok :: "jsval \<Rightarrow> bool" where
  "key_ok v \<longleftrightarrow> (truthy v \<longrightarrow> convertible v)"

definition well_shaped :: "jsobject \<Rightarrow> bool" where
  "well_shaped job \<longleftrightarrow>
     \<not> is_nullish (get_prop job (ascii ''salary''))
     \<and> is_joinable (get_prop job (ascii ''benefits''))
     \<and> (case get_prop job (ascii ''requirements'') of
          JObj r \<Rightarrow> is_joinable (get_prop r (ascii ''skills''))
        | v \<Rightarrow> False)
     \<and> key_ok (get_prop job (ascii ''jobTitle''))
     \<and> key_ok (get_prop job (ascii ''location''))
     \<and> key_ok (get_prop job (ascii ''employmentType''))"

text \<open>
  The three tables of \<open>createExcelFile\<close> apart from the library: what the function
  computes from the jobs when no read of a job throws. The library accepts a workbook when
  it makes a sheet of each table and writes the file.
\<close>

definition report_tables :: "'w env \<Rightarrow> jsobject list \<Rightarrow> js_error + workbook" where
  "report_tables e jobsData =
     and_then (map_err (summary_row e) jobsData) (\<lambda>summaryData.
     and_then (map_err detail_row (zip [0 ..< length jobsData] jobsData)) (\<lambda>detailData.
     and_then (compute_stats jobsData) (\<lambda>s.
       Inr [(sheet_summary, summaryData), (sheet_detail, detailData),
            (sheet_stats, statsData s)])))"

definition library_accepts :: "'w env \<Rightarrow> workbook \<Rightarrow> bool" where
  "library_accepts e book \<longleftrightarrow>
     list_all (\<lambda>sheet. json_to_sheet_throws e (snd sheet) = None) book
     \<and> xlsx_write_throws e book = None"

text \<open>Reading the statistics: the count a tally stands for, and the grouping key of a job.\<close>

fun tally_count :: "tally \<Rightarrow> nat" where
  "tally_count (Count n) = n"
| "tally_count Junk = 0"

definition in_group :: "jsstring \<Rightarrow> jsstring \<Rightarrow> jsobject \<Rightarrow> bool" where
  "in_group field k job \<longleftrightarrow> truthy (get_prop job field) \<and> to_str (get_prop job field) = k"

definition gets :: "event list \<Rightarrow> jsstring list" where
  "gets tr = concat (map (\<lambda>ev. case ev of Get u \<Rightarrow> [u] | _ \<Rightarrow> []) tr)"

text \<open>
  The shape of the events of a batch: for every URL one fetch, followed or not by one call
  of the service and one wait of 1000 ms.
\<close>

fun paced :: "event list \<Rightarrow> bool" where
  "paced [] = True"
| "paced (Get u # Post rq # Delay ms # tr) = (ms = 1000 \<and> paced tr)"
| "paced (Get u # tr) = paced tr"
| "paced (ev # tr) = False"

text \<open>
  The tallies of one field as the loop of \<open>createExcelFile\<close> builds them; the loop treats
  its three fields alike and independently of each other.
\<close>

fun tally_field :: "jsstring \<Rightarrow> jsobject list \<Rightarrow> tallies \<Rightarrow> js_error + tallies" where
  "tally_field field [] obj = Inr obj"
| "tally_field field (job # jobs) obj =
     and_then (bump_if_present (get_prop job field) obj) (tally_field field jobs)"

section \<open>Worked examples\<close>

text \<open>
  A page with a 40-character \<open>main\<close>, a 120-character \<open>article\<close> and seven secondary
  headings; a page with nothing but a long body; and a world in which one address answers
  with the first page, another with the second, and every other fetch times out. The
  structuring service answers with \<open>reply\<close>; the probe accepts the key \<open>sk-good\<close>, answers
  402 to \<open>sk-broke\<close> and 401 to any other key. The spreadsheet library takes everything.
\<close>

abbreviation demo_url :: jsstring where
  "demo_url \<equiv> ascii ''https://jobs.example/1''"

abbreviation down_url :: jsstring where
  "down_url \<equiv> ascii ''https://down.example/''"

abbreviation demo_time :: jsstring where
  "demo_time \<equiv> ascii ''2024-05-01T09:00:00.000Z''"

definition main_text :: jsstring where
  "main_text = ascii ''Backend engineer wanted: apply on site!!''"

definition article_text :: jsstring where
  "article_text =
     ascii ''We are hiring a backend engineer in Tokyo. You will build and run our job search services with one small, friendly team.''"

definition demo_page :: document where
  "demo_page =
     \<lparr>sel_text = (\<lambda>s.
        if s = ascii ''main'' then ascii ''  '' @ main_text @ ascii ''  ''
        else if s = ascii ''article'' then [10, 32] @ article_text @ [10]
        else if s = ascii ''body'' then ascii ''Jobs  Backend engineer wanted: apply on site!!''
        else if s = ascii ''title'' then ascii '' Backend Engineer | Example Corp ''
        else []),
      sel_first_text = (\<lambda>s. if s = ascii ''h1'' then ascii ''Backend Engineer '' else []),
      sel_each_text = (\<lambda>s.
        if s = ascii ''h2''
        then [ascii '' About '', ascii ''Role'', ascii ''Team'', ascii ''Pay'', ascii ''Perks'',
              ascii ''Apply'', ascii ''Contact'']
        else [])\<rparr>"

definition long_page :: document where
  "long_page =
     \<lparr>sel_text = (\<lambda>s. if s = ascii ''body'' then replicate 3001 97 else []),
      sel_first_text = (\<lambda>s. []),
      sel_each_text = (\<lambda>s. [])\<rparr>"

definition timeout_error :: js_error where
  "timeout_error = AxiosError None None (ascii ''timeout of 10000ms exceeded'')"

definition demo_env :: "jsstring \<Rightarrow> (jsstring \<Rightarrow> jsstring + jsobject) \<Rightarrow> nat env" where
  "demo_env reply parse =
     \<lparr>axios_get = (\<lambda>u w.
        (if u = ascii ''https://jobs.example/1'' then Inr demo_page
         else if u = ascii ''https://jobs.example/long'' then Inr long_page
         else Inl timeout_error, Suc w)),
      axios_post = (\<lambda>rq w.
        (case rq of
           StructureRequest key excerpt \<Rightarrow> Inr \<lparr>reply_status = 200, reply_content = reply\<rparr>
         | ProbeRequest key \<Rightarrow>
             (if key = ascii ''sk-good'' then Inr \<lparr>reply_status = 200, reply_content = ascii ''Hi''\<rparr>
              else if key = ascii ''sk-broke''
                then Inl (AxiosError (Some 402) (Some (ascii ''Insufficient credits''))
                            (ascii ''Request failed with status code 402''))
              else Inl (AxiosError (Some 401) None (ascii ''Request failed with status code 401''))),
         Suc w)),
      date_now = (\<lambda>w. (ascii ''2024-05-01T09:00:00.000Z'', w)),
      json_parse = parse,
      to_locale = to_str,
      json_to_sheet_throws = (\<lambda>rows. None),
      xlsx_write_throws = (\<lambda>book. None)\<rparr>"

text \<open>
  Two replies of the service with what \<open>JSON.parse\<close> makes of the text cut out of them: a
  short object inside prose, and an object with every part the report reads.
\<close>

definition short_json :: jsstring where
  "short_json = [123, 34] @ ascii ''jobTitle'' @ [34, 58, 34] @ ascii ''Engineer'' @ [34, 125]"

definition short_reply :: jsstring where
  "short_reply = ascii ''Here is the result: '' @ short_json @ ascii '' Hope this helps.''"

definition short_object :: jsobject where
  "short_object = [(ascii ''jobTitle'', JStr (ascii ''Engineer''))]"

definition full_json :: jsstring where
  "full_json =
     [123, 34] @ ascii ''jobTitle'' @ [34, 58, 34] @ ascii ''Engineer'' @ [34, 44, 34]
     @ ascii ''salary'' @ [34, 58, 123, 125, 44, 34]
     @ ascii ''benefits'' @ [34, 58, 91, 93, 44, 34]
     @ ascii ''requirements'' @ [34, 58, 123, 34] @ ascii ''skills'' @ [34, 58, 91, 93, 125, 125]"

definition full_object :: jsobject where
  "full_object =
     [(ascii ''jobTitle'', JStr (ascii ''Engineer'')),
      (ascii ''salary'', JObj []),
      (ascii ''benefits'', JArr []),
      (ascii ''requirements'', JObj [(ascii ''skills'', JArr [])])]"

definition parse_short :: "jsstring \<Rightarrow> jsstring + jsobject" where
  "parse_short s = (if s = short_json then Inr short_object else Inl (ascii ''Unexpected token''))"

definition parse_full :: "jsstring \<Rightarrow> jsstring + jsobject" where
  "parse_full s = (if s = full_json then Inr full_object else Inl (ascii ''Unexpected token''))"

text \<open>Two objects one after the other: \<open>{"a":1} and {"b":2}\<close>.\<close>

definition first_object_json :: jsstring where
  "first_object_json = [123, 34, 97, 34, 58, 49, 125]"

definition two_objects_reply :: jsstring where
  "two_objects_reply = first_object_json @ ascii '' and '' @ [123, 34, 98, 34, 58, 50, 125]"

text \<open>A parser for that example: of the texts it is given, only the first object is JSON.\<close>

definition parse_first_object :: "jsstring \<Rightarrow> jsstring + jsobject" where
  "parse_first_object s =
     (if s = first_object_json then Inr [(ascii ''a'', JNum (ascii ''1''))]
      else Inl (ascii ''Unexpected non-whitespace character after JSON''))"

text \<open>A record whose job title is the empty string.\<close>

definition blank_title_job :: jsobject where
  "blank_title_job =
     set_prop (ascii ''jobTitle'') (JStr [])
       (empty_job (ascii ''Writes code.'') (ascii ''https://jobs.example/1'')
          (ascii ''2024-05-01T09:00:00.000Z''))"

text \<open>A record as structuring returns it for the second reply, and a record whose job
  title is the name of a member of \<open>Object.prototype\<close>.\<close>

definition engineer_job :: jsobject where
  "engineer_job =
     set_prop (ascii ''extractedAt'') (JStr demo_time)
       (set_prop (ascii ''url'') (JStr demo_url) full_object)"

definition constructor_job :: jsobject where
  "constructor_job =
     set_prop (ascii ''jobTitle'') (JStr (ascii ''constructor''))
       (empty_job (ascii ''Builds houses.'') demo_url demo_time)"

text \<open>
  Two more pages: one whose \<open>main\<close> differs from its \<open>article\<close> by a doubled space only,
  one whose \<open>main\<close> holds nothing but spaces. In \<open>page_env d\<close> every fetch answers with the
  page \<open>d\<close>.
\<close>

definition spaced_page :: document where
  "spaced_page =
     \<lparr>sel_text = (\<lambda>s.
        if s = ascii ''main'' then ascii ''x  y''
        else if s = ascii ''article'' then ascii ''x y''
        else if s = ascii ''body'' then ascii ''x  y x y''
        else []),
      sel_first_text = (\<lambda>s. []),
      sel_each_text = (\<lambda>s. [])\<rparr>"

definition blank_main_page :: document where
  "blank_main_page =
     \<lparr>sel_text = (\<lambda>s.
        if s = ascii ''main'' then ascii ''   ''
        else if s = ascii ''body'' then ascii ''hello''
        else []),
      sel_first_text = (\<lambda>s. []),
      sel_each_text = (\<lambda>s. [])\<rparr>"

definition page_env :: "document \<Rightarrow> nat env" where
  "page_env d = (demo_env [] parse_short)\<lparr>axios_get := (\<lambda>u w. (Inr d, Suc w))\<rparr>"

text \<open>A world in which every call of the structuring service fails with \<open>err\<close>, and one in
  which the library refuses to write the file.\<close>

definition failing_env :: "js_error \<Rightarrow> nat env" where
  "failing_env err = (demo_env [] parse_short)\<lparr>axios_post := (\<lambda>rq w. (Inl err, Suc w))\<rparr>"

definition refusing_env :: "jsstring \<Rightarrow> (jsstring \<Rightarrow> jsstring + jsobject) \<Rightarrow> nat env" where
  "refusing_env reply parse =
     (demo_env reply parse)\<lparr>xlsx_write_throws := (\<lambda>book. Some (ascii ''cannot write the file''))\<rparr>"

section \<open>Lemmas on text and on the choice of the content\<close>

lemma limit_content_length: "length (limit_content s) \<le> 3003"
  by (simp add: limit_content_def ascii_def)

lemma longest_candidate_ge_acc: "length acc \<le> length (longest_candidate d sels acc)"
  by (induction sels arbitrary: acc) (auto simp: Let_def intro: order_trans less_imp_le)

lemma longest_candidate_ge:
  "s \<in> set sels \<Longrightarrow> length (trim (sel_text d s)) \<le> length (longest_candidate d sels acc)"
proof (induction sels arbitrary: acc)
  case Nil
  then show ?case by simp
next
  case (Cons a sels)
  show ?case
  proof (cases "s = a")
    case True
    have "length (trim (sel_text d a)) \<le> length (longest_candidate d (a # sels) acc)"
      using longest_candidate_ge_acc[of "trim (sel_text d a)" d sels]
            longest_candidate_ge_acc[of acc d sels]
      by (auto simp: Let_def)
    then show ?thesis using True by simp
  next
    case False
    then have "s \<in> set sels" using Cons.prems by simp
    then show ?thesis using Cons.IH by (simp add: Let_def)
  qed
qed

lemma longest_candidate_mem:
  "longest_candidate d sels acc = acc \<or>
   (\<exists>s \<in> set sels. trim (sel_text d s) \<noteq> [] \<and> longest_candidate d sels acc = trim (sel_text d s))"
proof (induction sels arbitrary: acc)
  case Nil
  then show ?case by simp
next
  case (Cons a sels)
  show ?case
    using Cons.IH[of acc] Cons.IH[of "trim (sel_text d a)"]
    by (auto simp: Let_def)
qed

lemma longest_candidate_blank:
  "\<forall>s \<in> set sels. trim (sel_text d s) = [] \<Longrightarrow> longest_candidate d sels acc = acc"
  by (induction sels arbitrary: acc) (auto simp: Let_def)

lemma no_space_dropWhile: "\<forall>c \<in> set s. \<not> is_space c \<Longrightarrow> dropWhile is_space s = s"
  by (cases s) auto

lemma no_space_trim: "\<forall>c \<in> set s. \<not> is_space c \<Longrightarrow> trim s = s"
  by (simp add: trim_def no_space_dropWhile)

lemma no_space_collapse:
  "\<forall>c \<in> set s. \<not> is_space c \<Longrightarrow> collapse_runs is_space r s = s"
  by (induction s) auto

lemma no_newline_collapse:
  "\<forall>c \<in> set s. c \<noteq> 10 \<Longrightarrow> collapse_runs (\<lambda>c. c = 10) r s = s"
  by (induction s) auto

lemma no_space_clean_text: "\<forall>c \<in> set s. \<not> is_space c \<Longrightarrow> clean_text s = s"
proof -
  assume h: "\<forall>c \<in> set s. \<not> is_space c"
  then have "\<forall>c \<in> set s. c \<noteq> 10" by (auto simp: is_space_def)
  then show ?thesis using h by (simp add: clean_text_def no_space_collapse no_newline_collapse no_space_trim)
qed

lemma select_main_content_long_page: "select_main_content long_page = replicate 3001 97"
proof -
  have sel: "\<And>s. s \<in> set contentSelectors \<Longrightarrow> sel_text long_page s = []"
    by (auto simp: contentSelectors_def long_page_def ascii_def)
  have "longest_candidate long_page contentSelectors [] = []"
    by (rule longest_candidate_blank) (simp add: sel trim_def)
  moreover have "trim (sel_text long_page (ascii ''body'')) = replicate 3001 97"
    by (simp add: long_page_def no_space_trim is_space_def)
  ultimately show ?thesis by (simp add: select_main_content_def)
qed

lemma clean_long: "clean_text (replicate 3001 97) = replicate 3001 97"
  by (simp add: no_space_clean_text is_space_def)

section \<open>The extract-content route caps what it returns\<close>

text \<open>
  C10. Whenever the extract-content route answers with extracted data, the content it
  returns is the normalized text of the page if that has at most 3000 characters, and
  otherwise its first 3000 characters followed by \<open>...\<close>; so it never has more than 3003
  characters.
\<close>

theorem extract_content_capped:
  assumes "POST_extract_content e url_field st = (ExtractOk x, st')"
  shows "length (ex_content x) \<le> 3003
     \<and> (\<exists>u d. url_field = Some u \<and> fst (axios_get e u (fst st)) = Inr d
          \<and> (let c = clean_text (select_main_content d)
             in ex_content x = (if length c > 3000 then take 3000 c @ ascii ''...'' else c)))"
proof -
  from assms obtain u where u: "url_field = Some u" "u \<noteq> []"
    by (auto simp: POST_extract_content_def split: option.splits if_splits)
  from assms u obtain d where d: "fst (axios_get e u (fst st)) = Inr d"
    and x: "ex_content x = limit_content (clean_text (select_main_content d))"
    by (auto simp: POST_extract_content_def do_get_def Let_def
             split: prod.splits sum.splits)
  have "length (ex_content x) \<le> 3003" using x limit_content_length by simp
  moreover have "let c = clean_text (select_main_content d)
             in ex_content x = (if length c > 3000 then take 3000 c @ ascii ''...'' else c)"
    using x by (simp add: limit_content_def Let_def)
  ultimately show ?thesis using u d by blast
qed

theorem extract_content_capped_witness:
  "POST_extract_content (demo_env [] parse_short) (Some (ascii ''https://jobs.example/long'')) (0, [])
     = (ExtractOk \<lparr>ex_title = [], ex_h1 = [], ex_h2Elements = [],
                   ex_content = replicate 3000 97 @ ascii ''...'',
                   ex_url = ascii ''https://jobs.example/long''\<rparr>,
        (Suc 0, [Get (ascii ''https://jobs.example/long'')]))
   \<and> length (replicate 3000 (97 :: 16 word) @ ascii ''...'') \<le> 3003"
proof -
  have get: "axios_get (demo_env [] parse_short) (ascii ''https://jobs.example/long'') 0
               = (Inr long_page, Suc 0)"
    by (simp add: demo_env_def ascii_def)
  have page: "sel_text long_page (ascii ''title'') = []" "sel_first_text long_page (ascii ''h1'') = []"
       "sel_each_text long_page (ascii ''h2'') = []"
    by (simp_all add: long_page_def ascii_def)
  have h: "POST_extract_content (demo_env [] parse_short) (Some (ascii ''https://jobs.example/long'')) (0, [])
     = (ExtractOk \<lparr>ex_title = [], ex_h1 = [], ex_h2Elements = [],
                   ex_content = replicate 3000 97 @ ascii ''...'',
                   ex_url = ascii ''https://jobs.example/long''\<rparr>,
        (Suc 0, [Get (ascii ''https://jobs.example/long'')]))"
    unfolding POST_extract_content_def do_get_def
    by (simp add: get page select_main_content_long_page clean_long limit_content_def trim_def)
       (simp add: ascii_def)
  show ?thesis using extract_content_capped[OF h] h by simp
qed

section \<open>The raw extraction of the preview route\<close>

lemma demo_candidates:
  "trim (sel_text demo_page (ascii ''main'')) = main_text"
  "trim (sel_text demo_page (ascii ''article'')) = article_text"
  "\<forall>s \<in> set contentSelectors. s \<noteq> ascii ''main'' \<and> s \<noteq> ascii ''article''
      \<longrightarrow> trim (sel_text demo_page s) = []"
    by (simp_all add: demo_page_def contentSelectors_def ascii_def trim_def is_space_def article_text_def main_text_def)

lemma demo_select: "select_main_content demo_page = article_text"
  by (simp add: select_main_content_def contentSelectors_def demo_page_def ascii_def trim_def
      is_space_def Let_def article_text_def main_text_def)

lemma demo_clean: "clean_text article_text = article_text"
  by (simp add: clean_text_def ascii_def trim_def is_space_def article_text_def main_text_def)

text \<open>
  C9. Whatever the page, the extraction of the preview route reports as \<open>contentLength\<close>
  the length of its \<open>content\<close>, and its \<open>h2Elements\<close> are the trimmed texts of the first
  five secondary headings of the page in document order: never more than five.
\<close>

theorem raw_extraction_invariants:
  assumes "extractContentFromUrl_preview e u st = (Inr r, st')"
  shows "raw_contentLength r = length (raw_content r)
     \<and> length (raw_h2Elements r) \<le> 5
     \<and> (\<exists>d. fst (axios_get e u (fst st)) = Inr d
          \<and> raw_h2Elements r = take 5 (map trim (sel_each_text d (ascii ''h2'')))
          \<and> raw_content r = clean_text (select_main_content d))"
proof -
  from assms obtain d where d: "fst (axios_get e u (fst st)) = Inr d"
    and r: "r = extract_from_document d"
    by (auto simp: extractContentFromUrl_preview_def do_get_def split: prod.splits sum.splits)
  show ?thesis using d r by (simp add: extract_from_document_def Let_def)
qed

theorem raw_extraction_invariants_witness:
  "extractContentFromUrl_preview (demo_env [] parse_short) (ascii ''https://jobs.example/1'') (0, [])
     = (Inr (extract_from_document demo_page), (Suc 0, [Get (ascii ''https://jobs.example/1'')]))
   \<and> raw_contentLength (extract_from_document demo_page) = 120
   \<and> raw_h2Elements (extract_from_document demo_page)
       = [ascii ''About'', ascii ''Role'', ascii ''Team'', ascii ''Pay'', ascii ''Perks'']"
proof -
  have h: "extractContentFromUrl_preview (demo_env [] parse_short) (ascii ''https://jobs.example/1'') (0, [])
     = (Inr (extract_from_document demo_page), (Suc 0, [Get (ascii ''https://jobs.example/1'')]))"
    by (simp add: extractContentFromUrl_preview_def do_get_def demo_env_def)
  have g: "fst (axios_get (demo_env [] parse_short) (ascii ''https://jobs.example/1'') 0) = Inr demo_page"
    by (simp add: demo_env_def)
  have h2: "take 5 (map trim (sel_each_text demo_page (ascii ''h2'')))
       = [ascii ''About'', ascii ''Role'', ascii ''Team'', ascii ''Pay'', ascii ''Perks'']"
    by (simp add: demo_page_def ascii_def trim_def is_space_def)
  have len: "length article_text = 120" by (simp add: article_text_def ascii_def)
  show ?thesis
    using raw_extraction_invariants[OF h] h g h2 len by (simp add: demo_select demo_clean)
qed

section \<open>The longest candidate is the content\<close>

lemma select_is_candidate:
  assumes "\<exists>s \<in> set contentSelectors. trim (sel_text d s) \<noteq> []"
  shows "\<exists>s \<in> set contentSelectors. trim (sel_text d s) \<noteq> []
            \<and> select_main_content d = trim (sel_text d s)"
proof -
  from assms obtain s0 where s0: "s0 \<in> set contentSelectors" "trim (sel_text d s0) \<noteq> []"
    by blast
  have "length (trim (sel_text d s0)) \<le> length (longest_candidate d contentSelectors [])"
    using s0 longest_candidate_ge by blast
  then have ne: "longest_candidate d contentSelectors [] \<noteq> []" using s0 by auto
  then have "select_main_content d = longest_candidate d contentSelectors []"
    by (simp add: select_main_content_def Let_def)
  then show ?thesis using longest_candidate_mem[of d contentSelectors "[]"] ne by auto
qed

lemma select_ge_candidates:
  assumes "s \<in> set contentSelectors"
  shows "length (trim (sel_text d s)) \<le> length (select_main_content d)"
proof (cases "longest_candidate d contentSelectors [] = []")
  case True
  then have "length (trim (sel_text d s)) = 0"
    using longest_candidate_ge[OF assms, of d "[]"] by simp
  then show ?thesis by simp
next
  case False
  then show ?thesis using longest_candidate_ge[OF assms, of d "[]"]
    by (simp add: select_main_content_def Let_def)
qed

text \<open>
  C6, as the extractor has it. The selection is made on the trimmed texts, before the
  whitespace is normalized: no candidate has a longer trimmed text than what is selected;
  when some candidate has a trimmed text that is not empty, the selection is the trimmed
  text of such a candidate, so for two candidates with |A| > |B| it is not the trimmed text
  of B; the trimmed text of the body is the fallback when the trimmed text of every
  candidate is empty, which includes a candidate that matches nothing but whitespace. With
  a 40-character \<open>main\<close> and a 120-character \<open>article\<close> as the only candidates with
  text, the \<open>article\<close> is selected. What the route returns is the selection with its
  whitespace normalized, which may be the very text of a shorter candidate.
\<close>

theorem longest_candidate_selected:
  "(\<forall>s \<in> set contentSelectors. length (trim (sel_text d s)) \<le> length (select_main_content d))
   \<and> ((\<exists>s \<in> set contentSelectors. trim (sel_text d s) \<noteq> [])
        \<longrightarrow> (\<exists>s \<in> set contentSelectors. trim (sel_text d s) \<noteq> []
               \<and> select_main_content d = trim (sel_text d s)))
   \<and> (\<forall>a \<in> set contentSelectors. \<forall>b \<in> set contentSelectors.
          length (trim (sel_text d b)) < length (trim (sel_text d a))
            \<longrightarrow> select_main_content d \<noteq> trim (sel_text d b))
   \<and> ((\<forall>s \<in> set contentSelectors. trim (sel_text d s) = [])
        \<longrightarrow> select_main_content d = trim (sel_text d (ascii ''body'')))
   \<and> (length (trim (sel_text d (ascii ''main''))) = 40
        \<and> length (trim (sel_text d (ascii ''article''))) = 120
        \<and> (\<forall>s \<in> set contentSelectors. s \<noteq> ascii ''main'' \<and> s \<noteq> ascii ''article''
              \<longrightarrow> trim (sel_text d s) = [])
        \<longrightarrow> select_main_content d = trim (sel_text d (ascii ''article'')))
   \<and> fst (extractContentFromUrl e u st)
       = (case fst (axios_get e u (fst st)) of
            Inl err \<Rightarrow> Inl err
          | Inr page \<Rightarrow> Inr (clean_text (select_main_content page)))"
proof (intro conjI)
  show "\<forall>s \<in> set contentSelectors. length (trim (sel_text d s)) \<le> length (select_main_content d)"
    using select_ge_candidates by blast
  show "(\<exists>s \<in> set contentSelectors. trim (sel_text d s) \<noteq> [])
        \<longrightarrow> (\<exists>s \<in> set contentSelectors. trim (sel_text d s) \<noteq> []
               \<and> select_main_content d = trim (sel_text d s))"
    using select_is_candidate by blast
  show "\<forall>a \<in> set contentSelectors. \<forall>b \<in> set contentSelectors.
          length (trim (sel_text d b)) < length (trim (sel_text d a))
            \<longrightarrow> select_main_content d \<noteq> trim (sel_text d b)"
  proof (intro ballI impI)
    fix a b assume a: "a \<in> set contentSelectors"
      and lt: "length (trim (sel_text d b)) < length (trim (sel_text d a))"
    have "length (trim (sel_text d a)) \<le> length (select_main_content d)"
      using select_ge_candidates[OF a] .
    then show "select_main_content d \<noteq> trim (sel_text d b)" using lt by auto
  qed
  show "(\<forall>s \<in> set contentSelectors. trim (sel_text d s) = [])
        \<longrightarrow> select_main_content d = trim (sel_text d (ascii ''body''))"
    by (simp add: select_main_content_def longest_candidate_blank)
  show "length (trim (sel_text d (ascii ''main''))) = 40
        \<and> length (trim (sel_text d (ascii ''article''))) = 120
        \<and> (\<forall>s \<in> set contentSelectors. s \<noteq> ascii ''main'' \<and> s \<noteq> ascii ''article''
              \<longrightarrow> trim (sel_text d s) = [])
        \<longrightarrow> select_main_content d = trim (sel_text d (ascii ''article''))"
  proof (intro impI, elim conjE)
    assume m: "length (trim (sel_text d (ascii ''main''))) = 40"
      and a: "length (trim (sel_text d (ascii ''article''))) = 120"
      and others: "\<forall>s \<in> set contentSelectors. s \<noteq> ascii ''main'' \<and> s \<noteq> ascii ''article''
              \<longrightarrow> trim (sel_text d s) = []"
    have art: "ascii ''article'' \<in> set contentSelectors" by (simp add: contentSelectors_def)
    then have ge: "120 \<le> length (select_main_content d)"
      using select_ge_candidates[OF art, of d] a by simp
    have "trim (sel_text d (ascii ''article'')) \<noteq> []" using a by auto
    then have "\<exists>s \<in> set contentSelectors. trim (sel_text d s) \<noteq> []" using art by (rule_tac bexI)
    then obtain s where s: "s \<in> set contentSelectors" "trim (sel_text d s) \<noteq> []"
        "select_main_content d = trim (sel_text d s)"
      using select_is_candidate by blast
    have cases: "s = ascii ''main'' \<or> s = ascii ''article''" using s(1,2) others by blast
    show "select_main_content d = trim (sel_text d (ascii ''article''))"
    proof (cases "s = ascii ''main''")
      case True
      then have "length (select_main_content d) = 40" using s(3) m by simp
      then show ?thesis using ge by simp
    next
      case False
      then have "s = ascii ''article''" using cases by blast
      then show ?thesis using s(3) by simp
    qed
  qed
  show "fst (extractContentFromUrl e u st)
       = (case fst (axios_get e u (fst st)) of
            Inl err \<Rightarrow> Inl err
          | Inr page \<Rightarrow> Inr (clean_text (select_main_content page)))"
    by (simp add: extractContentFromUrl_def do_get_def split: prod.splits sum.splits)
qed

theorem longest_candidate_selected_witness:
  "length (trim (sel_text demo_page (ascii ''main''))) = 40
   \<and> length (trim (sel_text demo_page (ascii ''article''))) = 120
   \<and> map (\<lambda>s. trim (sel_text demo_page s)) contentSelectors
       = [main_text, [], [], [], [], [], article_text, []]
   \<and> select_main_content demo_page = article_text
   \<and> fst (extractContentFromUrl (demo_env [] parse_short) (ascii ''https://jobs.example/1'') (0, []))
       = Inr article_text"
proof -
  have m: "length (trim (sel_text demo_page (ascii ''main''))) = 40"
    by (simp add: demo_candidates(1)) (simp add: main_text_def ascii_def)
  have a: "length (trim (sel_text demo_page (ascii ''article''))) = 120"
    by (simp add: demo_candidates(2)) (simp add: article_text_def ascii_def)
  note others = demo_candidates(3)
  have g: "fst (axios_get (demo_env [] parse_short) (ascii ''https://jobs.example/1'') (fst (0, [])))
             = Inr demo_page"
    by (simp add: demo_env_def)
  note T = longest_candidate_selected[of demo_page "demo_env [] parse_short"
         "ascii ''https://jobs.example/1''" "(0, [])"]
  note scenario = T[THEN conjunct2, THEN conjunct2, THEN conjunct2, THEN conjunct2, THEN conjunct1]
  note ex = T[THEN conjunct2, THEN conjunct2, THEN conjunct2, THEN conjunct2, THEN conjunct2]
  have sel: "select_main_content demo_page = trim (sel_text demo_page (ascii ''article''))"
    by (rule mp[OF scenario]) (intro conjI m a others)
  have sel': "select_main_content demo_page = article_text"
    using sel by (simp only: demo_candidates(2))
  have ex': "fst (extractContentFromUrl (demo_env [] parse_short) (ascii ''https://jobs.example/1'') (0, []))
       = Inr article_text"
    by (simp only: ex g sel' demo_clean sum.case)
  have all: "map (\<lambda>s. trim (sel_text demo_page s)) contentSelectors
       = [main_text, [], [], [], [], [], article_text, []]"
    by (simp add: contentSelectors_def demo_page_def ascii_def trim_def is_space_def
          article_text_def main_text_def)
  show ?thesis by (intro conjI m a all sel' ex')
qed

theorem longest_candidate_selected_counterexample:
  "trim (sel_text spaced_page (ascii ''main'')) = ascii ''x  y''
   \<and> trim (sel_text spaced_page (ascii ''article'')) = ascii ''x y''
   \<and> fst (extractContentFromUrl (page_env spaced_page) (ascii ''https://jobs.example/1'') (0, []))
       = Inr (ascii ''x y'')
   \<and> sel_text blank_main_page (ascii ''main'') = ascii ''   ''
   \<and> fst (extractContentFromUrl (page_env blank_main_page) (ascii ''https://jobs.example/1'') (0, []))
       = Inr (ascii ''hello'')"
proof -
  have t: "trim (sel_text spaced_page (ascii ''main'')) = ascii ''x  y''"
    "trim (sel_text spaced_page (ascii ''article'')) = ascii ''x y''"
    by (simp_all add: spaced_page_def ascii_def trim_def is_space_def)
  have s1: "select_main_content spaced_page = ascii ''x  y''"
    by (simp add: select_main_content_def contentSelectors_def spaced_page_def ascii_def
          trim_def is_space_def Let_def)
  have c1: "clean_text (ascii ''x  y'') = ascii ''x y''"
    by (simp add: clean_text_def ascii_def trim_def is_space_def)
  have e1: "fst (extractContentFromUrl (page_env spaced_page) (ascii ''https://jobs.example/1'') (0, []))
       = Inr (ascii ''x y'')"
    by (simp add: extractContentFromUrl_def do_get_def page_env_def s1 c1)
  have b: "sel_text blank_main_page (ascii ''main'') = ascii ''   ''"
    by (simp add: blank_main_page_def)
  have s2: "select_main_content blank_main_page = ascii ''hello''"
    by (simp add: select_main_content_def contentSelectors_def blank_main_page_def ascii_def
          trim_def is_space_def Let_def)
  have c2: "clean_text (ascii ''hello'') = ascii ''hello''"
    by (simp add: clean_text_def ascii_def trim_def is_space_def)
  have e2: "fst (extractContentFromUrl (page_env blank_main_page) (ascii ''https://jobs.example/1'') (0, []))
       = Inr (ascii ''hello'')"
    by (simp add: extractContentFromUrl_def do_get_def page_env_def s2 c2)
  show ?thesis by (intro conjI t e1 b e2)
qed

section \<open>The record of a failed structuring\<close>

lemma empty_job_props:
  "get_prop (empty_job dsc u t) (ascii ''jobTitle'') = JNull"
  "get_prop (empty_job dsc u t) (ascii ''companyName'') = JNull"
  "get_prop (empty_job dsc u t) (ascii ''location'') = JNull"
  "get_prop (empty_job dsc u t) (ascii ''salary'')
     = JObj [(ascii ''min'', JNull), (ascii ''max'', JNull), (ascii ''type'', JNull),
             (ascii ''details'', JNull)]"
  "get_prop (empty_job dsc u t) (ascii ''workingHours'') = JNull"
  "get_prop (empty_job dsc u t) (ascii ''holidays'') = JNull"
  "get_prop (empty_job dsc u t) (ascii ''benefits'') = JArr []"
  "get_prop (empty_job dsc u t) (ascii ''requirements'')
     = JObj [(ascii ''experience'', JNull), (ascii ''skills'', JArr []),
             (ascii ''education'', JNull)]"
  "get_prop (empty_job dsc u t) (ascii ''jobDescription'') = JStr dsc"
  "get_prop (empty_job dsc u t) (ascii ''applicationMethod'') = JNull"
  "get_prop (empty_job dsc u t) (ascii ''employmentType'') = JNull"
  "get_prop (empty_job dsc u t) (ascii ''url'') = JStr u"
  "get_prop (empty_job dsc u t) (ascii ''extractedAt'') = JStr t"
  by (simp_all add: empty_job_def get_prop_def ascii_def)

lemma structureJobData_failed:
  assumes "fst (structureJobData_preview e content u key st) = Inl err"
  shows "\<exists>t. fst (structureJobData e content u key st)
           = empty_job (fallback_description (structuring_error_message err) content) u t"
  using assms
  by (auto simp: structureJobData_def split: prod.splits sum.splits)

lemma structureJobData_preview_errors:
  assumes "fst (structureJobData_preview e content u key st) = Inl err"
  shows "fst (axios_post e (StructureRequest key (take 4000 content)) (fst st)) = Inl err
     \<or> (\<exists>response. fst (axios_post e (StructureRequest key (take 4000 content)) (fst st)) = Inr response
           \<and> jsonMatch (reply_content response) = None
           \<and> err = Error (ascii ''No valid JSON found in AI response''))
     \<or> (\<exists>response matched msg.
           fst (axios_post e (StructureRequest key (take 4000 content)) (fst st)) = Inr response
           \<and> jsonMatch (reply_content response) = Some matched
           \<and> json_parse e matched = Inl msg \<and> err = SyntaxError msg)"
  using assms
  by (auto simp: structureJobData_preview_def do_post_def do_now_def
           split: prod.splits sum.splits option.splits)

lemma fallback_description_text:
  "fallback_description message content
     = [12304, 65, 73, 27083, 36896, 21270, 12456, 12521, 12540, 12305] @ message
       @ [10, 10, 12304, 25277, 20986, 12373, 12428, 12383, 29983, 12487, 12540, 12479, 12305, 10]
       @ take 1000 content @ (if 1000 < length content then [46, 46, 46] else [])"
  by (simp add: fallback_description_def ai_error_marker_def raw_data_heading_def ascii_def)

lemma structuring_error_message_text:
  "structuring_error_message (Error m) = m"
  "structuring_error_message (SyntaxError m) = m"
  "structuring_error_message NonError = [65, 73, 27083, 36896, 21270, 12395, 22833, 25943, 12375, 12414, 12375, 12383]"
  "structuring_error_message (AxiosError (Some 402) api m) = ascii ''OpenRouter API: '' @
                   [27531, 39640, 19981, 36275, 12391, 12377, 12290, 12450, 12459, 12454, 12531,
                    12488, 12395, 12463, 12524, 12472, 12483, 12488, 12434, 36861, 21152, 12375,
                    12390, 12367, 12384, 12373, 12356, 12290]"
  "structuring_error_message (AxiosError (Some 401) api m) = ascii ''OpenRouter API: API'' @
                   [12461, 12540, 12364, 28961, 21177, 12391, 12377, 12290, 27491, 12375, 12356,
                    65, 80, 73, 12461, 12540, 12434, 20837, 21147, 12375, 12390, 12367, 12384,
                    12373, 12356, 12290]"
  "structuring_error_message (AxiosError (Some 429) api m) = ascii ''OpenRouter API: '' @
                   [12524, 12540, 12488, 21046, 38480, 12395, 36948, 12375, 12414, 12375, 12383,
                    12290, 12375, 12400, 12425, 12367, 24453, 12387, 12390, 12363, 12425, 20877,
                    35430, 34892, 12375, 12390, 12367, 12384, 12373, 12356, 12290]"
  "n \<noteq> 402 \<and> n \<noteq> 401 \<and> n \<noteq> 429 \<and> n \<noteq> 0 \<Longrightarrow>
     structuring_error_message (AxiosError (Some n) api m)
       = ascii ''OpenRouter API '' @ [12456, 12521, 12540] @ ascii '' ('' @ show_nat n @ ascii ''): ''
           @ (case api of Some a \<Rightarrow> if a = [] then m else a | None \<Rightarrow> m)"
  "structuring_error_message (AxiosError None api m) = [12493, 12483, 12488, 12527, 12540, 12463, 12456, 12521, 12540] @ ascii '': '' @ m"
  "structuring_error_message (AxiosError (Some 0) api m) = [12493, 12483, 12488, 12527, 12540, 12463, 12456, 12521, 12540] @ ascii '': '' @ m"
  by (simp_all add: msg_default_def msg_402_def msg_401_def msg_429_def msg_api_error_def
        msg_network_def apiErrorMessage_def split: option.splits)

text \<open>
  C7. When structuring fails in the batch route (the call fails, the reply holds no JSON, or
  the JSON does not parse), the description of the record is, in this order: the marker
  "AI structuring error" between lenticular brackets; the message of the failure; the
  heading "extracted raw data" between lenticular brackets, after two line feeds and before
  one; the first 1000 characters of the extracted content; and three dots exactly when the
  content is longer than 1000 characters. The message is the one of the exception for a
  reply without JSON ("No valid JSON found in AI response") and for a JSON that does not
  parse; for a failed call it is the fixed text for the status 402, 401 or 429, the status
  and the message of the service for any other status, and "network error" with the message
  of the exception when there is no status. Every other structured field is \<open>null\<close> or
  an empty array.
\<close>

theorem degraded_description:
  assumes "fst (structureJobData_preview e content u key st) = Inl err"
  shows "(\<exists>message.
         get_prop (fst (structureJobData e content u key st)) (ascii ''jobDescription'')
           = JStr ([12304, 65, 73, 27083, 36896, 21270, 12456, 12521, 12540, 12305] @ message
                   @ [10, 10, 12304, 25277, 20986, 12373, 12428, 12383, 29983, 12487, 12540, 12479, 12305, 10]
                   @ take 1000 content @ (if 1000 < length content then [46, 46, 46] else []))
       \<and> (\<forall>m. err = Error m \<longrightarrow> message = m)
       \<and> (\<forall>m. err = SyntaxError m \<longrightarrow> message = m)
       \<and> (err = NonError \<longrightarrow> message = [65, 73, 27083, 36896, 21270, 12395, 22833, 25943, 12375, 12414, 12375, 12383])
       \<and> (\<forall>api m. err = AxiosError (Some 402) api m
             \<longrightarrow> message = ascii ''OpenRouter API: '' @
                   [27531, 39640, 19981, 36275, 12391, 12377, 12290, 12450, 12459, 12454, 12531,
                    12488, 12395, 12463, 12524, 12472, 12483, 12488, 12434, 36861, 21152, 12375,
                    12390, 12367, 12384, 12373, 12356, 12290])
       \<and> (\<forall>api m. err = AxiosError (Some 401) api m
             \<longrightarrow> message = ascii ''OpenRouter API: API'' @
                   [12461, 12540, 12364, 28961, 21177, 12391, 12377, 12290, 27491, 12375, 12356,
                    65, 80, 73, 12461, 12540, 12434, 20837, 21147, 12375, 12390, 12367, 12384,
                    12373, 12356, 12290])
       \<and> (\<forall>api m. err = AxiosError (Some 429) api m
             \<longrightarrow> message = ascii ''OpenRouter API: '' @
                   [12524, 12540, 12488, 21046, 38480, 12395, 36948, 12375, 12414, 12375, 12383,
                    12290, 12375, 12400, 12425, 12367, 24453, 12387, 12390, 12363, 12425, 20877,
                    35430, 34892, 12375, 12390, 12367, 12384, 12373, 12356, 12290])
       \<and> (\<forall>n api m. err = AxiosError (Some n) api m
                    \<and> n \<noteq> 402 \<and> n \<noteq> 401 \<and> n \<noteq> 429 \<and> n \<noteq> 0
             \<longrightarrow> message = ascii ''OpenRouter API '' @ [12456, 12521, 12540] @ ascii '' (''
                             @ show_nat n @ ascii ''): ''
                             @ (case api of Some a \<Rightarrow> if a = [] then m else a | None \<Rightarrow> m))
       \<and> (\<forall>api m. err = AxiosError None api m \<or> err = AxiosError (Some 0) api m
             \<longrightarrow> message = [12493, 12483, 12488, 12527, 12540, 12463, 12456, 12521, 12540] @ ascii '': '' @ m))
     \<and> get_prop (fst (structureJobData e content u key st)) (ascii ''jobTitle'') = JNull
     \<and> get_prop (fst (structureJobData e content u key st)) (ascii ''companyName'') = JNull
     \<and> get_prop (fst (structureJobData e content u key st)) (ascii ''location'') = JNull
     \<and> get_prop (fst (structureJobData e content u key st)) (ascii ''salary'')
          = JObj [(ascii ''min'', JNull), (ascii ''max'', JNull), (ascii ''type'', JNull),
                  (ascii ''details'', JNull)]
     \<and> get_prop (fst (structureJobData e content u key st)) (ascii ''workingHours'') = JNull
     \<and> get_prop (fst (structureJobData e content u key st)) (ascii ''holidays'') = JNull
     \<and> get_prop (fst (structureJobData e content u key st)) (ascii ''benefits'') = JArr []
     \<and> get_prop (fst (structureJobData e content u key st)) (ascii ''requirements'')
          = JObj [(ascii ''experience'', JNull), (ascii ''skills'', JArr []),
                  (ascii ''education'', JNull)]
     \<and> get_prop (fst (structureJobData e content u key st)) (ascii ''applicationMethod'') = JNull
     \<and> get_prop (fst (structureJobData e content u key st)) (ascii ''employmentType'') = JNull
     \<and> get_prop (fst (structureJobData e content u key st)) (ascii ''url'') = JStr u
     \<and> (fst (axios_post e (StructureRequest key (take 4000 content)) (fst st)) = Inl err
        \<or> (\<exists>response. fst (axios_post e (StructureRequest key (take 4000 content)) (fst st)) = Inr response
              \<and> jsonMatch (reply_content response) = None
              \<and> err = Error (ascii ''No valid JSON found in AI response''))
        \<or> (\<exists>response matched msg.
              fst (axios_post e (StructureRequest key (take 4000 content)) (fst st)) = Inr response
              \<and> jsonMatch (reply_content response) = Some matched
              \<and> json_parse e matched = Inl msg \<and> err = SyntaxError msg))"
proof -
  from structureJobData_failed[OF assms] obtain t where
    job: "fst (structureJobData e content u key st)
           = empty_job (fallback_description (structuring_error_message err) content) u t"
    by blast
  have d: "get_prop (fst (structureJobData e content u key st)) (ascii ''jobDescription'')
           = JStr ([12304, 65, 73, 27083, 36896, 21270, 12456, 12521, 12540, 12305] @ structuring_error_message err
                   @ [10, 10, 12304, 25277, 20986, 12373, 12428, 12383, 29983, 12487, 12540, 12479, 12305, 10]
                   @ take 1000 content @ (if 1000 < length content then [46, 46, 46] else []))"
    unfolding job empty_job_props fallback_description_text by (rule refl)
  have desc: "(\<exists>message.
         get_prop (fst (structureJobData e content u key st)) (ascii ''jobDescription'')
           = JStr ([12304, 65, 73, 27083, 36896, 21270, 12456, 12521, 12540, 12305] @ message
                   @ [10, 10, 12304, 25277, 20986, 12373, 12428, 12383, 29983, 12487, 12540, 12479, 12305, 10]
                   @ take 1000 content @ (if 1000 < length content then [46, 46, 46] else []))
       \<and> (\<forall>m. err = Error m \<longrightarrow> message = m)
       \<and> (\<forall>m. err = SyntaxError m \<longrightarrow> message = m)
       \<and> (err = NonError \<longrightarrow> message = [65, 73, 27083, 36896, 21270, 12395, 22833, 25943, 12375, 12414, 12375, 12383])
       \<and> (\<forall>api m. err = AxiosError (Some 402) api m
             \<longrightarrow> message = ascii ''OpenRouter API: '' @
                   [27531, 39640, 19981, 36275, 12391, 12377, 12290, 12450, 12459, 12454, 12531,
                    12488, 12395, 12463, 12524, 12472, 12483, 12488, 12434, 36861, 21152, 12375,
                    12390, 12367, 12384, 12373, 12356, 12290])
       \<and> (\<forall>api m. err = AxiosError (Some 401) api m
             \<longrightarrow> message = ascii ''OpenRouter API: API'' @
                   [12461, 12540, 12364, 28961, 21177, 12391, 12377, 12290, 27491, 12375, 12356,
                    65, 80, 73, 12461, 12540, 12434, 20837, 21147, 12375, 12390, 12367, 12384,
                    12373, 12356, 12290])
       \<and> (\<forall>api m. err = AxiosError (Some 429) api m
             \<longrightarrow> message = ascii ''OpenRouter API: '' @
                   [12524, 12540, 12488, 21046, 38480, 12395, 36948, 12375, 12414, 12375, 12383,
                    12290, 12375, 12400, 12425, 12367, 24453, 12387, 12390, 12363, 12425, 20877,
                    35430, 34892, 12375, 12390, 12367, 12384, 12373, 12356, 12290])
       \<and> (\<forall>n api m. err = AxiosError (Some n) api m
                    \<and> n \<noteq> 402 \<and> n \<noteq> 401 \<and> n \<noteq> 429 \<and> n \<noteq> 0
             \<longrightarrow> message = ascii ''OpenRouter API '' @ [12456, 12521, 12540] @ ascii '' (''
                             @ show_nat n @ ascii ''): ''
                             @ (case api of Some a \<Rightarrow> if a = [] then m else a | None \<Rightarrow> m))
       \<and> (\<forall>api m. err = AxiosError None api m \<or> err = AxiosError (Some 0) api m
             \<longrightarrow> message = [12493, 12483, 12488, 12527, 12540, 12463, 12456, 12521, 12540] @ ascii '': '' @ m))"
    apply (rule exI[where x = "structuring_error_message err"])
    apply (intro conjI allI impI)
            apply (rule d)
           apply simp
          apply simp
         apply (simp only: structuring_error_message_text(3))
        apply (simp only: structuring_error_message_text(4))
       apply (simp only: structuring_error_message_text(5))
      apply (simp only: structuring_error_message_text(6))
     apply (elim conjE)
     apply hypsubst
     apply (rule structuring_error_message_text(7))
     apply (intro conjI; assumption)
    apply (erule disjE)
     apply hypsubst
     apply (rule structuring_error_message_text(8))
    apply hypsubst
    apply (rule structuring_error_message_text(9))
    done
  have rest: "get_prop (fst (structureJobData e content u key st)) (ascii ''jobTitle'') = JNull
     \<and> get_prop (fst (structureJobData e content u key st)) (ascii ''companyName'') = JNull
     \<and> get_prop (fst (structureJobData e content u key st)) (ascii ''location'') = JNull
     \<and> get_prop (fst (structureJobData e content u key st)) (ascii ''salary'')
          = JObj [(ascii ''min'', JNull), (ascii ''max'', JNull), (ascii ''type'', JNull),
                  (ascii ''details'', JNull)]
     \<and> get_prop (fst (structureJobData e content u key st)) (ascii ''workingHours'') = JNull
     \<and> get_prop (fst (structureJobData e content u key st)) (ascii ''holidays'') = JNull
     \<and> get_prop (fst (structureJobData e content u key st)) (ascii ''benefits'') = JArr []
     \<and> get_prop (fst (structureJobData e content u key st)) (ascii ''requirements'')
          = JObj [(ascii ''experience'', JNull), (ascii ''skills'', JArr []),
                  (ascii ''education'', JNull)]
     \<and> get_prop (fst (structureJobData e content u key st)) (ascii ''applicationMethod'') = JNull
     \<and> get_prop (fst (structureJobData e content u key st)) (ascii ''employmentType'') = JNull
     \<and> get_prop (fst (structureJobData e content u key st)) (ascii ''url'') = JStr u
     \<and> (fst (axios_post e (StructureRequest key (take 4000 content)) (fst st)) = Inl err
        \<or> (\<exists>response. fst (axios_post e (StructureRequest key (take 4000 content)) (fst st)) = Inr response
              \<and> jsonMatch (reply_content response) = None
              \<and> err = Error (ascii ''No valid JSON found in AI response''))
        \<or> (\<exists>response matched msg.
              fst (axios_post e (StructureRequest key (take 4000 content)) (fst st)) = Inr response
              \<and> jsonMatch (reply_content response) = Some matched
              \<and> json_parse e matched = Inl msg \<and> err = SyntaxError msg))"
    unfolding job empty_job_props
    using structureJobData_preview_errors[OF assms]
    by simp
  show ?thesis by (rule conjI[OF desc rest])
qed

theorem degraded_description_witness:
  "fst (structureJobData_preview (demo_env (ascii ''Sorry, I cannot help.'') parse_short)
          (replicate 1001 97) (ascii ''https://jobs.example/1'') (ascii ''sk-good'') (0, []))
     = Inl (Error (ascii ''No valid JSON found in AI response''))
   \<and> get_prop (fst (structureJobData (demo_env (ascii ''Sorry, I cannot help.'') parse_short)
          (replicate 1001 97) (ascii ''https://jobs.example/1'') (ascii ''sk-good'') (0, [])))
        (ascii ''jobDescription'')
     = JStr ([12304, 65, 73, 27083, 36896, 21270, 12456, 12521, 12540, 12305]
             @ ascii ''No valid JSON found in AI response''
             @ [10, 10, 12304, 25277, 20986, 12373, 12428, 12383, 29983, 12487, 12540, 12479, 12305, 10]
             @ replicate 1000 97 @ [46, 46, 46])
   \<and> fst (structureJobData_preview
            (failing_env (AxiosError (Some 402) None (ascii ''Request failed with status code 402'')))
            (ascii ''abc'') (ascii ''https://jobs.example/1'') (ascii ''sk-broke'') (0, []))
     = Inl (AxiosError (Some 402) None (ascii ''Request failed with status code 402''))
   \<and> get_prop (fst (structureJobData
            (failing_env (AxiosError (Some 402) None (ascii ''Request failed with status code 402'')))
            (ascii ''abc'') (ascii ''https://jobs.example/1'') (ascii ''sk-broke'') (0, [])))
        (ascii ''jobDescription'')
     = JStr ([12304, 65, 73, 27083, 36896, 21270, 12456, 12521, 12540, 12305]
             @ ascii ''OpenRouter API: '' @
                   [27531, 39640, 19981, 36275, 12391, 12377, 12290, 12450, 12459, 12454, 12531,
                    12488, 12395, 12463, 12524, 12472, 12483, 12488, 12434, 36861, 21152, 12375,
                    12390, 12367, 12384, 12373, 12356, 12290]
             @ [10, 10, 12304, 25277, 20986, 12373, 12428, 12383, 29983, 12487, 12540, 12479, 12305, 10]
             @ [97, 98, 99])
   \<and> get_prop (fst (structureJobData
            (failing_env (AxiosError (Some 503) (Some (ascii ''upstream down''))
                            (ascii ''Request failed with status code 503'')))
            (ascii ''abc'') (ascii ''https://jobs.example/1'') (ascii ''sk-good'') (0, [])))
        (ascii ''jobDescription'')
     = JStr ([12304, 65, 73, 27083, 36896, 21270, 12456, 12521, 12540, 12305]
             @ ascii ''OpenRouter API '' @ [12456, 12521, 12540] @ ascii '' (503): upstream down''
             @ [10, 10, 12304, 25277, 20986, 12373, 12428, 12383, 29983, 12487, 12540, 12479, 12305, 10]
             @ [97, 98, 99])"
proof -
  let ?u = "ascii ''https://jobs.example/1''"
  let ?e1 = "demo_env (ascii ''Sorry, I cannot help.'') parse_short"
  let ?x2 = "AxiosError (Some 402) None (ascii ''Request failed with status code 402'')"
  let ?x3 = "AxiosError (Some 503) (Some (ascii ''upstream down''))
               (ascii ''Request failed with status code 503'')"
  have m: "jsonMatch (ascii ''Sorry, I cannot help.'') = None"
    by (simp add: jsonMatch_def ascii_def)
  have h1: "fst (structureJobData_preview ?e1 (replicate 1001 97) ?u (ascii ''sk-good'') (0, []))
     = Inl (Error (ascii ''No valid JSON found in AI response''))"
    by (simp add: structureJobData_preview_def do_post_def demo_env_def m)
  have h2: "fst (structureJobData_preview (failing_env ?x2) (ascii ''abc'') ?u (ascii ''sk-broke'') (0, []))
     = Inl ?x2"
    by (simp add: structureJobData_preview_def do_post_def failing_env_def demo_env_def)
  have h3: "fst (structureJobData_preview (failing_env ?x3) (ascii ''abc'') ?u (ascii ''sk-good'') (0, []))
     = Inl ?x3"
    by (simp add: structureJobData_preview_def do_post_def failing_env_def demo_env_def)
  have abc: "take 1000 (ascii ''abc'') = [97, 98, 99]" "\<not> 1000 < length (ascii ''abc'')"
    by (simp_all add: ascii_def)
  have n: "show_nat 503 = ascii ''503''" by (simp add: ascii_def)
  have d1: "get_prop (fst (structureJobData ?e1 (replicate 1001 97) ?u (ascii ''sk-good'') (0, [])))
        (ascii ''jobDescription'')
     = JStr ([12304, 65, 73, 27083, 36896, 21270, 12456, 12521, 12540, 12305]
             @ ascii ''No valid JSON found in AI response''
             @ [10, 10, 12304, 25277, 20986, 12373, 12428, 12383, 29983, 12487, 12540, 12479, 12305, 10]
             @ replicate 1000 97 @ [46, 46, 46])"
    using degraded_description[OF h1, THEN conjunct1] by auto
  have d2: "get_prop (fst (structureJobData (failing_env ?x2) (ascii ''abc'') ?u (ascii ''sk-broke'') (0, [])))
        (ascii ''jobDescription'')
     = JStr ([12304, 65, 73, 27083, 36896, 21270, 12456, 12521, 12540, 12305]
             @ ascii ''OpenRouter API: '' @
                   [27531, 39640, 19981, 36275, 12391, 12377, 12290, 12450, 12459, 12454, 12531,
                    12488, 12395, 12463, 12524, 12472, 12483, 12488, 12434, 36861, 21152, 12375,
                    12390, 12367, 12384, 12373, 12356, 12290]
             @ [10, 10, 12304, 25277, 20986, 12373, 12428, 12383, 29983, 12487, 12540, 12479, 12305, 10]
             @ [97, 98, 99])"
    using degraded_description[OF h2, THEN conjunct1] abc by auto
  have d3: "get_prop (fst (structureJobData (failing_env ?x3) (ascii ''abc'') ?u (ascii ''sk-good'') (0, [])))
        (ascii ''jobDescription'')
     = JStr ([12304, 65, 73, 27083, 36896, 21270, 12456, 12521, 12540, 12305]
             @ ascii ''OpenRouter API '' @ [12456, 12521, 12540] @ ascii '' (503): upstream down''
             @ [10, 10, 12304, 25277, 20986, 12373, 12428, 12383, 29983, 12487, 12540, 12479, 12305, 10]
             @ [97, 98, 99])"
    using degraded_description[OF h3, THEN conjunct1] abc n by (auto simp: ascii_def)
  show ?thesis by (intro conjI h1 d1 h2 d2 d3)
qed

section \<open>Cutting the JSON out of a reply\<close>

lemma jsonMatch_span:
  fixes pre mid post :: jsstring
  assumes "123 \<notin> set pre" "125 \<notin> set post"
  shows "jsonMatch (pre @ 123 # mid @ 125 # post) = Some (123 # mid @ [125])"
proof -
  have p1: "\<And>x. x \<in> set pre \<Longrightarrow> x \<noteq> 123" using assms(1) by auto
  have p2: "\<And>x. x \<in> set (rev post) \<Longrightarrow> x \<noteq> 125" using assms(2) by auto
  have t: "dropWhile (\<lambda>c. c \<noteq> 123) (pre @ 123 # mid @ 125 # post) = 123 # mid @ 125 # post"
    using p1 by simp
  have r: "rev (123 # mid @ 125 # post) = rev post @ 125 # rev mid @ [123]" by simp
  have "dropWhile (\<lambda>c. c \<noteq> 125) (rev post @ 125 # rev mid @ [123])
          = dropWhile (\<lambda>c. c \<noteq> 125) (125 # rev mid @ [123])"
    by (rule dropWhile_append2) (rule p2)
  then have "dropWhile (\<lambda>c. c \<noteq> 125) (rev (123 # mid @ 125 # post)) = 125 # rev mid @ [123]"
    by (simp only: r) simp
  then have "jsonMatch (pre @ 123 # mid @ 125 # post) = Some (rev (125 # rev mid @ [123]))"
    by (simp add: jsonMatch_def t del: rev.simps rev_append)
  then show ?thesis by simp
qed

lemma first_brace_split:
  fixes s :: jsstring
  assumes "125 \<in> set (dropWhile (\<lambda>c. c \<noteq> 123) s)"
  shows "\<exists>pre mid post. s = pre @ 123 # mid @ 125 # post \<and> 123 \<notin> set pre \<and> 125 \<notin> set post"
proof -
  let ?t = "dropWhile (\<lambda>c. c \<noteq> 123) s"
  have "0 < length ?t" using assms by (rule length_pos_if_in_set)
  then have ne: "?t \<noteq> []" by (simp del: dropWhile_eq_Nil_conv)
  then have "\<not> (hd ?t \<noteq> 123)" by (rule hd_dropWhile)
  then have "hd ?t = 123" by simp
  then obtain t' where t': "?t = 123 # t'" using ne by (cases ?t) (simp_all del: dropWhile_eq_Nil_conv)
  then have "125 \<in> set t'" using assms by auto
  then obtain mid post where mp: "t' = mid @ 125 # post" "125 \<notin> set post"
    using split_list_last by fastforce
  have "s = takeWhile (\<lambda>c. c \<noteq> 123) s @ ?t" by simp
  then have "s = takeWhile (\<lambda>c. c \<noteq> 123) s @ 123 # mid @ 125 # post"
    using t' mp by simp
  moreover have "123 \<notin> set (takeWhile (\<lambda>c. c \<noteq> 123) s)"
    using set_takeWhileD by fastforce
  ultimately show ?thesis using mp(2) by blast
qed

lemma brace_after_brace:
  fixes pre mid post :: jsstring
  shows "125 \<in> set (dropWhile (\<lambda>c. c \<noteq> 123) (pre @ 123 # mid @ 125 # post))"
  by (induction pre) auto

lemma jsonMatch_None_iff:
  "jsonMatch s = None \<longleftrightarrow> \<not> (\<exists>pre mid post. s = pre @ 123 # mid @ 125 # post)"
proof
  assume n: "jsonMatch s = None"
  show "\<not> (\<exists>pre mid post. s = pre @ 123 # mid @ 125 # post)"
  proof
    assume "\<exists>pre mid post. s = pre @ 123 # mid @ 125 # post"
    then have "125 \<in> set (dropWhile (\<lambda>c. c \<noteq> 123) s)" using brace_after_brace by auto
    then show False using n by (simp add: jsonMatch_def Let_def)
  qed
next
  assume n: "\<not> (\<exists>pre mid post. s = pre @ 123 # mid @ 125 # post)"
  then have "125 \<notin> set (dropWhile (\<lambda>c. c \<noteq> 123) s)" using first_brace_split by blast
  then show "jsonMatch s = None" by (simp add: jsonMatch_def Let_def)
qed

lemma jsonMatch_Some_iff:
  "jsonMatch s = Some m \<longleftrightarrow>
     (\<exists>pre mid post. s = pre @ 123 # mid @ 125 # post \<and> 123 \<notin> set pre \<and> 125 \<notin> set post
        \<and> m = 123 # mid @ [125])"
proof
  assume m: "jsonMatch s = Some m"
  then have "125 \<in> set (dropWhile (\<lambda>c. c \<noteq> 123) s)"
    by (simp add: jsonMatch_def Let_def split: if_splits)
  then obtain pre mid post where sp: "s = pre @ 123 # mid @ 125 # post" "123 \<notin> set pre" "125 \<notin> set post"
    using first_brace_split by blast
  then have "jsonMatch s = Some (123 # mid @ [125])" using jsonMatch_span by simp
  then show "\<exists>pre mid post. s = pre @ 123 # mid @ 125 # post \<and> 123 \<notin> set pre \<and> 125 \<notin> set post
        \<and> m = 123 # mid @ [125]" using m sp by auto
next
  assume "\<exists>pre mid post. s = pre @ 123 # mid @ 125 # post \<and> 123 \<notin> set pre \<and> 125 \<notin> set post
        \<and> m = 123 # mid @ [125]"
  then show "jsonMatch s = Some m" using jsonMatch_span by auto
qed

lemma spec_balanced_has_close: "spec_balanced_from d s = Some r \<Longrightarrow> 125 \<in> set s"
  by (induction d s arbitrary: r rule: spec_balanced_from.induct)
     (auto split: if_splits nat.splits)

lemma spec_balanced_fails_open_first:
  "spec_balanced_from (Suc 0) cs = None \<Longrightarrow> 125 \<in> set cs
     \<Longrightarrow> 125 \<in> set (dropWhile (\<lambda>c. c \<noteq> 123) cs)"
  by (induction cs) (auto split: if_splits)

lemma spec_region_exists:
  "125 \<in> set (dropWhile (\<lambda>c. c \<noteq> 123) s) \<Longrightarrow> spec_first_balanced_region s \<noteq> None"
proof (induction s)
  case Nil
  then show ?case by simp
next
  case (Cons c cs)
  show ?case
  proof (cases "c = 123")
    case False
    then show ?thesis using Cons by simp
  next
    case True
    then have in_cs: "125 \<in> set cs" using Cons.prems by auto
    show ?thesis
    proof (cases "spec_balanced_from (Suc 0) cs")
      case None
      then have "125 \<in> set (dropWhile (\<lambda>c. c \<noteq> 123) cs)"
        using spec_balanced_fails_open_first in_cs by blast
      then show ?thesis using Cons.IH True None by simp
    next
      case (Some r)
      then show ?thesis using True by simp
    qed
  qed
qed

lemma spec_region_needs_braces:
  "spec_first_balanced_region s = Some r \<Longrightarrow> 125 \<in> set (dropWhile (\<lambda>c. c \<noteq> 123) s)"
proof (induction s)
  case Nil
  then show ?case by simp
next
  case (Cons c cs)
  show ?case
  proof (cases "c = 123")
    case False
    then show ?thesis using Cons by simp
  next
    case True
    show ?thesis
    proof (cases "spec_balanced_from (Suc 0) cs")
      case None
      then have "spec_first_balanced_region cs = Some r" using Cons.prems True by simp
      then have "125 \<in> set (dropWhile (\<lambda>c. c \<noteq> 123) cs)" using Cons.IH by simp
      then have "125 \<in> set cs" using set_dropWhileD by fastforce
      then show ?thesis using True by simp
    next
      case (Some r')
      then have "125 \<in> set cs" using spec_balanced_has_close by blast
      then show ?thesis using True by simp
    qed
  qed
qed

lemma spec_region_None_iff: "spec_first_balanced_region s = None \<longleftrightarrow> jsonMatch s = None"
proof -
  have "jsonMatch s = None \<longleftrightarrow> 125 \<notin> set (dropWhile (\<lambda>c. c \<noteq> 123) s)"
    by (simp add: jsonMatch_def Let_def)
  then show ?thesis using spec_region_exists[of s] spec_region_needs_braces[of s]
    by (cases "spec_first_balanced_region s") auto
qed

lemma spec_balanced_append:
  "spec_balanced_from d r = Some r' \<Longrightarrow> spec_balanced_from d (r @ post) = Some r'"
  by (induction d r arbitrary: r' rule: spec_balanced_from.induct)
     (auto split: if_splits nat.splits)

lemma spec_first_skip:
  fixes pre :: jsstring
  shows "123 \<notin> set pre \<Longrightarrow> spec_first_balanced_region (pre @ s) = spec_first_balanced_region s"
  by (induction pre) auto

lemma spec_region_single:
  fixes pre mid post :: jsstring
  assumes "123 \<notin> set pre"
    and "spec_balanced_from 0 (123 # mid @ [125]) = Some (123 # mid @ [125])"
  shows "spec_first_balanced_region (pre @ 123 # mid @ 125 # post) = Some (123 # mid @ [125])"
proof -
  have "spec_balanced_from 0 ((123 # mid @ [125]) @ post) = Some (123 # mid @ [125])"
    using assms(2) by (rule spec_balanced_append)
  then have "spec_first_balanced_region (123 # mid @ 125 # post) = Some (123 # mid @ [125])"
    by simp
  then show ?thesis using spec_first_skip[OF assms(1), of "123 # mid @ 125 # post"] by simp
qed

lemma get_set_prop:
  "get_prop (set_prop k v obj) k' = (if k' = k then v else get_prop obj k')"
  by (simp add: get_prop_def set_prop_def update_conv')

lemma structureJobData_preview_replied:
  assumes "fst (axios_post e (StructureRequest key (take 4000 content)) (fst st)) = Inr response"
  shows "fst (structureJobData_preview e content u key st)
     = (case jsonMatch (reply_content response) of
          None \<Rightarrow> Inl (Error (ascii ''No valid JSON found in AI response''))
        | Some matched \<Rightarrow>
            (case json_parse e matched of
               Inl msg \<Rightarrow> Inl (SyntaxError msg)
             | Inr structuredData \<Rightarrow>
                 Inr (set_prop (ascii ''extractedAt'')
                        (JStr (fst (date_now e (snd (axios_post e (StructureRequest key (take 4000 content)) (fst st))))))
                        (set_prop (ascii ''url'') (JStr u) structuredData))))"
  using assms
  by (auto simp: structureJobData_preview_def do_post_def do_now_def
           split: prod.splits sum.splits option.splits)

lemma structureJobData_succeeded:
  "fst (structureJobData_preview e content u key st) = Inr job
     \<Longrightarrow> fst (structureJobData e content u key st) = job"
  by (auto simp: structureJobData_def split: prod.splits sum.splits)

text \<open>
  C2, as the route has it. The text handed to \<open>JSON.parse\<close> is the span from the first
  opening brace of the reply to the last closing brace after it; that is the first balanced
  region when the reply holds one balanced object with no opening brace before it and no
  closing brace after it. There is no such span exactly when no opening brace is followed
  by a closing one, which is also exactly when the reply has no balanced region, and then,
  and only then, structuring fails with "No valid JSON found in AI response". It fails with
  the \<open>SyntaxError\<close> of the parser exactly when the span does not parse. When it parses,
  the record has the fields of the parsed object, with \<open>url\<close> and \<open>extractedAt\<close> set by
  the route; so a reply of prose around one object whose \<open>jobTitle\<close> is \<open>Engineer\<close> gives
  a record with that job title.
\<close>

theorem structuring_reply_handling:
  assumes "fst (axios_post e (StructureRequest key (take 4000 content)) (fst st)) = Inr response"
  shows "(jsonMatch (reply_content response) = None
            \<longleftrightarrow> \<not> (\<exists>pre mid post. reply_content response = pre @ 123 # mid @ 125 # post))
     \<and> (jsonMatch (reply_content response) = None
            \<longleftrightarrow> spec_first_balanced_region (reply_content response) = None)
     \<and> (\<forall>m. jsonMatch (reply_content response) = Some m
            \<longleftrightarrow> (\<exists>pre mid post. reply_content response = pre @ 123 # mid @ 125 # post
                   \<and> 123 \<notin> set pre \<and> 125 \<notin> set post \<and> m = 123 # mid @ [125]))
     \<and> (\<forall>pre mid post. reply_content response = pre @ 123 # mid @ 125 # post
            \<and> 123 \<notin> set pre \<and> 125 \<notin> set post
            \<and> spec_balanced_from 0 (123 # mid @ [125]) = Some (123 # mid @ [125])
            \<longrightarrow> jsonMatch (reply_content response)
                  = spec_first_balanced_region (reply_content response))
     \<and> (fst (structureJobData_preview e content u key st)
            = Inl (Error (ascii ''No valid JSON found in AI response''))
          \<longleftrightarrow> jsonMatch (reply_content response) = None)
     \<and> (\<forall>msg. fst (structureJobData_preview e content u key st) = Inl (SyntaxError msg)
            \<longleftrightarrow> (\<exists>m. jsonMatch (reply_content response) = Some m \<and> json_parse e m = Inl msg))
     \<and> (\<forall>m obj. jsonMatch (reply_content response) = Some m \<and> json_parse e m = Inr obj
            \<longrightarrow> (\<exists>job. fst (structureJobData_preview e content u key st) = Inr job
                   \<and> fst (structureJobData e content u key st) = job
                   \<and> get_prop job (ascii ''url'') = JStr u
                   \<and> (\<forall>k. k \<noteq> ascii ''url'' \<and> k \<noteq> ascii ''extractedAt''
                          \<longrightarrow> get_prop job k = get_prop obj k)))
     \<and> (\<forall>pre mid post obj. reply_content response = pre @ 123 # mid @ 125 # post
            \<and> 123 \<notin> set pre \<and> 125 \<notin> set post
            \<and> json_parse e (123 # mid @ [125]) = Inr obj
            \<and> get_prop obj (ascii ''jobTitle'') = JStr (ascii ''Engineer'')
            \<longrightarrow> (\<exists>job. fst (structureJobData_preview e content u key st) = Inr job
                   \<and> get_prop job (ascii ''jobTitle'') = JStr (ascii ''Engineer'')))"
proof -
  note R = structureJobData_preview_replied[OF assms, of u]
  have keys: "ascii ''url'' \<noteq> ascii ''extractedAt''" "ascii ''jobTitle'' \<noteq> ascii ''url''"
     "ascii ''jobTitle'' \<noteq> ascii ''extractedAt''"
    by (simp_all add: ascii_def)
  have c1: "jsonMatch (reply_content response) = None
            \<longleftrightarrow> \<not> (\<exists>pre mid post. reply_content response = pre @ 123 # mid @ 125 # post)"
    by (rule jsonMatch_None_iff)
  have c2: "jsonMatch (reply_content response) = None
            \<longleftrightarrow> spec_first_balanced_region (reply_content response) = None"
    using spec_region_None_iff by blast
  have c3: "\<forall>m. jsonMatch (reply_content response) = Some m
            \<longleftrightarrow> (\<exists>pre mid post. reply_content response = pre @ 123 # mid @ 125 # post
                   \<and> 123 \<notin> set pre \<and> 125 \<notin> set post \<and> m = 123 # mid @ [125])"
    using jsonMatch_Some_iff by blast
  have c4: "\<forall>pre mid post. reply_content response = pre @ 123 # mid @ 125 # post
            \<and> 123 \<notin> set pre \<and> 125 \<notin> set post
            \<and> spec_balanced_from 0 (123 # mid @ [125]) = Some (123 # mid @ [125])
            \<longrightarrow> jsonMatch (reply_content response)
                  = spec_first_balanced_region (reply_content response)"
    using jsonMatch_span spec_region_single by metis
  have c5: "fst (structureJobData_preview e content u key st)
            = Inl (Error (ascii ''No valid JSON found in AI response''))
          \<longleftrightarrow> jsonMatch (reply_content response) = None"
    unfolding R by (auto split: option.splits sum.splits)
  have c6: "\<forall>msg. fst (structureJobData_preview e content u key st) = Inl (SyntaxError msg)
            \<longleftrightarrow> (\<exists>m. jsonMatch (reply_content response) = Some m \<and> json_parse e m = Inl msg)"
    unfolding R by (auto split: option.splits sum.splits)
  have c7: "\<forall>m obj. jsonMatch (reply_content response) = Some m \<and> json_parse e m = Inr obj
            \<longrightarrow> (\<exists>job. fst (structureJobData_preview e content u key st) = Inr job
                   \<and> fst (structureJobData e content u key st) = job
                   \<and> get_prop job (ascii ''url'') = JStr u
                   \<and> (\<forall>k. k \<noteq> ascii ''url'' \<and> k \<noteq> ascii ''extractedAt''
                          \<longrightarrow> get_prop job k = get_prop obj k))"
  proof (intro allI impI, elim conjE)
    fix m obj assume m: "jsonMatch (reply_content response) = Some m" "json_parse e m = Inr obj"
    let ?job = "set_prop (ascii ''extractedAt'')
                        (JStr (fst (date_now e (snd (axios_post e (StructureRequest key (take 4000 content)) (fst st))))))
                        (set_prop (ascii ''url'') (JStr u) obj)"
    have j: "fst (structureJobData_preview e content u key st) = Inr ?job"
      unfolding R using m by simp
    have "fst (structureJobData e content u key st) = ?job"
      using j by (rule structureJobData_succeeded)
    moreover have "get_prop ?job (ascii ''url'') = JStr u"
      using keys by (simp add: get_set_prop)
    moreover have "\<forall>k. k \<noteq> ascii ''url'' \<and> k \<noteq> ascii ''extractedAt''
                          \<longrightarrow> get_prop ?job k = get_prop obj k"
      by (simp add: get_set_prop)
    ultimately show "\<exists>job. fst (structureJobData_preview e content u key st) = Inr job
                   \<and> fst (structureJobData e content u key st) = job
                   \<and> get_prop job (ascii ''url'') = JStr u
                   \<and> (\<forall>k. k \<noteq> ascii ''url'' \<and> k \<noteq> ascii ''extractedAt''
                          \<longrightarrow> get_prop job k = get_prop obj k)"
      using j by blast
  qed
  have c8: "\<forall>pre mid post obj. reply_content response = pre @ 123 # mid @ 125 # post
            \<and> 123 \<notin> set pre \<and> 125 \<notin> set post
            \<and> json_parse e (123 # mid @ [125]) = Inr obj
            \<and> get_prop obj (ascii ''jobTitle'') = JStr (ascii ''Engineer'')
            \<longrightarrow> (\<exists>job. fst (structureJobData_preview e content u key st) = Inr job
                   \<and> get_prop job (ascii ''jobTitle'') = JStr (ascii ''Engineer''))"
  proof (intro allI impI, elim conjE)
    fix pre mid post obj
    assume a: "reply_content response = pre @ 123 # mid @ 125 # post"
      "123 \<notin> set pre" "125 \<notin> set post"
      "json_parse e (123 # mid @ [125]) = Inr obj"
      "get_prop obj (ascii ''jobTitle'') = JStr (ascii ''Engineer'')"
    have "jsonMatch (reply_content response) = Some (123 # mid @ [125])"
      using a(1,2,3) jsonMatch_span by simp
    then obtain job where job: "fst (structureJobData_preview e content u key st) = Inr job"
       "\<forall>k. k \<noteq> ascii ''url'' \<and> k \<noteq> ascii ''extractedAt'' \<longrightarrow> get_prop job k = get_prop obj k"
      using c7 a(4) by blast
    then have "get_prop job (ascii ''jobTitle'') = get_prop obj (ascii ''jobTitle'')"
      using keys by blast
    then show "\<exists>job. fst (structureJobData_preview e content u key st) = Inr job
                   \<and> get_prop job (ascii ''jobTitle'') = JStr (ascii ''Engineer'')"
      using job(1) a(5) by auto
  qed
  show ?thesis by (intro conjI c1 c2 c3 c4 c5 c6 c7 c8)
qed

theorem structuring_reply_handling_witness:
  "fst (axios_post (demo_env short_reply parse_short)
          (StructureRequest (ascii ''sk-good'') (take 4000 article_text)) (fst (0 :: nat, [] :: event list)))
     = Inr \<lparr>reply_status = 200, reply_content = short_reply\<rparr>
   \<and> jsonMatch short_reply = Some short_json
   \<and> jsonMatch short_reply = spec_first_balanced_region short_reply
   \<and> (\<exists>job. fst (structureJobData_preview (demo_env short_reply parse_short) article_text
                    (ascii ''https://jobs.example/1'') (ascii ''sk-good'') (0, [])) = Inr job
          \<and> get_prop job (ascii ''jobTitle'') = JStr (ascii ''Engineer''))"
proof -
  let ?pre = "ascii ''Here is the result: ''"
  let ?mid = "[34] @ ascii ''jobTitle'' @ [34, 58, 34] @ ascii ''Engineer'' @ [34]"
  let ?post = "ascii '' Hope this helps.''"
  have h: "fst (axios_post (demo_env short_reply parse_short)
          (StructureRequest (ascii ''sk-good'') (take 4000 article_text)) (fst (0 :: nat, [] :: event list)))
     = Inr \<lparr>reply_status = 200, reply_content = short_reply\<rparr>"
    by (simp add: demo_env_def)
  have split: "reply_content \<lparr>reply_status = 200, reply_content = short_reply\<rparr>
                 = ?pre @ 123 # ?mid @ 125 # ?post"
    by (simp add: short_reply_def short_json_def)
  have pre: "123 \<notin> set ?pre" and post: "125 \<notin> set ?post"
    by (simp_all add: ascii_def)
  have json: "123 # ?mid @ [125] = short_json" by (simp add: short_json_def)
  have parse: "json_parse (demo_env short_reply parse_short) (123 # ?mid @ [125]) = Inr short_object"
    by (simp only: json) (simp add: demo_env_def parse_short_def)
  have title: "get_prop short_object (ascii ''jobTitle'') = JStr (ascii ''Engineer'')"
    by (simp add: short_object_def get_prop_def)
  have bal: "spec_balanced_from 0 (123 # ?mid @ [125]) = Some (123 # ?mid @ [125])"
    by (simp add: ascii_def)
  note T = structuring_reply_handling[OF h, where u = "ascii ''https://jobs.example/1''"]
  note c3 = T[THEN conjunct2, THEN conjunct2, THEN conjunct1]
  note c4 = T[THEN conjunct2, THEN conjunct2, THEN conjunct2, THEN conjunct1]
  note c8 = T[THEN conjunct2, THEN conjunct2, THEN conjunct2, THEN conjunct2, THEN conjunct2,
              THEN conjunct2, THEN conjunct2]
  have "\<exists>pre mid post. reply_content \<lparr>reply_status = 200, reply_content = short_reply\<rparr>
                 = pre @ 123 # mid @ 125 # post
            \<and> 123 \<notin> set pre \<and> 125 \<notin> set post \<and> short_json = 123 # mid @ [125]"
    by (rule exI[of _ ?pre], rule exI[of _ ?mid], rule exI[of _ ?post])
       (intro conjI split pre post json[symmetric])
  then have "jsonMatch (reply_content \<lparr>reply_status = 200, reply_content = short_reply\<rparr>)
               = Some short_json"
    using c3 by blast
  then have m: "jsonMatch short_reply = Some short_json" by simp
  have agree: "jsonMatch short_reply = spec_first_balanced_region short_reply"
    using c4[rule_format, of ?pre ?mid ?post] split pre post bal by simp
  have job: "\<exists>job. fst (structureJobData_preview (demo_env short_reply parse_short) article_text
                    (ascii ''https://jobs.example/1'') (ascii ''sk-good'') (0, [])) = Inr job
          \<and> get_prop job (ascii ''jobTitle'') = JStr (ascii ''Engineer'')"
    using c8[rule_format, of ?pre ?mid ?post short_object] split pre post parse title by simp
  show ?thesis by (intro conjI h m agree job)
qed

theorem first_balanced_region_counterexample:
  "jsonMatch two_objects_reply = Some two_objects_reply
   \<and> spec_first_balanced_region two_objects_reply = Some first_object_json
   \<and> parse_first_object first_object_json = Inr [(ascii ''a'', JNum (ascii ''1''))]
   \<and> fst (structureJobData_preview (demo_env two_objects_reply parse_first_object) article_text
            (ascii ''https://jobs.example/1'') (ascii ''sk-good'') (0, []))
       = Inl (SyntaxError (ascii ''Unexpected non-whitespace character after JSON''))"
proof -
  have m: "jsonMatch two_objects_reply = Some two_objects_reply"
    by (simp add: jsonMatch_def two_objects_reply_def first_object_json_def ascii_def)
  have r: "spec_first_balanced_region two_objects_reply = Some first_object_json"
    by (simp add: two_objects_reply_def first_object_json_def ascii_def)
  have ne: "two_objects_reply \<noteq> first_object_json"
    by (simp add: two_objects_reply_def first_object_json_def)
  have p: "parse_first_object first_object_json = Inr [(ascii ''a'', JNum (ascii ''1''))]"
    by (simp add: parse_first_object_def)
  have s: "fst (structureJobData_preview (demo_env two_objects_reply parse_first_object) article_text
            (ascii ''https://jobs.example/1'') (ascii ''sk-good'') (0, []))
       = Inl (SyntaxError (ascii ''Unexpected non-whitespace character after JSON''))"
    by (simp add: structureJobData_preview_def do_post_def demo_env_def m parse_first_object_def ne)
  show ?thesis by (intro conjI m r p s)
qed

section \<open>The preview route probes the credential first\<close>

lemma validateApiKey_result:
  "validateApiKey e key st =
     ((case fst (axios_post e (ProbeRequest key) (fst st)) of
         Inr response \<Rightarrow> \<lparr>kv_valid = (reply_status response = 200), kv_error = None\<rparr>
       | Inl err \<Rightarrow> \<lparr>kv_valid = False, kv_error = Some (probe_error_message err)\<rparr>),
      (snd (axios_post e (ProbeRequest key) (fst st)), snd st @ [Post (ProbeRequest key)]))"
  by (simp add: validateApiKey_def do_post_def split: prod.splits sum.splits)

lemma structureJobData_preview_trace:
  "snd (snd (structureJobData_preview e content u key st))
     = snd st @ [Post (StructureRequest key (take 4000 content))]"
  by (simp add: structureJobData_preview_def do_post_def do_now_def
           split: prod.splits sum.splits option.splits)

lemma preview_structuring_valid:
  assumes "kv_valid (fst (validateApiKey e key st))"
  shows "pr_apiKeyValid (fst (preview_structuring e u key response st)) = Some True
     \<and> snd (snd (preview_structuring e u key response st))
         = snd st @ [Post (ProbeRequest key),
                     Post (StructureRequest key (take 4000 (raw_content (pr_rawData response))))]"
proof -
  obtain kv st1 where v: "validateApiKey e key st = (kv, st1)" by (cases "validateApiKey e key st")
  have st1: "snd st1 = snd st @ [Post (ProbeRequest key)]"
    using v by (auto simp: validateApiKey_result)
  have kv: "kv_valid kv" using assms v by simp
  obtain r st2 where s: "structureJobData_preview e (raw_content (pr_rawData response)) u key st1 = (r, st2)"
    by (cases "structureJobData_preview e (raw_content (pr_rawData response)) u key st1")
  have st2: "snd st2 = snd st1 @ [Post (StructureRequest key (take 4000 (raw_content (pr_rawData response))))]"
    using structureJobData_preview_trace[of e "raw_content (pr_rawData response)" u key st1] s by simp
  show ?thesis
    using v kv s st1 st2
    by (cases r) (simp_all add: preview_structuring_def Let_def)
qed

lemma preview_structuring_invalid:
  assumes "\<not> kv_valid (fst (validateApiKey e key st))"
  shows "pr_apiKeyValid (fst (preview_structuring e u key response st)) = Some False
     \<and> pr_structuredData (fst (preview_structuring e u key response st)) = pr_structuredData response
     \<and> pr_error (fst (preview_structuring e u key response st))
         = Some (case kv_error (fst (validateApiKey e key st)) of
                   Some m \<Rightarrow> (if m \<noteq> [] then m else ascii ''Invalid API key or insufficient credits'')
                 | None \<Rightarrow> ascii ''Invalid API key or insufficient credits'')
     \<and> snd (snd (preview_structuring e u key response st)) = snd st @ [Post (ProbeRequest key)]"
proof -
  obtain kv st1 where v: "validateApiKey e key st = (kv, st1)" by (cases "validateApiKey e key st")
  have st1: "snd st1 = snd st @ [Post (ProbeRequest key)]"
    using v by (auto simp: validateApiKey_result)
  have kv: "\<not> kv_valid kv" using assms v by simp
  show ?thesis
    using v kv st1 by (simp add: preview_structuring_def Let_def)
qed

lemma msg_402_nonempty: "msg_402 \<noteq> []"
  by (simp add: msg_402_def ascii_def)

lemma preview_after_fetch:
  assumes "u \<noteq> []" and "key \<noteq> []" and "fst (axios_get e u (fst st)) = Inr d"
  shows "\<exists>response st'.
       POST_preview_extraction e \<lparr>preq_url = Some u, preq_apiKey = Some key\<rparr> st
         = (PreviewOk response, st')
     \<and> pr_apiKeyValid response
         = Some (kv_valid (fst (validateApiKey e key (snd (extractContentFromUrl_preview e u st)))))
     \<and> snd st'
         = snd st @ [Get u, Post (ProbeRequest key)]
           @ (if kv_valid (fst (validateApiKey e key (snd (extractContentFromUrl_preview e u st))))
              then [Post (StructureRequest key (take 4000 (clean_text (select_main_content d))))]
              else [])
     \<and> (\<not> kv_valid (fst (validateApiKey e key (snd (extractContentFromUrl_preview e u st))))
          \<longrightarrow> pr_structuredData response = None \<and> pr_error response \<noteq> None)
     \<and> (\<forall>api m.
          fst (axios_post e (ProbeRequest key) (snd (axios_get e u (fst st))))
            = Inl (AxiosError (Some 402) api m)
          \<longrightarrow> fst (validateApiKey e key (snd (extractContentFromUrl_preview e u st)))
                = \<lparr>kv_valid = False, kv_error = Some msg_402\<rparr>
              \<and> pr_apiKeyValid response = Some False
              \<and> pr_error response = Some msg_402
              \<and> pr_structuredData response = None)"
proof -
  let ?raw = "extract_from_document d"
  let ?st1 = "(snd (axios_get e u (fst st)), snd st @ [Get u])"
  let ?r0 = "\<lparr>pr_rawData = ?raw, pr_url = u, pr_structuredData = None,
              pr_error = None, pr_apiKeyValid = None\<rparr>"
  have ex: "extractContentFromUrl_preview e u st = (Inr ?raw, ?st1)"
    using assms(3) by (cases "axios_get e u (fst st)")
      (auto simp: extractContentFromUrl_preview_def do_get_def)
  have post: "POST_preview_extraction e \<lparr>preq_url = Some u, preq_apiKey = Some key\<rparr> st
         = (PreviewOk (fst (preview_structuring e u key ?r0 ?st1)),
            snd (preview_structuring e u key ?r0 ?st1))"
    using assms(1,2) ex by (simp add: POST_preview_extraction_def Let_def split: prod.splits)
  have content: "raw_content (pr_rawData ?r0) = clean_text (select_main_content d)"
    by (simp add: extract_from_document_def Let_def)
  have st1: "snd (extractContentFromUrl_preview e u st) = ?st1" using ex by simp
  let ?resp = "fst (preview_structuring e u key ?r0 ?st1)"
  let ?st' = "snd (preview_structuring e u key ?r0 ?st1)"
  let ?valid = "kv_valid (fst (validateApiKey e key ?st1))"
  have a: "pr_apiKeyValid ?resp = Some ?valid"
    using preview_structuring_valid[of e key ?st1 u ?r0]
          preview_structuring_invalid[of e key ?st1 u ?r0] by (cases ?valid) simp_all
  have b: "snd ?st' = snd st @ [Get u, Post (ProbeRequest key)]
           @ (if ?valid
              then [Post (StructureRequest key (take 4000 (clean_text (select_main_content d))))]
              else [])"
    using preview_structuring_valid[of e key ?st1 u ?r0]
          preview_structuring_invalid[of e key ?st1 u ?r0] content
    by (cases ?valid) simp_all
  have c: "\<not> ?valid \<longrightarrow> pr_structuredData ?resp = None \<and> pr_error ?resp \<noteq> None"
    using preview_structuring_invalid[of e key ?st1 u ?r0] by simp
  have d: "\<forall>api m.
          fst (axios_post e (ProbeRequest key) (snd (axios_get e u (fst st))))
            = Inl (AxiosError (Some 402) api m)
          \<longrightarrow> fst (validateApiKey e key ?st1) = \<lparr>kv_valid = False, kv_error = Some msg_402\<rparr>
              \<and> pr_apiKeyValid ?resp = Some False
              \<and> pr_error ?resp = Some msg_402
              \<and> pr_structuredData ?resp = None"
  proof (intro allI impI)
    fix api m
    assume p: "fst (axios_post e (ProbeRequest key) (snd (axios_get e u (fst st))))
            = Inl (AxiosError (Some 402) api m)"
    have kv: "fst (validateApiKey e key ?st1) = \<lparr>kv_valid = False, kv_error = Some msg_402\<rparr>"
      using p by (simp add: validateApiKey_result)
    then have nv: "\<not> ?valid" by simp
    show "fst (validateApiKey e key ?st1) = \<lparr>kv_valid = False, kv_error = Some msg_402\<rparr>
              \<and> pr_apiKeyValid ?resp = Some False
              \<and> pr_error ?resp = Some msg_402
              \<and> pr_structuredData ?resp = None"
      using preview_structuring_invalid[OF nv, of u ?r0] kv msg_402_nonempty by simp
  qed
  show ?thesis
    unfolding st1 using post a b c d by blast
qed

lemma preview_no_url:
  "POST_preview_extraction e \<lparr>preq_url = Some [], preq_apiKey = Some key\<rparr> st
     = (PreviewError 400 (ascii ''URL is required''), st)"
  by (simp add: POST_preview_extraction_def)

lemma preview_fetch_failed:
  assumes "u \<noteq> []" and "fst (axios_get e u (fst st)) = Inl err"
  shows "\<exists>msg. POST_preview_extraction e \<lparr>preq_url = Some u, preq_apiKey = Some key\<rparr> st
           = (PreviewError 500 msg, (snd (axios_get e u (fst st)), snd st @ [Get u]))"
proof -
  have "extractContentFromUrl_preview e u st
          = (Inl err, (snd (axios_get e u (fst st)), snd st @ [Get u]))"
    using assms(2) by (cases "axios_get e u (fst st)")
      (auto simp: extractContentFromUrl_preview_def do_get_def)
  then show ?thesis
    using assms(1) by (cases err) (simp_all add: POST_preview_extraction_def)
qed

text \<open>
  C8. A preview request with a non-empty credential. Without a URL the route answers 400,
  and when the fetch of the page fails it answers 500: in both cases neither the probe nor
  the structuring service is called. When the page is fetched, the route answers 200; after
  the fetch it calls the probe, and it calls the structuring service after that exactly
  when the probe found the credential valid; the flag \<open>apiKeyValid\<close> of the response is
  the verdict of the probe. When the probe's call fails with status 402, the verdict is
  invalid with the payment-required reason, the flag is \<open>false\<close>, the \<open>error\<close> of the
  response is that reason, and nothing is structured.
\<close>

theorem preview_probe_gates_structuring:
  assumes "key \<noteq> []"
  shows "POST_preview_extraction e \<lparr>preq_url = Some [], preq_apiKey = Some key\<rparr> st
       = (PreviewError 400 (ascii ''URL is required''), st)
     \<and> (\<forall>err. u \<noteq> [] \<and> fst (axios_get e u (fst st)) = Inl err
          \<longrightarrow> (\<exists>msg. POST_preview_extraction e \<lparr>preq_url = Some u, preq_apiKey = Some key\<rparr> st
                       = (PreviewError 500 msg, (snd (axios_get e u (fst st)), snd st @ [Get u]))))
     \<and> (\<forall>d. u \<noteq> [] \<and> fst (axios_get e u (fst st)) = Inr d
          \<longrightarrow> (\<exists>response st'.
            POST_preview_extraction e \<lparr>preq_url = Some u, preq_apiKey = Some key\<rparr> st
              = (PreviewOk response, st')
          \<and> pr_apiKeyValid response
              = Some (kv_valid (fst (validateApiKey e key (snd (extractContentFromUrl_preview e u st)))))
          \<and> snd st'
              = snd st @ [Get u, Post (ProbeRequest key)]
                @ (if kv_valid (fst (validateApiKey e key (snd (extractContentFromUrl_preview e u st))))
                   then [Post (StructureRequest key (take 4000 (clean_text (select_main_content d))))]
                   else [])
          \<and> (\<not> kv_valid (fst (validateApiKey e key (snd (extractContentFromUrl_preview e u st))))
               \<longrightarrow> pr_structuredData response = None \<and> pr_error response \<noteq> None)
          \<and> (\<forall>api m.
               fst (axios_post e (ProbeRequest key) (snd (axios_get e u (fst st))))
                 = Inl (AxiosError (Some 402) api m)
               \<longrightarrow> fst (validateApiKey e key (snd (extractContentFromUrl_preview e u st)))
                     = \<lparr>kv_valid = False, kv_error = Some msg_402\<rparr>
                   \<and> pr_apiKeyValid response = Some False
                   \<and> pr_error response = Some msg_402
                   \<and> pr_structuredData response = None)))"
  using preview_no_url preview_fetch_failed preview_after_fetch[OF _ assms] by blast

theorem preview_probe_gates_structuring_witness:
  "ascii ''https://jobs.example/1'' \<noteq> [] \<and> ascii ''sk-broke'' \<noteq> []
   \<and> fst (axios_get (demo_env short_reply parse_short) (ascii ''https://jobs.example/1'')
             (fst (0 :: nat, [] :: event list))) = Inr demo_page
   \<and> (\<exists>response st'.
         POST_preview_extraction (demo_env short_reply parse_short)
           \<lparr>preq_url = Some (ascii ''https://jobs.example/1''),
            preq_apiKey = Some (ascii ''sk-broke'')\<rparr> (0, [])
           = (PreviewOk response, st')
       \<and> pr_apiKeyValid response = Some False
       \<and> pr_error response = Some msg_402
       \<and> pr_structuredData response = None
       \<and> snd st' = [Get (ascii ''https://jobs.example/1''), Post (ProbeRequest (ascii ''sk-broke''))])"
proof -
  let ?e = "demo_env short_reply parse_short"
  let ?u = "ascii ''https://jobs.example/1''"
  let ?k = "ascii ''sk-broke''"
  have h1: "?u \<noteq> []" and h2: "?k \<noteq> []" by (simp_all add: ascii_def)
  have h3: "fst (axios_get ?e ?u (fst (0 :: nat, [] :: event list))) = Inr demo_page"
    by (simp add: demo_env_def)
  have k: "ascii ''sk-broke'' \<noteq> ascii ''sk-good''" by (simp add: ascii_def)
  have probe: "fst (axios_post ?e (ProbeRequest ?k) (snd (axios_get ?e ?u (fst (0 :: nat, [] :: event list)))))
      = Inl (AxiosError (Some 402) (Some (ascii ''Insufficient credits''))
               (ascii ''Request failed with status code 402''))"
    by (simp add: demo_env_def k)
  note T = preview_probe_gates_structuring[OF h2, of ?e "(0, [])" ?u]
  from T[THEN conjunct2, THEN conjunct2, rule_format, of demo_page] h1 h3
  obtain response st' where
    r: "POST_preview_extraction ?e \<lparr>preq_url = Some ?u, preq_apiKey = Some ?k\<rparr> (0, [])
          = (PreviewOk response, st')"
    and tr: "snd st' = snd (0 :: nat, [] :: event list) @ [Get ?u, Post (ProbeRequest ?k)]
           @ (if kv_valid (fst (validateApiKey ?e ?k (snd (extractContentFromUrl_preview ?e ?u (0, [])))))
              then [Post (StructureRequest ?k (take 4000 (clean_text (select_main_content demo_page))))]
              else [])"
    and p: "\<forall>api m.
          fst (axios_post ?e (ProbeRequest ?k) (snd (axios_get ?e ?u (fst (0 :: nat, [] :: event list)))))
            = Inl (AxiosError (Some 402) api m)
          \<longrightarrow> fst (validateApiKey ?e ?k (snd (extractContentFromUrl_preview ?e ?u (0, []))))
                = \<lparr>kv_valid = False, kv_error = Some msg_402\<rparr>
              \<and> pr_apiKeyValid response = Some False
              \<and> pr_error response = Some msg_402
              \<and> pr_structuredData response = None"
    by blast
  from p probe have
    kv: "fst (validateApiKey ?e ?k (snd (extractContentFromUrl_preview ?e ?u (0, []))))
                = \<lparr>kv_valid = False, kv_error = Some msg_402\<rparr>"
    and f: "pr_apiKeyValid response = Some False" "pr_error response = Some msg_402"
       "pr_structuredData response = None"
    by blast+
  have "snd st' = [Get ?u, Post (ProbeRequest ?k)]" using tr kv by simp
  then show ?thesis using h1 h2 h3 r f by blast
qed

section \<open>The loop of the batch route\<close>

lemma do_now_trace: "snd (snd (do_now e st)) = snd st"
  by (simp add: do_now_def split: prod.splits)

lemma structureJobData_trace:
  "snd (snd (structureJobData e content u key st))
     = snd st @ [Post (StructureRequest key (take 4000 content))]"
proof -
  obtain r st1 where p: "structureJobData_preview e content u key st = (r, st1)"
    by (cases "structureJobData_preview e content u key st")
  have st1: "snd st1 = snd st @ [Post (StructureRequest key (take 4000 content))]"
    using structureJobData_preview_trace[of e content u key st] p by simp
  show ?thesis
    using p st1 do_now_trace[of e st1]
    by (cases r) (auto simp: structureJobData_def split: prod.splits)
qed

text \<open>A record of the batch is the parsed object with the two fields the route sets, or
  the literal of a fallback.\<close>

lemma structureJobData_preview_job:
  "fst (structureJobData_preview e content u key st) = Inr job
     \<Longrightarrow> \<exists>m obj t. json_parse e m = Inr obj
           \<and> job = set_prop (ascii ''extractedAt'') (JStr t) (set_prop (ascii ''url'') (JStr u) obj)"
  by (auto simp: structureJobData_preview_def do_post_def do_now_def
           split: prod.splits sum.splits option.splits)

lemma structureJobData_job:
  "(\<exists>m obj t. json_parse e m = Inr obj
       \<and> fst (structureJobData e content u key st)
           = set_prop (ascii ''extractedAt'') (JStr t) (set_prop (ascii ''url'') (JStr u) obj))
   \<or> (\<exists>dsc t. fst (structureJobData e content u key st) = empty_job dsc u t)"
proof (cases "fst (structureJobData_preview e content u key st)")
  case (Inl err)
  then have "\<exists>dsc t. fst (structureJobData e content u key st) = empty_job dsc u t"
    by (auto simp: structureJobData_def split: prod.splits sum.splits)
  then show ?thesis by blast
next
  case (Inr job)
  then have "fst (structureJobData e content u key st) = job"
    by (auto simp: structureJobData_def split: prod.splits sum.splits)
  then show ?thesis using structureJobData_preview_job[OF Inr] by blast
qed

lemma process_url_job:
  "(\<exists>m obj t. json_parse e m = Inr obj
       \<and> fst (process_url e key u st)
           = set_prop (ascii ''extractedAt'') (JStr t) (set_prop (ascii ''url'') (JStr u) obj))
   \<or> (\<exists>dsc t. fst (process_url e key u st) = empty_job dsc u t)"
proof -
  obtain r st1 where x: "extractContentFromUrl e u st = (r, st1)"
    by (cases "extractContentFromUrl e u st")
  show ?thesis
  proof (cases r)
    case (Inl err)
    then have "\<exists>dsc t. fst (process_url e key u st) = empty_job dsc u t"
      using x by (auto simp: process_url_def split: prod.splits)
    then show ?thesis by blast
  next
    case (Inr content)
    then have "fst (process_url e key u st) = fst (structureJobData e content u key st1)"
      using x by (auto simp: process_url_def split: prod.splits)
    then show ?thesis using structureJobData_job[of e content u key st1] by simp
  qed
qed

lemma url_keys: "ascii ''url'' \<noteq> ascii ''extractedAt''"
  by (simp add: ascii_def)

lemma process_url_fields:
  "get_prop (fst (process_url e key u st)) (ascii ''url'') = JStr u
   \<and> (\<exists>t. get_prop (fst (process_url e key u st)) (ascii ''extractedAt'') = JStr t)"
  using process_url_job[of e key u st] url_keys
  by (auto simp: get_set_prop empty_job_props)

lemma process_url_trace:
  "snd (snd (process_url e key u st))
     = snd st @ (case fst (axios_get e u (fst st)) of
                   Inr d \<Rightarrow> [Get u,
                             Post (StructureRequest key
                                     (take 4000 (clean_text (select_main_content d)))),
                             Delay 1000]
                 | Inl err \<Rightarrow> [Get u])"
proof -
  obtain r w where g: "axios_get e u (fst st) = (r, w)" by (cases "axios_get e u (fst st)")
  show ?thesis
  proof (cases r)
    case (Inl err)
    then show ?thesis
      using g do_now_trace[of e "(w, snd st @ [Get u])"]
      by (auto simp: process_url_def extractContentFromUrl_def do_get_def split: prod.splits)
  next
    case (Inr d)
    then show ?thesis
      using g structureJobData_trace[of e "clean_text (select_main_content d)" u key "(w, snd st @ [Get u])"]
      by (auto simp: process_url_def extractContentFromUrl_def do_get_def do_delay_def
               split: prod.splits)
  qed
qed

lemma gets_append: "gets (xs @ ys) = gets xs @ gets ys"
  by (simp add: gets_def)

lemma gets_process_url: "gets (snd (snd (process_url e key u st))) = gets (snd st) @ [u]"
  by (simp add: process_url_trace gets_append) (simp add: gets_def split: sum.splits)

lemma process_urls_records:
  "length (fst (process_urls e key us st acc)) = length acc + length us
   \<and> map (\<lambda>job. get_prop job (ascii ''url'')) (fst (process_urls e key us st acc))
       = map (\<lambda>job. get_prop job (ascii ''url'')) acc @ map JStr us
   \<and> ((\<forall>job \<in> set acc. \<exists>t. get_prop job (ascii ''extractedAt'') = JStr t)
        \<longrightarrow> (\<forall>job \<in> set (fst (process_urls e key us st acc)).
               \<exists>t. get_prop job (ascii ''extractedAt'') = JStr t))
   \<and> gets (snd (snd (process_urls e key us st acc))) = gets (snd st) @ us"
proof (induction us arbitrary: st acc)
  case Nil
  then show ?case by simp
next
  case (Cons u us)
  obtain job st1 where p: "process_url e key u st = (job, st1)" by (cases "process_url e key u st")
  have f: "get_prop job (ascii ''url'') = JStr u" "\<exists>t. get_prop job (ascii ''extractedAt'') = JStr t"
    using process_url_fields[of e key u st] p by simp_all
  have g: "gets (snd st1) = gets (snd st) @ [u]"
    using gets_process_url[of e key u st] p by simp
  show ?case
    using Cons.IH[of st1 "acc @ [job]"] p f g by auto
qed

section \<open>When the report can be built\<close>

lemma and_then_Inr: "and_then m f = Inr y \<longleftrightarrow> (\<exists>x. m = Inr x \<and> f x = Inr y)"
  by (cases m) (simp_all add: and_then_def)

lemma and_then_Inl: "and_then m f = Inl err \<longleftrightarrow> m = Inl err \<or> (\<exists>x. m = Inr x \<and> f x = Inl err)"
  by (cases m) (simp_all add: and_then_def)

lemma map_err_Inr:
  "map_err f xs = Inr ys \<longleftrightarrow> length ys = length xs \<and> (\<forall>i < length xs. f (xs ! i) = Inr (ys ! i))"
proof (induction xs arbitrary: ys)
  case Nil
  then show ?case by auto
next
  case (Cons x xs)
  show ?case
  proof
    assume "map_err f (x # xs) = Inr ys"
    then obtain y ys' where y: "f x = Inr y" "map_err f xs = Inr ys'" "ys = y # ys'"
      by (auto simp: and_then_Inr)
    then have "length ys' = length xs" "\<forall>i < length xs. f (xs ! i) = Inr (ys' ! i)"
      using Cons.IH[of ys'] by simp_all
    then show "length ys = length (x # xs) \<and> (\<forall>i < length (x # xs). f ((x # xs) ! i) = Inr (ys ! i))"
      using y by (auto simp: nth_Cons split: nat.splits)
  next
    assume a: "length ys = length (x # xs) \<and> (\<forall>i < length (x # xs). f ((x # xs) ! i) = Inr (ys ! i))"
    then obtain y ys' where ys: "ys = y # ys'" by (cases ys) auto
    have "f x = Inr y" using a ys by auto
    moreover have "map_err f xs = Inr ys'"
    proof -
      have "length ys' = length xs" using a ys by simp
      moreover have "\<forall>i < length xs. f (xs ! i) = Inr (ys' ! i)"
      proof (intro allI impI)
        fix i assume "i < length xs"
        then have "f ((x # xs) ! Suc i) = Inr (ys ! Suc i)" using a by auto
        then show "f (xs ! i) = Inr (ys' ! i)" using ys by simp
      qed
      ultimately show ?thesis using Cons.IH[of ys'] by simp
    qed
    ultimately show "map_err f (x # xs) = Inr ys" using ys by (simp add: and_then_Inr)
  qed
qed

lemma map_err_succeeds:
  "(\<exists>ys. map_err f xs = Inr ys) \<longleftrightarrow> (\<forall>x \<in> set xs. \<exists>y. f x = Inr y)"
  by (induction xs) (auto simp: and_then_Inr)

lemma map_err_Inl:
  "map_err f xs = Inl err \<Longrightarrow> \<exists>x \<in> set xs. f x = Inl err"
  by (induction xs) (auto simp: and_then_Inl)

lemma member_succeeds: "(\<exists>x. member v k = Inr x) \<longleftrightarrow> \<not> is_nullish v"
  by (cases v) (simp_all add: is_nullish_def)

lemma join_method_succeeds: "(\<exists>x. join_method v sep = Inr x) \<longleftrightarrow> is_joinable v"
  by (cases v) simp_all

lemma member_Inl: "member v k = Inl err \<Longrightarrow> \<exists>what. err = type_error what"
  by (cases v) auto

lemma join_method_Inl: "join_method v sep = Inl err \<Longrightarrow> \<exists>what. err = type_error what"
  by (cases v) (auto split: if_splits)

lemma member_value:
  "\<not> is_nullish v \<Longrightarrow> member v k = Inr (case v of JObj r \<Rightarrow> get_prop r k | _ \<Rightarrow> JUndefined)"
  by (cases v) (simp_all add: is_nullish_def)

lemma member_nullish: "is_nullish v \<Longrightarrow> \<exists>what. member v k = Inl (type_error what)"
  by (cases v) (auto simp: is_nullish_def)

lemma join_method_fails: "\<not> is_joinable v \<Longrightarrow> \<exists>what. join_method v sep = Inl (type_error what)"
  by (cases v) (auto split: if_splits)

lemma summary_row_succeeds:
  "(\<exists>r. summary_row e job = Inr r) \<longleftrightarrow> \<not> is_nullish (get_prop job (ascii ''salary''))"
proof (cases "is_nullish (get_prop job (ascii ''salary''))")
  case True
  then obtain what where "member (get_prop job (ascii ''salary'')) (ascii ''min'') = Inl (type_error what)"
    using member_nullish by blast
  then show ?thesis using True by (simp add: summary_row_def and_then_def)
next
  case False
  then show ?thesis by (simp add: summary_row_def and_then_def member_value)
qed

lemma summary_row_Inl: "summary_row e job = Inl err \<Longrightarrow> \<exists>what. err = type_error what"
  by (auto simp: summary_row_def and_then_Inl dest: member_Inl)

lemma detail_row_succeeds:
  "(\<exists>r. detail_row (i, job) = Inr r) \<longleftrightarrow>
     \<not> is_nullish (get_prop job (ascii ''salary''))
     \<and> is_joinable (get_prop job (ascii ''benefits''))
     \<and> (case get_prop job (ascii ''requirements'') of
          JObj r \<Rightarrow> is_joinable (get_prop r (ascii ''skills''))
        | v \<Rightarrow> False)"
proof (cases "is_nullish (get_prop job (ascii ''salary''))")
  case True
  then obtain what where "member (get_prop job (ascii ''salary'')) (ascii ''details'') = Inl (type_error what)"
    using member_nullish by blast
  then show ?thesis using True by (simp add: detail_row_def and_then_def)
next
  case sal: False
  show ?thesis
  proof (cases "is_joinable (get_prop job (ascii ''benefits''))")
    case False
    then obtain what where "join_method (get_prop job (ascii ''benefits'')) (ascii '', '') = Inl (type_error what)"
      using join_method_fails by blast
    then show ?thesis using sal False by (simp add: detail_row_def and_then_def member_value)
  next
    case ben: True
    then obtain b where b: "join_method (get_prop job (ascii ''benefits'')) (ascii '', '') = Inr b"
      using join_method_succeeds by blast
    show ?thesis
    proof (cases "get_prop job (ascii ''requirements'')")
      case (JObj r)
      show ?thesis
      proof (cases "is_joinable (get_prop r (ascii ''skills''))")
        case True
        then obtain sk where "join_method (get_prop r (ascii ''skills'')) (ascii '', '') = Inr sk"
          using join_method_succeeds by blast
        then show ?thesis using sal ben b JObj True
          by (simp add: detail_row_def and_then_def member_value)
      next
        case False
        then obtain what where "join_method (get_prop r (ascii ''skills'')) (ascii '', '') = Inl (type_error what)"
          using join_method_fails by blast
        then show ?thesis using sal ben b JObj False
          by (simp add: detail_row_def and_then_def member_value)
      qed
    qed (use sal ben b in \<open>simp_all add: detail_row_def and_then_def member_value\<close>)
  qed
qed

lemma detail_row_Inl: "detail_row p = Inl err \<Longrightarrow> \<exists>what. err = type_error what"
  by (cases p) (auto simp: detail_row_def and_then_Inl dest: member_Inl join_method_Inl)

lemma bump_if_present_succeeds: "(\<exists>t. bump_if_present v obj = Inr t) \<longleftrightarrow> key_ok v"
  by (auto simp: bump_if_present_def bump_def to_string_def key_ok_def and_then_def Let_def)

lemma bump_if_present_Inl: "bump_if_present v obj = Inl err \<Longrightarrow> \<exists>what. err = type_error what"
  by (auto simp: bump_if_present_def bump_def to_string_def and_then_def Let_def split: if_splits)

lemma count_job_succeeds:
  "(\<exists>s'. count_job job s = Inr s') \<longleftrightarrow>
     key_ok (get_prop job (ascii ''jobTitle'')) \<and> key_ok (get_prop job (ascii ''location''))
     \<and> key_ok (get_prop job (ascii ''employmentType''))"
proof -
  have a: "\<And>v obj. key_ok v \<Longrightarrow> \<exists>t. bump_if_present v obj = Inr t"
    using bump_if_present_succeeds by blast
  have b: "\<And>v obj t. bump_if_present v obj = Inr t \<Longrightarrow> key_ok v"
    using bump_if_present_succeeds by blast
  show ?thesis
  proof
    assume "\<exists>s'. count_job job s = Inr s'"
    then show "key_ok (get_prop job (ascii ''jobTitle'')) \<and> key_ok (get_prop job (ascii ''location''))
     \<and> key_ok (get_prop job (ascii ''employmentType''))"
      by (auto simp: count_job_def and_then_Inr dest: b)
  next
    assume k: "key_ok (get_prop job (ascii ''jobTitle'')) \<and> key_ok (get_prop job (ascii ''location''))
     \<and> key_ok (get_prop job (ascii ''employmentType''))"
    obtain t1 where t1: "bump_if_present (get_prop job (ascii ''jobTitle'')) (by_jobTitle s) = Inr t1"
      using a k by blast
    obtain t2 where t2: "bump_if_present (get_prop job (ascii ''location'')) (by_location s) = Inr t2"
      using a k by blast
    obtain t3 where t3: "bump_if_present (get_prop job (ascii ''employmentType'')) (by_employmentType s) = Inr t3"
      using a k by blast
    show "\<exists>s'. count_job job s = Inr s'"
      by (simp add: count_job_def and_then_def t1 t2 t3)
  qed
qed

lemma count_job_Inl: "count_job job s = Inl err \<Longrightarrow> \<exists>what. err = type_error what"
  by (auto simp: count_job_def and_then_Inl dest: bump_if_present_Inl)

lemma count_jobs_succeeds:
  "(\<exists>s'. count_jobs jobs s = Inr s') \<longleftrightarrow>
     (\<forall>job \<in> set jobs. key_ok (get_prop job (ascii ''jobTitle''))
        \<and> key_ok (get_prop job (ascii ''location''))
        \<and> key_ok (get_prop job (ascii ''employmentType'')))"
proof (induction jobs arbitrary: s)
  case Nil
  then show ?case by simp
next
  case (Cons job jobs)
  show ?case
  proof (cases "count_job job s")
    case (Inl err)
    then have "\<not> (\<exists>s'. count_job job s = Inr s')" by simp
    then show ?thesis using Inl count_job_succeeds[of job s] by (auto simp: and_then_def)
  next
    case (Inr s1)
    then have "\<exists>s'. count_job job s = Inr s'" by simp
    then show ?thesis using Inr count_job_succeeds[of job s] Cons.IH[of s1]
      by (auto simp: and_then_def)
  qed
qed

lemma count_jobs_Inl: "count_jobs jobs s = Inl err \<Longrightarrow> \<exists>what. err = type_error what"
  by (induction jobs arbitrary: s) (auto simp: and_then_Inl dest: count_job_Inl)

lemma set_zip_upt: "snd ` set (zip [0 ..< length xs] xs) = set xs"
proof -
  have "map snd (zip [0 ..< length xs] xs) = xs" by simp
  then have "set (map snd (zip [0 ..< length xs] xs)) = set xs" by simp
  then show ?thesis by (simp only: set_map)
qed

lemma detail_rows_succeed:
  "(\<exists>rows. map_err detail_row (zip [0 ..< length jobs] jobs) = Inr rows) \<longleftrightarrow>
     (\<forall>job \<in> set jobs.
        \<not> is_nullish (get_prop job (ascii ''salary''))
        \<and> is_joinable (get_prop job (ascii ''benefits''))
        \<and> (case get_prop job (ascii ''requirements'') of
             JObj r \<Rightarrow> is_joinable (get_prop r (ascii ''skills''))
           | v \<Rightarrow> False))"
proof -
  have "(\<exists>rows. map_err detail_row (zip [0 ..< length jobs] jobs) = Inr rows) \<longleftrightarrow>
        (\<forall>p \<in> set (zip [0 ..< length jobs] jobs). \<exists>r. detail_row p = Inr r)"
    by (rule map_err_succeeds)
  also have "\<dots> \<longleftrightarrow> (\<forall>p \<in> set (zip [0 ..< length jobs] jobs). \<exists>r. detail_row (fst p, snd p) = Inr r)"
    by simp
  also have "\<dots> \<longleftrightarrow> (\<forall>p \<in> set (zip [0 ..< length jobs] jobs).
        \<not> is_nullish (get_prop (snd p) (ascii ''salary''))
        \<and> is_joinable (get_prop (snd p) (ascii ''benefits''))
        \<and> (case get_prop (snd p) (ascii ''requirements'') of
             JObj r \<Rightarrow> is_joinable (get_prop r (ascii ''skills''))
           | v \<Rightarrow> False))"
    by (simp only: detail_row_succeeds)
  also have "\<dots> \<longleftrightarrow> (\<forall>job \<in> snd ` set (zip [0 ..< length jobs] jobs).
        \<not> is_nullish (get_prop job (ascii ''salary''))
        \<and> is_joinable (get_prop job (ascii ''benefits''))
        \<and> (case get_prop job (ascii ''requirements'') of
             JObj r \<Rightarrow> is_joinable (get_prop r (ascii ''skills''))
           | v \<Rightarrow> False))"
    by blast
  finally show ?thesis by (simp only: set_zip_upt)
qed

lemma report_tables_succeeds:
  "(\<exists>excel. report_tables e jobs = Inr excel) \<longleftrightarrow> (\<forall>job \<in> set jobs. well_shaped job)"
proof
  assume "\<exists>excel. report_tables e jobs = Inr excel"
  then obtain summary detail s where
    "map_err (summary_row e) jobs = Inr summary"
    "map_err detail_row (zip [0 ..< length jobs] jobs) = Inr detail"
    "compute_stats jobs = Inr s"
    by (auto simp: report_tables_def and_then_Inr)
  then show "\<forall>job \<in> set jobs. well_shaped job"
    using detail_rows_succeed[of jobs]
      count_jobs_succeeds[of jobs "\<lparr>total_jobs = length jobs, by_jobTitle = [], by_location = [], by_employmentType = []\<rparr>"]
    by (simp add: well_shaped_def compute_stats_def)
next
  assume w: "\<forall>job \<in> set jobs. well_shaped job"
  have "\<forall>job \<in> set jobs. \<exists>r. summary_row e job = Inr r"
    using w by (simp add: summary_row_succeeds well_shaped_def)
  then obtain summary where s1: "map_err (summary_row e) jobs = Inr summary"
    using map_err_succeeds[of "summary_row e" jobs] by blast
  obtain detail where s2: "map_err detail_row (zip [0 ..< length jobs] jobs) = Inr detail"
    using w detail_rows_succeed[of jobs] by (auto simp: well_shaped_def)
  obtain s where s3: "compute_stats jobs = Inr s"
    using w count_jobs_succeeds[of jobs "\<lparr>total_jobs = length jobs, by_jobTitle = [], by_location = [], by_employmentType = []\<rparr>"]
    by (auto simp: well_shaped_def compute_stats_def)
  show "\<exists>excel. report_tables e jobs = Inr excel"
    by (simp add: report_tables_def and_then_def s1 s2 s3)
qed

lemma report_tables_sheets:
  "report_tables e jobs = Inr excel \<longleftrightarrow>
     (\<exists>summary detail s.
        map_err (summary_row e) jobs = Inr summary
      \<and> map_err detail_row (zip [0 ..< length jobs] jobs) = Inr detail
      \<and> compute_stats jobs = Inr s
      \<and> excel = [(sheet_summary, summary), (sheet_detail, detail), (sheet_stats, statsData s)])"
  by (simp add: report_tables_def and_then_Inr) blast

lemma json_to_sheet_Inr:
  "json_to_sheet e rows = Inr sheet \<longleftrightarrow> json_to_sheet_throws e rows = None \<and> sheet = rows"
  by (auto simp: json_to_sheet_def split: option.splits)

lemma json_to_sheet_Inl: "json_to_sheet e rows = Inl err \<Longrightarrow> \<exists>m. err = Error m"
  by (auto simp: json_to_sheet_def split: option.splits)

lemma xlsx_write_Inr:
  "xlsx_write e book = Inr file \<longleftrightarrow> xlsx_write_throws e book = None \<and> file = book"
  by (auto simp: xlsx_write_def split: option.splits)

lemma xlsx_write_Inl: "xlsx_write e book = Inl err \<Longrightarrow> \<exists>m. err = Error m"
  by (auto simp: xlsx_write_def split: option.splits)

lemma createExcelFile_Inr:
  "createExcelFile e jobs = Inr excel \<longleftrightarrow> report_tables e jobs = Inr excel \<and> library_accepts e excel"
proof
  assume "createExcelFile e jobs = Inr excel"
  then obtain summary detail s where x:
    "map_err (summary_row e) jobs = Inr summary" "json_to_sheet_throws e summary = None"
    "map_err detail_row (zip [0 ..< length jobs] jobs) = Inr detail"
    "json_to_sheet_throws e detail = None"
    "compute_stats jobs = Inr s" "json_to_sheet_throws e (statsData s) = None"
    "xlsx_write_throws e [(sheet_summary, summary), (sheet_detail, detail), (sheet_stats, statsData s)] = None"
    "excel = [(sheet_summary, summary), (sheet_detail, detail), (sheet_stats, statsData s)]"
    unfolding createExcelFile_def and_then_Inr json_to_sheet_Inr xlsx_write_Inr by blast
  have "report_tables e jobs = Inr excel"
    unfolding report_tables_sheets using x(1,3,5,8) by blast
  moreover have "library_accepts e excel"
    using x(2,4,6,7) by (simp add: library_accepts_def x(8))
  ultimately show "report_tables e jobs = Inr excel \<and> library_accepts e excel" ..
next
  assume a: "report_tables e jobs = Inr excel \<and> library_accepts e excel"
  then obtain summary detail s where x:
    "map_err (summary_row e) jobs = Inr summary"
    "map_err detail_row (zip [0 ..< length jobs] jobs) = Inr detail"
    "compute_stats jobs = Inr s"
    "excel = [(sheet_summary, summary), (sheet_detail, detail), (sheet_stats, statsData s)]"
    unfolding report_tables_sheets by blast
  have l: "json_to_sheet_throws e summary = None" "json_to_sheet_throws e detail = None"
    "json_to_sheet_throws e (statsData s) = None"
    "xlsx_write_throws e [(sheet_summary, summary), (sheet_detail, detail), (sheet_stats, statsData s)] = None"
    using a by (simp_all add: library_accepts_def x(4))
  show "createExcelFile e jobs = Inr excel"
    by (simp add: createExcelFile_def and_then_def x json_to_sheet_def xlsx_write_def l)
qed

lemma createExcelFile_Inl:
  "createExcelFile e jobs = Inl err \<Longrightarrow> \<exists>m. err = Error m"
  by (auto simp: createExcelFile_def compute_stats_def and_then_Inl type_error_def
           dest!: map_err_Inl
           dest: summary_row_Inl detail_row_Inl count_jobs_Inl json_to_sheet_Inl xlsx_write_Inl)

lemma createExcelFile_demo:
  "createExcelFile (demo_env reply parse) jobs = report_tables (demo_env reply parse) jobs"
proof (cases "report_tables (demo_env reply parse) jobs")
  case (Inl err)
  have "\<And>excel. createExcelFile (demo_env reply parse) jobs \<noteq> Inr excel"
    using Inl by (simp add: createExcelFile_Inr)
  moreover have "\<And>err'. createExcelFile (demo_env reply parse) jobs = Inl err' \<Longrightarrow> err' = err"
    using Inl
    by (auto simp: createExcelFile_def report_tables_def and_then_def json_to_sheet_def
          xlsx_write_def demo_env_def split: sum.splits)
  ultimately show ?thesis using Inl by (cases "createExcelFile (demo_env reply parse) jobs") auto
next
  case (Inr excel)
  moreover have "library_accepts (demo_env reply parse) excel"
    by (simp add: library_accepts_def demo_env_def list_all_iff)
  ultimately show ?thesis by (simp add: createExcelFile_Inr)
qed

lemma createExcelFile_demo_succeeds:
  "(\<exists>excel. createExcelFile (demo_env reply parse) jobs = Inr excel)
     \<longleftrightarrow> (\<forall>job \<in> set jobs. well_shaped job)"
  by (simp only: createExcelFile_demo report_tables_succeeds)

lemma report_tables_lengths:
  assumes "report_tables e jobs = Inr excel"
  shows "\<exists>summary detail s.
       excel = [(sheet_summary, summary), (sheet_detail, detail), (sheet_stats, statsData s)]
     \<and> map_err (summary_row e) jobs = Inr summary
     \<and> map_err detail_row (zip [0 ..< length jobs] jobs) = Inr detail
     \<and> compute_stats jobs = Inr s
     \<and> length summary = length jobs \<and> length detail = length jobs"
proof -
  from assms obtain summary detail s where x:
    "map_err (summary_row e) jobs = Inr summary"
    "map_err detail_row (zip [0 ..< length jobs] jobs) = Inr detail"
    "compute_stats jobs = Inr s"
    "excel = [(sheet_summary, summary), (sheet_detail, detail), (sheet_stats, statsData s)]"
    unfolding report_tables_sheets by blast
  have "length summary = length jobs" using x(1) by (simp add: map_err_Inr)
  moreover have "length detail = length jobs" using x(2) by (simp add: map_err_Inr)
  ultimately show ?thesis using x by blast
qed

lemma createExcelFile_sheets:
  assumes "createExcelFile e jobs = Inr excel"
  shows "\<exists>summary detail s.
       excel = [(sheet_summary, summary), (sheet_detail, detail), (sheet_stats, statsData s)]
     \<and> map_err (summary_row e) jobs = Inr summary
     \<and> map_err detail_row (zip [0 ..< length jobs] jobs) = Inr detail
     \<and> compute_stats jobs = Inr s
     \<and> length summary = length jobs \<and> length detail = length jobs"
  using assms report_tables_lengths[of e jobs excel] by (simp add: createExcelFile_Inr)

section \<open>The batch route answers with the spreadsheet\<close>

lemma well_shaped_merged:
  "well_shaped (set_prop (ascii ''extractedAt'') a (set_prop (ascii ''url'') b obj)) = well_shaped obj"
proof -
  have k: "ascii ''salary'' \<noteq> ascii ''extractedAt''" "ascii ''salary'' \<noteq> ascii ''url''"
    "ascii ''benefits'' \<noteq> ascii ''extractedAt''" "ascii ''benefits'' \<noteq> ascii ''url''"
    "ascii ''requirements'' \<noteq> ascii ''extractedAt''" "ascii ''requirements'' \<noteq> ascii ''url''"
    "ascii ''jobTitle'' \<noteq> ascii ''extractedAt''" "ascii ''jobTitle'' \<noteq> ascii ''url''"
    "ascii ''location'' \<noteq> ascii ''extractedAt''" "ascii ''location'' \<noteq> ascii ''url''"
    "ascii ''employmentType'' \<noteq> ascii ''extractedAt''" "ascii ''employmentType'' \<noteq> ascii ''url''"
    by (simp_all add: ascii_def)
  show ?thesis by (simp add: well_shaped_def get_set_prop k)
qed

lemma well_shaped_empty_job: "well_shaped (empty_job dsc u t)"
proof -
  have "get_prop [(ascii ''experience'', JNull), (ascii ''skills'', JArr []),
                  (ascii ''education'', JNull)] (ascii ''skills'') = JArr []"
    by (simp add: get_prop_def ascii_def)
  then show ?thesis
    by (simp add: well_shaped_def empty_job_props is_nullish_def key_ok_def)
qed

lemma process_urls_jobs:
  "\<forall>job \<in> set (fst (process_urls e key us st acc)).
     job \<in> set acc
     \<or> (\<exists>m obj t u. json_parse e m = Inr obj
           \<and> job = set_prop (ascii ''extractedAt'') (JStr t) (set_prop (ascii ''url'') (JStr u) obj))
     \<or> (\<exists>dsc u t. job = empty_job dsc u t)"
proof (induction us arbitrary: st acc)
  case Nil
  then show ?case by simp
next
  case (Cons u us)
  obtain job st1 where p: "process_url e key u st = (job, st1)" by (cases "process_url e key u st")
  have j: "(\<exists>m obj t u. json_parse e m = Inr obj
           \<and> job = set_prop (ascii ''extractedAt'') (JStr t) (set_prop (ascii ''url'') (JStr u) obj))
     \<or> (\<exists>dsc u t. job = empty_job dsc u t)"
    using process_url_job[of e key u st] unfolding p fst_conv by blast
  show ?case
  proof (intro ballI)
    fix x assume "x \<in> set (fst (process_urls e key (u # us) st acc))"
    then have "x \<in> set (fst (process_urls e key us st1 (acc @ [job])))" using p by simp
    then have "x \<in> set (acc @ [job])
        \<or> (\<exists>m obj t u. json_parse e m = Inr obj
           \<and> x = set_prop (ascii ''extractedAt'') (JStr t) (set_prop (ascii ''url'') (JStr u) obj))
        \<or> (\<exists>dsc u t. x = empty_job dsc u t)"
      using Cons.IH[of st1 "acc @ [job]"] by blast
    then consider "x \<in> set acc" | "x = job"
      | "\<exists>m obj t u. json_parse e m = Inr obj
           \<and> x = set_prop (ascii ''extractedAt'') (JStr t) (set_prop (ascii ''url'') (JStr u) obj)"
      | "\<exists>dsc u t. x = empty_job dsc u t"
      by (simp only: set_append list.set) blast
    then show "x \<in> set acc
        \<or> (\<exists>m obj t u. json_parse e m = Inr obj
           \<and> x = set_prop (ascii ''extractedAt'') (JStr t) (set_prop (ascii ''url'') (JStr u) obj))
        \<or> (\<exists>dsc u t. x = empty_job dsc u t)"
    proof cases
      case 1 then show ?thesis by blast
    next
      case 2 then show ?thesis using j by blast
    next
      case 3 then show ?thesis by blast
    next
      case 4 then show ?thesis by blast
    qed
  qed
qed

lemma POST_extract_to_excel_run:
  assumes "us \<noteq> []" and "key \<noteq> []"
  shows "POST_extract_to_excel e \<lparr>req_urls = Some us, req_apiKey = Some key\<rparr> st
     = (case createExcelFile e (fst (process_urls e key us st [])) of
          Inl err \<Rightarrow> (batch_failure err, snd (process_urls e key us st []))
        | Inr excel \<Rightarrow>
            (BatchXlsx 200
               (ascii ''attachment; filename='' @ [34] @ ascii ''job_data_''
                  @ takeWhile (\<lambda>c. c \<noteq> 84) (fst (do_now e (snd (process_urls e key us st []))))
                  @ ascii ''.xlsx'' @ [34])
               excel,
             snd (do_now e (snd (process_urls e key us st [])))))"
  using assms
  by (simp add: POST_extract_to_excel_def split: prod.splits sum.splits)

lemma col_jobDescription_distinct:
  "ascii ''No.'' \<noteq> col_jobDescription" "col_jobTitle \<noteq> col_jobDescription"
  "col_companyName \<noteq> col_jobDescription" "col_location \<noteq> col_jobDescription"
  "col_salary_details \<noteq> col_jobDescription" "col_workingHours \<noteq> col_jobDescription"
  "col_holidays \<noteq> col_jobDescription" "col_benefits \<noteq> col_jobDescription"
  "col_experience \<noteq> col_jobDescription" "col_skills \<noteq> col_jobDescription"
  "col_education \<noteq> col_jobDescription"
  by (simp_all add: ascii_def col_jobDescription_def col_jobTitle_def col_companyName_def
        col_location_def col_salary_details_def col_workingHours_def col_holidays_def
        col_benefits_def col_experience_def col_skills_def col_education_def)

lemma detail_row_description:
  assumes "detail_row (i, job) = Inr r"
  shows "map_of r col_jobDescription = Some (or_blank (get_prop job (ascii ''jobDescription'')))"
proof -
  from assms obtain c1 c2 c3 c4 c5 c6 c7 c8 c9 c10 c11 c12 where
    r: "r = [(ascii ''No.'', c1), (col_jobTitle, c2), (col_companyName, c3), (col_location, c4),
             (col_salary_details, c5), (col_workingHours, c6), (col_holidays, c7),
             (col_benefits, c8), (col_experience, c9), (col_skills, c10), (col_education, c11),
             (col_jobDescription, or_blank (get_prop job (ascii ''jobDescription''))),
             (col_applicationMethod, or_blank (get_prop job (ascii ''applicationMethod''))),
             (ascii ''URL'', c12)]"
    unfolding detail_row_def and_then_def
    by (simp split: sum.splits) blast
  show ?thesis
    unfolding r
    by (simp add: col_jobDescription_distinct col_jobDescription_distinct[symmetric])
qed

lemma detail_rows_description:
  assumes "map_err detail_row (zip [0 ..< length jobs] jobs) = Inr detail" and "i < length jobs"
  shows "map_of (detail ! i) col_jobDescription
           = Some (or_blank (get_prop (jobs ! i) (ascii ''jobDescription'')))"
proof -
  have "detail_row (zip [0 ..< length jobs] jobs ! i) = Inr (detail ! i)"
    using assms by (simp add: map_err_Inr)
  then have "detail_row (i, jobs ! i) = Inr (detail ! i)" using assms(2) by simp
  then show ?thesis by (rule detail_row_description)
qed

lemma jsonMatch_short_reply: "jsonMatch short_reply = Some short_json"
proof -
  have "jsonMatch (ascii ''Here is the result: '' @ 123
          # ([34] @ ascii ''jobTitle'' @ [34, 58, 34] @ ascii ''Engineer'' @ [34])
          @ 125 # ascii '' Hope this helps.'')
        = Some (123 # ([34] @ ascii ''jobTitle'' @ [34, 58, 34] @ ascii ''Engineer'' @ [34]) @ [125])"
    by (rule jsonMatch_span) (simp_all add: ascii_def)
  then show ?thesis by (simp add: short_reply_def short_json_def)
qed

lemma jsonMatch_full_json: "jsonMatch full_json = Some full_json"
  by (simp add: jsonMatch_def full_json_def ascii_def)

lemma take_article: "take 4000 article_text = article_text"
  by (simp add: article_text_def ascii_def)

lemma demo_urls_differ:
  "down_url \<noteq> demo_url" "down_url \<noteq> ascii ''https://jobs.example/long''"
  "[] \<noteq> demo_url" "[] \<noteq> ascii ''https://jobs.example/long''"
  by (simp_all add: ascii_def)

lemma demo_process_url_down:
  assumes "u \<noteq> demo_url" and "u \<noteq> ascii ''https://jobs.example/long''"
  shows "process_url (demo_env reply parse) key u (w, tr)
     = (empty_job (ascii ''Error processing URL: '' @ ascii ''Network error: ''
                     @ ascii ''timeout of 10000ms exceeded'') u demo_time,
        (Suc w, tr @ [Get u]))"
  using assms
  by (simp add: process_url_def extractContentFromUrl_def do_get_def do_now_def demo_env_def
        timeout_error_def)

lemma demo_process_url_ok:
  assumes "jsonMatch reply = Some m" and "parse m = Inr obj"
  shows "process_url (demo_env reply parse) key demo_url (w, tr)
     = (set_prop (ascii ''extractedAt'') (JStr demo_time) (set_prop (ascii ''url'') (JStr demo_url) obj),
        (Suc (Suc w), tr @ [Get demo_url, Post (StructureRequest key article_text), Delay 1000]))"
proof -
  have x: "extractContentFromUrl (demo_env reply parse) demo_url (w, tr)
             = (Inr article_text, (Suc w, tr @ [Get demo_url]))"
    by (simp add: extractContentFromUrl_def do_get_def demo_env_def demo_select demo_clean)
  have s: "structureJobData (demo_env reply parse) article_text demo_url key (Suc w, tr @ [Get demo_url])
     = (set_prop (ascii ''extractedAt'') (JStr demo_time) (set_prop (ascii ''url'') (JStr demo_url) obj),
        (Suc (Suc w), tr @ [Get demo_url, Post (StructureRequest key article_text)]))"
    using assms
    by (simp add: structureJobData_def structureJobData_preview_def do_post_def do_now_def
          demo_env_def take_article)
  show ?thesis by (simp add: process_url_def x s do_delay_def)
qed

lemma full_object_shaped: "well_shaped full_object"
proof -
  have "get_prop [(ascii ''skills'', JArr [])] (ascii ''skills'') = JArr []"
    by (simp add: get_prop_def)
  then show ?thesis
    by (simp add: well_shaped_def full_object_def get_prop_def is_nullish_def key_ok_def ascii_def)
qed

lemma demo_batch_two:
  "process_urls (demo_env full_json parse_full) key [demo_url, down_url] (0, []) []
     = ([set_prop (ascii ''extractedAt'') (JStr demo_time)
           (set_prop (ascii ''url'') (JStr demo_url) full_object),
         empty_job (ascii ''Error processing URL: '' @ ascii ''Network error: ''
                      @ ascii ''timeout of 10000ms exceeded'') down_url demo_time],
        (Suc (Suc (Suc 0)),
         [Get demo_url, Post (StructureRequest key article_text), Delay 1000, Get down_url]))"
proof -
  have p: "parse_full full_json = Inr full_object" by (simp add: parse_full_def)
  show ?thesis
    by (simp add: demo_process_url_ok[where reply = full_json and parse = parse_full, OF jsonMatch_full_json p]
          demo_process_url_down[OF demo_urls_differ(1,2)])
qed

text \<open>
  C3, as the route has it. For a request with a non-empty list of URLs and a non-empty
  credential, the route answers 200 with the three sheets exactly when the three tables can
  be computed from the records of the batch and the spreadsheet library accepts them; the
  tables can be computed exactly when every record has the shape the report reads.
  Otherwise the exception raised while building the report is caught and the answer is 500
  with a processing error. Every record is the record of a failed item (fetch or
  structuring) or a parsed reply with its address and time; the records of failed items
  always have the shape the report reads. When the answer is 200 there is one row per URL
  in the first two sheets, and the description cell of each row of the second is the
  description of its record, which for a failed item is the diagnostic.
\<close>

theorem batch_returns_spreadsheet:
  assumes "us \<noteq> []" and "key \<noteq> []"
  shows "(batch_status (fst (POST_extract_to_excel e \<lparr>req_urls = Some us, req_apiKey = Some key\<rparr> st)) = 200
            \<longleftrightarrow> (\<exists>excel. report_tables e (fst (process_urls e key us st [])) = Inr excel
                          \<and> library_accepts e excel))
     \<and> ((\<exists>excel. report_tables e (fst (process_urls e key us st [])) = Inr excel)
            \<longleftrightarrow> (\<forall>job \<in> set (fst (process_urls e key us st [])). well_shaped job))
     \<and> (batch_status (fst (POST_extract_to_excel e \<lparr>req_urls = Some us, req_apiKey = Some key\<rparr> st)) \<noteq> 200
          \<longrightarrow> (\<exists>m. fst (POST_extract_to_excel e \<lparr>req_urls = Some us, req_apiKey = Some key\<rparr> st)
                     = BatchError 500 (ascii ''Processing error: '' @ m)))
     \<and> (\<forall>job \<in> set (fst (process_urls e key us st [])).
            (\<exists>dsc u t. job = empty_job dsc u t)
          \<or> (\<exists>m obj t u. json_parse e m = Inr obj
                \<and> job = set_prop (ascii ''extractedAt'') (JStr t)
                          (set_prop (ascii ''url'') (JStr u) obj)))
     \<and> (\<forall>dsc u t. well_shaped (empty_job dsc u t))
     \<and> (\<forall>excel. report_tables e (fst (process_urls e key us st [])) = Inr excel
                  \<and> library_accepts e excel
          \<longrightarrow> (\<exists>name summary detail stats st'.
                 POST_extract_to_excel e \<lparr>req_urls = Some us, req_apiKey = Some key\<rparr> st
                   = (BatchXlsx 200 name excel, st')
               \<and> excel = [(sheet_summary, summary), (sheet_detail, detail), (sheet_stats, stats)]
               \<and> length summary = length us \<and> length detail = length us
               \<and> (\<forall>i < length us.
                     map_of (detail ! i) col_jobDescription
                       = Some (or_blank (get_prop (fst (process_urls e key us st []) ! i)
                                           (ascii ''jobDescription''))))))"
proof -
  let ?jobs = "fst (process_urls e key us st [])"
  let ?post = "POST_extract_to_excel e \<lparr>req_urls = Some us, req_apiKey = Some key\<rparr> st"
  note run = POST_extract_to_excel_run[OF assms, of e st]
  have len: "length ?jobs = length us"
    using process_urls_records[of e key us st "[]"] by simp
  have c13: "(batch_status (fst ?post) = 200
               \<longleftrightarrow> (\<exists>excel. report_tables e ?jobs = Inr excel \<and> library_accepts e excel))
       \<and> (batch_status (fst ?post) \<noteq> 200
            \<longrightarrow> (\<exists>m. fst ?post = BatchError 500 (ascii ''Processing error: '' @ m)))"
  proof (cases "createExcelFile e ?jobs")
    case (Inl err)
    then obtain m where m: "err = Error m" using createExcelFile_Inl by blast
    have p: "fst ?post = BatchError 500 (ascii ''Processing error: '' @ m)"
      using Inl run m by simp
    have "\<not> (\<exists>excel. report_tables e ?jobs = Inr excel \<and> library_accepts e excel)"
      using Inl by (simp add: createExcelFile_Inr[symmetric])
    then show ?thesis using p by simp
  next
    case (Inr excel)
    then have "batch_status (fst ?post) = 200" using run by simp
    moreover have "report_tables e ?jobs = Inr excel \<and> library_accepts e excel"
      using Inr by (simp add: createExcelFile_Inr)
    ultimately show ?thesis by blast
  qed
  have c2: "(\<exists>excel. report_tables e ?jobs = Inr excel) \<longleftrightarrow> (\<forall>job \<in> set ?jobs. well_shaped job)"
    by (rule report_tables_succeeds)
  have c4: "\<forall>job \<in> set ?jobs.
            (\<exists>dsc u t. job = empty_job dsc u t)
          \<or> (\<exists>m obj t u. json_parse e m = Inr obj
                \<and> job = set_prop (ascii ''extractedAt'') (JStr t)
                          (set_prop (ascii ''url'') (JStr u) obj))"
  proof
    fix job assume "job \<in> set ?jobs"
    then have "job \<in> set []
     \<or> (\<exists>m obj t u. json_parse e m = Inr obj
           \<and> job = set_prop (ascii ''extractedAt'') (JStr t) (set_prop (ascii ''url'') (JStr u) obj))
     \<or> (\<exists>dsc u t. job = empty_job dsc u t)"
      using process_urls_jobs[of e key us st "[]"] by blast
    then show "(\<exists>dsc u t. job = empty_job dsc u t)
          \<or> (\<exists>m obj t u. json_parse e m = Inr obj
                \<and> job = set_prop (ascii ''extractedAt'') (JStr t)
                          (set_prop (ascii ''url'') (JStr u) obj))"
      by (simp only: list.set empty_iff) blast
  qed
  have c5: "\<forall>dsc u t. well_shaped (empty_job dsc u t)" using well_shaped_empty_job by blast
  have c6: "\<forall>excel. report_tables e ?jobs = Inr excel \<and> library_accepts e excel
          \<longrightarrow> (\<exists>name summary detail stats st'.
                 ?post = (BatchXlsx 200 name excel, st')
               \<and> excel = [(sheet_summary, summary), (sheet_detail, detail), (sheet_stats, stats)]
               \<and> length summary = length us \<and> length detail = length us
               \<and> (\<forall>i < length us.
                     map_of (detail ! i) col_jobDescription
                       = Some (or_blank (get_prop (?jobs ! i) (ascii ''jobDescription'')))))"
  proof (intro allI impI)
    fix excel assume h: "report_tables e ?jobs = Inr excel \<and> library_accepts e excel"
    then have ex: "createExcelFile e ?jobs = Inr excel" by (simp add: createExcelFile_Inr)
    from createExcelFile_sheets[OF ex] obtain summary detail s where sh:
      "excel = [(sheet_summary, summary), (sheet_detail, detail), (sheet_stats, statsData s)]"
      "map_err detail_row (zip [0 ..< length ?jobs] ?jobs) = Inr detail"
      "length summary = length ?jobs" "length detail = length ?jobs"
      by blast
    have d: "\<forall>i < length us. map_of (detail ! i) col_jobDescription
                       = Some (or_blank (get_prop (?jobs ! i) (ascii ''jobDescription'')))"
      using detail_rows_description[OF sh(2)] len by simp
    have "\<exists>name st'. ?post = (BatchXlsx 200 name excel, st')"
      using run ex by simp
    then obtain name st' where p: "?post = (BatchXlsx 200 name excel, st')" by blast
    have l: "length summary = length us" "length detail = length us" using sh(3,4) len by simp_all
    show "\<exists>name summary detail stats st'.
                 ?post = (BatchXlsx 200 name excel, st')
               \<and> excel = [(sheet_summary, summary), (sheet_detail, detail), (sheet_stats, stats)]
               \<and> length summary = length us \<and> length detail = length us
               \<and> (\<forall>i < length us.
                     map_of (detail ! i) col_jobDescription
                       = Some (or_blank (get_prop (?jobs ! i) (ascii ''jobDescription''))))"
      using p sh(1) l d by blast
  qed
  show ?thesis
    apply (intro conjI)
         apply (rule c13[THEN conjunct1])
        apply (rule c2)
       apply (rule c13[THEN conjunct2])
      apply (rule c4)
     apply (rule c5)
    apply (rule c6)
    done
qed

theorem batch_returns_spreadsheet_witness:
  "[demo_url, down_url] \<noteq> [] \<and> ascii ''sk-good'' \<noteq> []
   \<and> (\<exists>name summary detail stats st'.
         POST_extract_to_excel (demo_env full_json parse_full)
           \<lparr>req_urls = Some [demo_url, down_url], req_apiKey = Some (ascii ''sk-good'')\<rparr> (0, [])
           = (BatchXlsx 200 name
                [(sheet_summary, summary), (sheet_detail, detail), (sheet_stats, stats)], st')
       \<and> length detail = 2
       \<and> map_of (detail ! 1) col_jobDescription
           = Some (CellVal (JStr (ascii ''Error processing URL: '' @ ascii ''Network error: ''
                                    @ ascii ''timeout of 10000ms exceeded''))))
   \<and> (\<exists>m. fst (POST_extract_to_excel (refusing_env full_json parse_full)
           \<lparr>req_urls = Some [demo_url, down_url], req_apiKey = Some (ascii ''sk-good'')\<rparr> (0, []))
         = BatchError 500 (ascii ''Processing error: '' @ m))"
proof -
  let ?e = "demo_env full_json parse_full"
  let ?r = "refusing_env full_json parse_full"
  let ?us = "[demo_url, down_url]"
  let ?k = "ascii ''sk-good''"
  let ?jobs = "fst (process_urls ?e ?k ?us (0, []) [])"
  have h1: "?us \<noteq> []" by simp
  have h2: "?k \<noteq> []" by (simp add: ascii_def)
  note T = batch_returns_spreadsheet[OF h1 h2, of ?e "(0, [])"]
  note c2 = T[THEN conjunct2, THEN conjunct1]
  note c6 = T[THEN conjunct2, THEN conjunct2, THEN conjunct2, THEN conjunct2, THEN conjunct2]
  have shaped: "\<forall>job \<in> set ?jobs. well_shaped job"
    by (simp only: demo_batch_two fst_conv)
       (simp add: well_shaped_merged full_object_shaped well_shaped_empty_job)
  then obtain excel where ex: "report_tables ?e ?jobs = Inr excel"
    using c2 by blast
  have acc: "library_accepts ?e excel"
    by (simp add: library_accepts_def demo_env_def list_all_iff)
  from c6[rule_format, OF conjI[OF ex acc]] obtain name summary detail stats st' where
    r: "POST_extract_to_excel ?e \<lparr>req_urls = Some ?us, req_apiKey = Some ?k\<rparr> (0, [])
           = (BatchXlsx 200 name excel, st')"
    and x: "excel = [(sheet_summary, summary), (sheet_detail, detail), (sheet_stats, stats)]"
    and l: "length detail = length ?us"
    and d: "\<forall>i < length ?us. map_of (detail ! i) col_jobDescription
              = Some (or_blank (get_prop (?jobs ! i) (ascii ''jobDescription'')))"
    by blast
  have "map_of (detail ! 1) col_jobDescription
          = Some (or_blank (get_prop (?jobs ! 1) (ascii ''jobDescription'')))"
    using d by simp
  then have d1: "map_of (detail ! 1) col_jobDescription
           = Some (CellVal (JStr (ascii ''Error processing URL: '' @ ascii ''Network error: ''
                                    @ ascii ''timeout of 10000ms exceeded'')))"
    by (simp only: demo_batch_two fst_conv)
       (simp add: empty_job_props or_blank_def or_else_def, (simp add: ascii_def)?)
  have first: "\<exists>name summary detail stats st'.
         POST_extract_to_excel ?e \<lparr>req_urls = Some ?us, req_apiKey = Some ?k\<rparr> (0, [])
           = (BatchXlsx 200 name
                [(sheet_summary, summary), (sheet_detail, detail), (sheet_stats, stats)], st')
       \<and> length detail = 2
       \<and> map_of (detail ! 1) col_jobDescription
           = Some (CellVal (JStr (ascii ''Error processing URL: '' @ ascii ''Network error: ''
                                    @ ascii ''timeout of 10000ms exceeded'')))"
    using r x l d1 by auto
  note R = batch_returns_spreadsheet[OF h1 h2, of ?r "(0, [])"]
  have refuse: "\<And>book. \<not> library_accepts ?r book"
    by (simp add: library_accepts_def refusing_env_def)
  have "batch_status (fst (POST_extract_to_excel ?r
           \<lparr>req_urls = Some ?us, req_apiKey = Some ?k\<rparr> (0, []))) \<noteq> 200"
    using R[THEN conjunct1] refuse by blast
  then have second: "\<exists>m. fst (POST_extract_to_excel ?r
           \<lparr>req_urls = Some ?us, req_apiKey = Some ?k\<rparr> (0, []))
         = BatchError 500 (ascii ''Processing error: '' @ m)"
    using R[THEN conjunct2, THEN conjunct2, THEN conjunct1] by blast
  show ?thesis using h1 h2 first second by blast
qed

theorem batch_returns_spreadsheet_counterexample:
  "POST_extract_to_excel (demo_env short_reply parse_short)
     \<lparr>req_urls = Some [demo_url], req_apiKey = Some (ascii ''sk-good'')\<rparr> (0, [])
     = (BatchError 500 (ascii ''Processing error: '' @ ascii ''TypeError: ''
                          @ ascii ''Cannot read properties of undefined''),
        (Suc (Suc 0),
         [Get demo_url, Post (StructureRequest (ascii ''sk-good'') article_text), Delay 1000]))"
proof -
  let ?e = "demo_env short_reply parse_short"
  let ?job = "set_prop (ascii ''extractedAt'') (JStr demo_time)
                (set_prop (ascii ''url'') (JStr demo_url) short_object)"
  have p: "parse_short short_json = Inr short_object" by (simp add: parse_short_def)
  have jobs: "process_urls ?e (ascii ''sk-good'') [demo_url] (0, []) []
      = ([?job], (Suc (Suc 0),
           [Get demo_url, Post (StructureRequest (ascii ''sk-good'') article_text), Delay 1000]))"
    by (simp add: demo_process_url_ok[where reply = short_reply and parse = parse_short, OF jsonMatch_short_reply p])
  have k: "ascii ''salary'' \<noteq> ascii ''extractedAt''" "ascii ''salary'' \<noteq> ascii ''url''"
    "ascii ''salary'' \<noteq> ascii ''jobTitle''"
    by (simp_all add: ascii_def)
  have sal: "get_prop ?job (ascii ''salary'') = JUndefined"
    by (simp add: get_set_prop k) (simp add: get_prop_def short_object_def k)
  have row: "summary_row ?e ?job = Inl (type_error ''Cannot read properties of undefined'')"
    by (simp add: summary_row_def sal and_then_def)
  have excel: "createExcelFile ?e [?job] = Inl (type_error ''Cannot read properties of undefined'')"
    by (simp add: createExcelFile_def row and_then_def)
  have ne: "[demo_url] \<noteq> []" "ascii ''sk-good'' \<noteq> []" by (simp_all add: ascii_def)
  show ?thesis
    by (simp only: POST_extract_to_excel_run[OF ne] jobs fst_conv snd_conv excel)
       (simp add: type_error_def)
qed

section \<open>One record per URL\<close>

text \<open>
  C1, as the route has it. Whatever the fetcher, the structuring service and the parser do,
  the batch of N URLs has exactly N records, in the order of the URLs; the \<open>url\<close> of
  each record is its input URL (so it is not empty when the input URL is not), each record
  has a timestamp in \<open>extractedAt\<close>, and the pages fetched are exactly the URLs, each
  once and in order.
\<close>

theorem batch_one_record_per_url:
  "length (fst (process_urls e key us st [])) = length us
   \<and> map (\<lambda>job. get_prop job (ascii ''url'')) (fst (process_urls e key us st [])) = map JStr us
   \<and> (\<forall>i < length us. us ! i \<noteq> []
          \<longrightarrow> get_prop (fst (process_urls e key us st []) ! i) (ascii ''url'') \<noteq> JStr [])
   \<and> (\<forall>job \<in> set (fst (process_urls e key us st [])).
          \<exists>t. get_prop job (ascii ''extractedAt'') = JStr t)
   \<and> gets (snd (snd (process_urls e key us st []))) = gets (snd st) @ us"
proof -
  note R = process_urls_records[of e key us st "[]"]
  have len: "length (fst (process_urls e key us st [])) = length us" using R by simp
  have urls: "map (\<lambda>job. get_prop job (ascii ''url'')) (fst (process_urls e key us st [])) = map JStr us"
    using R by simp
  have nonempty: "\<forall>i < length us. us ! i \<noteq> []
          \<longrightarrow> get_prop (fst (process_urls e key us st []) ! i) (ascii ''url'') \<noteq> JStr []"
  proof (intro allI impI)
    fix i assume i: "i < length us" and ne: "us ! i \<noteq> []"
    have "map (\<lambda>job. get_prop job (ascii ''url'')) (fst (process_urls e key us st [])) ! i
            = map JStr us ! i" using urls by simp
    then have "get_prop (fst (process_urls e key us st []) ! i) (ascii ''url'') = JStr (us ! i)"
      using i len by simp
    then show "get_prop (fst (process_urls e key us st []) ! i) (ascii ''url'') \<noteq> JStr []"
      using ne by simp
  qed
  have stamps: "\<forall>job \<in> set (fst (process_urls e key us st [])).
          \<exists>t. get_prop job (ascii ''extractedAt'') = JStr t"
    using R by simp
  have fetched: "gets (snd (snd (process_urls e key us st []))) = gets (snd st) @ us"
    using R by simp
  show ?thesis by (intro conjI len urls nonempty stamps fetched)
qed

theorem batch_one_record_per_url_witness:
  "length (fst (process_urls (demo_env full_json parse_full) (ascii ''sk-good'')
                  [demo_url, down_url] (0, []) [])) = 2
   \<and> map (\<lambda>job. get_prop job (ascii ''url''))
         (fst (process_urls (demo_env full_json parse_full) (ascii ''sk-good'')
                 [demo_url, down_url] (0, []) []))
       = [JStr demo_url, JStr down_url]
   \<and> gets (snd (snd (process_urls (demo_env full_json parse_full) (ascii ''sk-good'')
                        [demo_url, down_url] (0, []) []))) = [demo_url, down_url]
   \<and> get_prop (fst (process_urls (demo_env full_json parse_full) (ascii ''sk-good'')
                      [demo_url, down_url] (0, []) []) ! 1) (ascii ''jobDescription'')
       = JStr (ascii ''Error processing URL: '' @ ascii ''Network error: ''
                 @ ascii ''timeout of 10000ms exceeded'')"
proof -
  note T = batch_one_record_per_url[of "demo_env full_json parse_full" "ascii ''sk-good''"
             "[demo_url, down_url]" "(0, [])"]
  have g: "gets (snd (0 :: nat, [] :: event list)) = []" by (simp add: gets_def)
  have d: "get_prop (fst (process_urls (demo_env full_json parse_full) (ascii ''sk-good'')
                      [demo_url, down_url] (0, []) []) ! 1) (ascii ''jobDescription'')
       = JStr (ascii ''Error processing URL: '' @ ascii ''Network error: ''
                 @ ascii ''timeout of 10000ms exceeded'')"
    by (simp only: demo_batch_two fst_conv) (simp add: empty_job_props)
  show ?thesis using T g d by simp
qed

theorem batch_one_record_per_url_counterexample:
  "length (fst (process_urls (demo_env full_json parse_full) (ascii ''sk-good'') [[]] (0, []) [])) = 1
   \<and> get_prop (hd (fst (process_urls (demo_env full_json parse_full) (ascii ''sk-good'')
                          [[]] (0, []) []))) (ascii ''url'') = JStr []
   \<and> batch_status (fst (POST_extract_to_excel (demo_env full_json parse_full)
                          \<lparr>req_urls = Some [[]], req_apiKey = Some (ascii ''sk-good'')\<rparr> (0, [])))
       = 200"
proof -
  let ?e = "demo_env full_json parse_full"
  let ?job = "empty_job (ascii ''Error processing URL: '' @ ascii ''Network error: ''
                      @ ascii ''timeout of 10000ms exceeded'') [] demo_time"
  have jobs: "process_urls ?e (ascii ''sk-good'') [[]] (0, []) [] = ([?job], (Suc 0, [Get []]))"
    by (simp add: demo_process_url_down[OF demo_urls_differ(3,4)])
  have "\<forall>job \<in> set [?job]. well_shaped job" by (simp add: well_shaped_empty_job)
  then obtain excel where excel: "createExcelFile ?e [?job] = Inr excel"
    using createExcelFile_demo_succeeds[of _ _ "[?job]"] by blast
  have ne: "[[]] \<noteq> ([] :: jsstring list)" "ascii ''sk-good'' \<noteq> []" by (simp_all add: ascii_def)
  have "batch_status (fst (POST_extract_to_excel ?e
            \<lparr>req_urls = Some [[]], req_apiKey = Some (ascii ''sk-good'')\<rparr> (0, []))) = 200"
    by (simp only: POST_extract_to_excel_run[OF ne] jobs fst_conv snd_conv excel) simp
  moreover have "length (fst (process_urls ?e (ascii ''sk-good'') [[]] (0, []) [])) = 1"
    by (simp only: jobs fst_conv) simp
  moreover have "get_prop (hd (fst (process_urls ?e (ascii ''sk-good'') [[]] (0, []) [])))
                   (ascii ''url'') = JStr []"
    by (simp only: jobs fst_conv list.sel empty_job_props)
  ultimately show ?thesis by blast
qed

section \<open>The wait between items\<close>

lemma paced_append: "paced xs \<Longrightarrow> paced ys \<Longrightarrow> paced (xs @ ys)"
  by (induction xs rule: paced.induct) (auto elim: paced.elims)

lemma process_urls_paced:
  "\<exists>tr. snd (snd (process_urls e key us st acc)) = snd st @ tr \<and> paced tr"
proof (induction us arbitrary: st acc)
  case Nil
  then show ?case by simp
next
  case (Cons u us)
  obtain job st1 where p: "process_url e key u st = (job, st1)" by (cases "process_url e key u st")
  obtain tr1 where t1: "snd st1 = snd st @ tr1" "paced tr1"
    using process_url_trace[of e key u st] p
    by (cases "fst (axios_get e u (fst st))") auto
  obtain tr2 where t2: "snd (snd (process_urls e key us st1 (acc @ [job]))) = snd st1 @ tr2" "paced tr2"
    using Cons.IH[of st1 "acc @ [job]"] by blast
  have "snd (snd (process_urls e key (u # us) st acc)) = snd st @ (tr1 @ tr2)"
    using p t1 t2 by simp
  moreover have "paced (tr1 @ tr2)" using t1 t2 paced_append by blast
  ultimately show ?case by blast
qed

text \<open>
  C4, as the route has it. The wait of 1000 ms is the last step of an item whose page was
  fetched, whether structuring succeeded or failed; an item whose fetch failed ends without
  a wait. So the events of a batch are, for every URL in order, one fetch followed or not
  by one call of the service and one wait of 1000 ms.
\<close>

theorem delay_after_fetched_items:
  "snd (snd (process_url e key u st))
     = snd st @ (case fst (axios_get e u (fst st)) of
                   Inr d \<Rightarrow> [Get u,
                             Post (StructureRequest key
                                     (take 4000 (clean_text (select_main_content d)))),
                             Delay 1000]
                 | Inl err \<Rightarrow> [Get u])
   \<and> (\<exists>tr. snd (snd (process_urls e key us st [])) = snd st @ tr \<and> paced tr \<and> gets tr = us)"
proof -
  obtain tr where tr: "snd (snd (process_urls e key us st [])) = snd st @ tr" "paced tr"
    using process_urls_paced by blast
  have "gets (snd st @ tr) = gets (snd st) @ us"
    using process_urls_records[of e key us st "[]"] tr by simp
  then have "gets tr = us" by (simp add: gets_append)
  then show ?thesis using process_url_trace tr by blast
qed

theorem delay_after_fetched_items_witness:
  "fst (axios_get (demo_env full_json parse_full) demo_url (fst (0 :: nat, [] :: event list)))
     = Inr demo_page
   \<and> snd (snd (process_url (demo_env full_json parse_full) (ascii ''sk-good'') demo_url (0, [])))
     = [Get demo_url, Post (StructureRequest (ascii ''sk-good'') article_text), Delay 1000]"
proof -
  have g: "fst (axios_get (demo_env full_json parse_full) demo_url (fst (0 :: nat, [] :: event list)))
     = Inr demo_page"
    by (simp add: demo_env_def)
  note T = delay_after_fetched_items[of "demo_env full_json parse_full" "ascii ''sk-good''"
             demo_url "(0, [])" "[]", THEN conjunct1]
  have "snd (snd (process_url (demo_env full_json parse_full) (ascii ''sk-good'') demo_url (0, [])))
     = [Get demo_url, Post (StructureRequest (ascii ''sk-good'') article_text), Delay 1000]"
    by (simp only: T g sum.case demo_select demo_clean take_article snd_conv append_Nil)
  then show ?thesis using g by blast
qed

theorem delay_after_fetched_items_counterexample:
  "snd (snd (process_urls (demo_env full_json parse_full) (ascii ''sk-good'')
               [down_url, demo_url] (0, []) []))
     = [Get down_url, Get demo_url,
        Post (StructureRequest (ascii ''sk-good'') article_text), Delay 1000]"
proof -
  have p: "parse_full full_json = Inr full_object" by (simp add: parse_full_def)
  show ?thesis
    by (simp add: demo_process_url_ok[where reply = full_json and parse = parse_full, OF jsonMatch_full_json p]
          demo_process_url_down[OF demo_urls_differ(1,2)])
qed

section \<open>The statistics sheet\<close>

lemma count_job_fields:
  assumes "count_job job s = Inr s'"
  shows "bump_if_present (get_prop job (ascii ''jobTitle'')) (by_jobTitle s) = Inr (by_jobTitle s')
     \<and> bump_if_present (get_prop job (ascii ''location'')) (by_location s) = Inr (by_location s')
     \<and> bump_if_present (get_prop job (ascii ''employmentType'')) (by_employmentType s)
           = Inr (by_employmentType s')
     \<and> total_jobs s' = total_jobs s"
  using assms by (auto simp: count_job_def and_then_Inr)

lemma count_jobs_fields:
  "count_jobs jobs s = Inr s' \<Longrightarrow>
     tally_field (ascii ''jobTitle'') jobs (by_jobTitle s) = Inr (by_jobTitle s')
     \<and> tally_field (ascii ''location'') jobs (by_location s) = Inr (by_location s')
     \<and> tally_field (ascii ''employmentType'') jobs (by_employmentType s) = Inr (by_employmentType s')
     \<and> total_jobs s' = total_jobs s"
proof (induction jobs arbitrary: s)
  case Nil
  then show ?case by simp
next
  case (Cons job jobs)
  from Cons.prems obtain s1 where s1: "count_job job s = Inr s1" "count_jobs jobs s1 = Inr s'"
    by (auto simp: and_then_Inr)
  show ?case
    using count_job_fields[OF s1(1)] Cons.IH[OF s1(2)] by (simp add: and_then_def)
qed

lemma proto_in_names: "ascii ''__proto__'' \<in> set object_prototype_names"
  by (simp add: object_prototype_names_def)

lemma bump_clean:
  assumes "truthy v" and "to_str v \<notin> set object_prototype_names"
    and "bump_if_present v obj = Inr obj'"
  shows "obj' = AList.update (to_str v)
                  (case map_of obj (to_str v) of
                     Some (Count n) \<Rightarrow> Count (n + 1)
                   | Some Junk \<Rightarrow> Junk
                   | None \<Rightarrow> Count 1) obj"
proof -
  have ne: "to_str v \<noteq> ascii ''__proto__''" using assms(2) proto_in_names by auto
  have conv: "convertible v"
    using assms(1,3) by (auto simp: bump_if_present_def bump_def to_string_def and_then_def split: if_splits)
  show ?thesis
    using assms conv ne
    by (cases "map_of obj (to_str v)")
       (auto simp: bump_if_present_def bump_def to_string_def and_then_def Let_def)
qed

lemma bump_absent: "\<not> truthy v \<Longrightarrow> bump_if_present v obj = Inr obj' \<Longrightarrow> obj' = obj"
  by (simp add: bump_if_present_def)

lemma tally_field_counts:
  assumes "\<forall>job \<in> set jobs. truthy (get_prop job field)
              \<longrightarrow> to_str (get_prop job field) \<notin> set object_prototype_names"
    and "\<forall>k. map_of obj k = (if c k = 0 then None else Some (Count (c k)))"
    and "tally_field field jobs obj = Inr T"
  shows "\<forall>k. map_of T k
           = (if c k + length (filter (in_group field k) jobs) = 0 then None
              else Some (Count (c k + length (filter (in_group field k) jobs))))"
  using assms
proof (induction jobs arbitrary: obj c)
  case Nil
  then show ?case by simp
next
  case (Cons job jobs)
  let ?v = "get_prop job field"
  from Cons.prems(3) obtain obj1 where
    b: "bump_if_present ?v obj = Inr obj1" and r: "tally_field field jobs obj1 = Inr T"
    by (auto simp: and_then_Inr)
  have clean': "\<forall>job \<in> set jobs. truthy (get_prop job field)
              \<longrightarrow> to_str (get_prop job field) \<notin> set object_prototype_names"
    using Cons.prems(1) by simp
  show ?case
  proof (cases "truthy ?v")
    case False
    then have "obj1 = obj" using b bump_absent by blast
    then have "\<forall>k. map_of T k
           = (if c k + length (filter (in_group field k) jobs) = 0 then None
              else Some (Count (c k + length (filter (in_group field k) jobs))))"
      using Cons.IH[OF clean' Cons.prems(2)] r by simp
    moreover have "\<And>k. \<not> in_group field k job" using False by (simp add: in_group_def)
    ultimately show ?thesis by simp
  next
    case True
    let ?k0 = "to_str ?v"
    have cl: "?k0 \<notin> set object_prototype_names" using Cons.prems(1) True by simp
    have new: "(case map_of obj ?k0 of Some (Count n) \<Rightarrow> Count (n + 1) | Some Junk \<Rightarrow> Junk
                | None \<Rightarrow> Count 1) = Count (c ?k0 + 1)"
      using Cons.prems(2) by simp
    have obj1: "obj1 = AList.update ?k0 (Count (c ?k0 + 1)) obj"
      using bump_clean[OF True cl b] new by simp
    let ?c1 = "c(?k0 := c ?k0 + 1)"
    have rep1: "\<forall>k. map_of obj1 k = (if ?c1 k = 0 then None else Some (Count (?c1 k)))"
      using Cons.prems(2) by (simp add: obj1 update_conv')
    have "\<forall>k. map_of T k
           = (if ?c1 k + length (filter (in_group field k) jobs) = 0 then None
              else Some (Count (?c1 k + length (filter (in_group field k) jobs))))"
      using Cons.IH[OF clean' rep1 r] .
    moreover have "\<And>k. in_group field k job \<longleftrightarrow> k = ?k0"
      using True by (auto simp: in_group_def)
    ultimately show ?thesis by simp
  qed
qed

lemma update_sum:
  "sum_list (map (\<lambda>p. g (snd p)) (AList.update k v al))
     + (case map_of al k of None \<Rightarrow> 0 | Some old \<Rightarrow> g old)
   = sum_list (map (\<lambda>p. g (snd p)) al) + (g v :: nat)"
  by (induction al) auto

lemma update_values:
  "p \<in> set (AList.update k v al) \<Longrightarrow> p \<in> set al \<or> p = (k, v)"
  by (induction al) (auto split: if_splits)

lemma tally_field_sum:
  assumes "\<forall>job \<in> set jobs. truthy (get_prop job field)
              \<longrightarrow> to_str (get_prop job field) \<notin> set object_prototype_names"
    and "\<forall>p \<in> set obj. \<exists>n. snd p = Count n"
    and "tally_field field jobs obj = Inr T"
  shows "sum_list (map (\<lambda>p. tally_count (snd p)) T)
           = sum_list (map (\<lambda>p. tally_count (snd p)) obj)
             + length (filter (\<lambda>job. truthy (get_prop job field)) jobs)"
  using assms
proof (induction jobs arbitrary: obj)
  case Nil
  then show ?case by simp
next
  case (Cons job jobs)
  let ?v = "get_prop job field"
  from Cons.prems(3) obtain obj1 where
    b: "bump_if_present ?v obj = Inr obj1" and r: "tally_field field jobs obj1 = Inr T"
    by (auto simp: and_then_Inr)
  have clean': "\<forall>job \<in> set jobs. truthy (get_prop job field)
              \<longrightarrow> to_str (get_prop job field) \<notin> set object_prototype_names"
    using Cons.prems(1) by simp
  show ?case
  proof (cases "truthy ?v")
    case False
    then have "obj1 = obj" using b bump_absent by blast
    then show ?thesis using Cons.IH[OF clean' Cons.prems(2)] r False by simp
  next
    case True
    let ?k0 = "to_str ?v"
    have cl: "?k0 \<notin> set object_prototype_names" using Cons.prems(1) True by simp
    obtain n where n: "(case map_of obj ?k0 of Some (Count n) \<Rightarrow> Count (n + 1) | Some Junk \<Rightarrow> Junk
                | None \<Rightarrow> Count 1) = Count (n + 1)"
        "(case map_of obj ?k0 of None \<Rightarrow> 0 | Some old \<Rightarrow> tally_count old) = n"
    proof (cases "map_of obj ?k0")
      case None
      then show ?thesis using that[of 0] by simp
    next
      case (Some old)
      then have "(?k0, old) \<in> set obj" by (rule map_of_SomeD)
      then obtain m where "old = Count m" using Cons.prems(2) by auto
      then show ?thesis using that[of m] Some by simp
    qed
    have obj1: "obj1 = AList.update ?k0 (Count (n + 1)) obj"
      using bump_clean[OF True cl b] n(1) by simp
    have s1: "sum_list (map (\<lambda>p. tally_count (snd p)) obj1) = sum_list (map (\<lambda>p. tally_count (snd p)) obj) + 1"
      using update_sum[of tally_count ?k0 "Count (n + 1)" obj] n(2) by (simp add: obj1)
    have all1: "\<forall>p \<in> set obj1. \<exists>n. snd p = Count n"
    proof (intro ballI)
      fix p assume "p \<in> set obj1"
      then have "p \<in> set obj \<or> p = (?k0, Count (n + 1))"
        unfolding obj1 by (rule update_values)
      then show "\<exists>n. snd p = Count n" using Cons.prems(2) by auto
    qed
    show ?thesis using Cons.IH[OF clean' all1 r] s1 True by simp
  qed
qed

lemma bump_distinct:
  "distinct (map fst obj) \<Longrightarrow> bump_if_present v obj = Inr obj' \<Longrightarrow> distinct (map fst obj')"
  by (auto simp: bump_if_present_def bump_def and_then_Inr Let_def distinct_update
           split: if_splits)

lemma tally_field_distinct:
  "distinct (map fst obj) \<Longrightarrow> tally_field field jobs obj = Inr T \<Longrightarrow> distinct (map fst T)"
proof (induction jobs arbitrary: obj)
  case Nil
  then show ?case by simp
next
  case (Cons job jobs)
  from Cons.prems(2) obtain obj1 where
    b: "bump_if_present (get_prop job field) obj = Inr obj1"
    and r: "tally_field field jobs obj1 = Inr T"
    by (auto simp: and_then_Inr)
  show ?case using Cons.IH[OF bump_distinct[OF Cons.prems(1) b] r] .
qed

lemma mset_entries: "mset (entries obj) = mset obj"
  by (simp add: entries_def)

lemma sum_entries:
  fixes g :: "jsstring \<times> 'a \<Rightarrow> nat"
  shows "sum_list (map g (entries obj)) = sum_list (map g obj)"
proof -
  have "mset (map g (entries obj)) = mset (map g obj)" by (simp add: mset_entries)
  then have "sum_mset (mset (map g (entries obj))) = sum_mset (mset (map g obj))" by simp
  then show ?thesis by (simp only: sum_mset_sum_list)
qed

lemma map_of_entries:
  assumes "distinct (map fst obj)"
  shows "map_of (entries obj) = map_of obj"
proof -
  have "mset (map fst (entries obj)) = mset (map fst obj)" by (simp add: mset_entries)
  then have d: "distinct (map fst (entries obj))"
    using assms mset_eq_imp_distinct_iff by blast
  have "set (entries obj) = set obj" using mset_entries mset_eq_setD by blast
  then show ?thesis using d assms map_of_inject_set by blast
qed

lemma distinct_entries:
  assumes "distinct (map fst obj)"
  shows "distinct (map fst (entries obj))"
proof -
  have "mset (map fst (entries obj)) = mset (map fst obj)"
    using mset_entries[of obj] by (metis mset_map)
  then show ?thesis using assms mset_eq_imp_distinct_iff by blast
qed

lemma tally_field_exact:
  assumes "tally_field field jobs [] = Inr T"
    and "\<forall>job \<in> set jobs. truthy (get_prop job field)
              \<longrightarrow> to_str (get_prop job field) \<notin> set object_prototype_names"
  shows "sum_list (map (\<lambda>p. tally_count (snd p)) (entries T))
           = length (filter (\<lambda>job. truthy (get_prop job field)) jobs)
     \<and> (\<forall>k. map_of (entries T) k
            = (if \<exists>job \<in> set jobs. in_group field k job
               then Some (Count (length (filter (in_group field k) jobs))) else None))
     \<and> distinct (map fst (entries T))
     \<and> map (\<lambda>(key, val). [(col_item, CellVal (JStr key)), (col_value, tally_cell val)]) (entries T)
         = map (\<lambda>(key, val). [(col_item, CellVal (JStr key)),
                                (col_value, CellNum (length (filter (in_group field key) jobs)))])
             (entries T)"
proof -
  have d: "distinct (map fst T)" using tally_field_distinct[of "[]" field jobs T] assms(1) by simp
  have counts: "\<forall>k. map_of T k
            = (if \<exists>job \<in> set jobs. in_group field k job
               then Some (Count (length (filter (in_group field k) jobs))) else None)"
    using tally_field_counts[OF assms(2) _ assms(1), of "\<lambda>k. 0"]
    by (simp add: filter_empty_conv)
  have sum: "sum_list (map (\<lambda>p. tally_count (snd p)) T)
           = length (filter (\<lambda>job. truthy (get_prop job field)) jobs)"
    using tally_field_sum[OF assms(2) _ assms(1)] by simp
  have vals: "\<forall>p \<in> set (entries T).
                tally_cell (snd p) = CellNum (length (filter (in_group field (fst p)) jobs))"
  proof (intro ballI)
    fix p assume "p \<in> set (entries T)"
    then have "p \<in> set T" using mset_entries[of T] mset_eq_setD by blast
    then have m: "map_of T (fst p) = Some (snd p)" using d by simp
    have "map_of T (fst p)
            = (if \<exists>job \<in> set jobs. in_group field (fst p) job
               then Some (Count (length (filter (in_group field (fst p)) jobs))) else None)"
      using counts by blast
    then have "snd p = Count (length (filter (in_group field (fst p)) jobs))"
      using m by (simp split: if_splits)
    then show "tally_cell (snd p) = CellNum (length (filter (in_group field (fst p)) jobs))"
      by (simp add: tally_cell_def)
  qed
  have rows: "map (\<lambda>(key, val). [(col_item, CellVal (JStr key)), (col_value, tally_cell val)]) (entries T)
         = map (\<lambda>(key, val). [(col_item, CellVal (JStr key)),
                                (col_value, CellNum (length (filter (in_group field key) jobs)))])
             (entries T)"
    using vals by (intro map_cong) auto
  show ?thesis
    using sum counts rows distinct_entries[OF d] by (simp add: sum_entries map_of_entries[OF d])
qed

lemma statsData_rows:
  "statsData s =
     [[(col_item, CellVal (JStr label_total)), (col_value, CellNum (total_jobs s))],
      [(col_item, CellVal (JStr [])), (col_value, CellVal (JStr []))],
      [(col_item, CellVal (JStr label_by_jobTitle)), (col_value, CellVal (JStr []))]]
     @ map (\<lambda>(key, val). [(col_item, CellVal (JStr key)), (col_value, tally_cell val)])
         (entries (by_jobTitle s))
     @ [[(col_item, CellVal (JStr [])), (col_value, CellVal (JStr []))],
        [(col_item, CellVal (JStr label_by_location)), (col_value, CellVal (JStr []))]]
     @ map (\<lambda>(key, val). [(col_item, CellVal (JStr key)), (col_value, tally_cell val)])
         (entries (by_location s))
     @ [[(col_item, CellVal (JStr [])), (col_value, CellVal (JStr []))],
        [(col_item, CellVal (JStr label_by_employmentType)), (col_value, CellVal (JStr []))]]
     @ map (\<lambda>(key, val). [(col_item, CellVal (JStr key)), (col_value, tally_cell val)])
         (entries (by_employmentType s))"
  by (simp add: statsData_def tally_rows_def stats_row_def blank_row_def)

lemma demo_titles:
  "get_prop engineer_job (ascii ''jobTitle'') = JStr (ascii ''Engineer'')"
  "get_prop blank_title_job (ascii ''jobTitle'') = JStr []"
  "get_prop constructor_job (ascii ''jobTitle'') = JStr (ascii ''constructor'')"
proof -
  have k: "ascii ''jobTitle'' \<noteq> ascii ''extractedAt''" "ascii ''jobTitle'' \<noteq> ascii ''url''"
    by (simp_all add: ascii_def)
  show "get_prop engineer_job (ascii ''jobTitle'') = JStr (ascii ''Engineer'')"
    by (simp add: engineer_job_def get_set_prop k) (simp add: get_prop_def full_object_def)
  show "get_prop blank_title_job (ascii ''jobTitle'') = JStr []"
    by (simp add: blank_title_job_def get_set_prop)
  show "get_prop constructor_job (ascii ''jobTitle'') = JStr (ascii ''constructor'')"
    by (simp add: constructor_job_def get_set_prop)
qed

lemma demo_jobs_shaped:
  "well_shaped engineer_job" "well_shaped blank_title_job" "well_shaped constructor_job"
proof -
  have "get_prop [(ascii ''skills'', JArr [])] (ascii ''skills'') = JArr []"
    by (simp add: get_prop_def)
  then have "well_shaped full_object"
    by (simp add: well_shaped_def full_object_def get_prop_def is_nullish_def key_ok_def ascii_def)
  then show "well_shaped engineer_job" by (simp add: engineer_job_def well_shaped_merged)
  have k: "ascii ''salary'' \<noteq> ascii ''jobTitle''" "ascii ''benefits'' \<noteq> ascii ''jobTitle''"
    "ascii ''requirements'' \<noteq> ascii ''jobTitle''" "ascii ''location'' \<noteq> ascii ''jobTitle''"
    "ascii ''employmentType'' \<noteq> ascii ''jobTitle''"
    by (simp_all add: ascii_def)
  have w: "\<And>v dsc u t. key_ok v \<Longrightarrow> well_shaped (set_prop (ascii ''jobTitle'') v (empty_job dsc u t))"
    using well_shaped_empty_job by (simp add: well_shaped_def get_set_prop k)
  show "well_shaped blank_title_job" by (simp add: blank_title_job_def w key_ok_def)
  show "well_shaped constructor_job" by (simp add: constructor_job_def w key_ok_def)
qed

text \<open>
  C5, as the report has it. When the report is built, the statistics sheet is: the row of
  the total, which is the number of rows of the detail sheet, one per record; then for job
  title, location and employment type in turn an empty row, the heading of the section and
  one row per key with its tally. For each of the three fields, as long as no record has a
  value of that field whose text names a member of \<open>Object.prototype\<close>: the tallies of
  the section add up to the number of records whose value of the field is truthy (not
  \<open>null\<close>, not absent and not the empty string); a key has one row, the tally under it
  is exactly the number of those records whose value has that text, and a text with no such
  record has no row; the cells of the section show these counts as numbers. Records whose
  value is not truthy are left out of that section only.
\<close>

theorem statistics_table_exact:
  assumes "createExcelFile e jobs = Inr excel"
  shows "\<exists>summary detail titles locations types.
       excel =
         [(sheet_summary, summary), (sheet_detail, detail),
          (sheet_stats,
            [[(col_item, CellVal (JStr label_total)), (col_value, CellNum (length detail))],
             [(col_item, CellVal (JStr [])), (col_value, CellVal (JStr []))],
             [(col_item, CellVal (JStr label_by_jobTitle)), (col_value, CellVal (JStr []))]]
            @ map (\<lambda>(key, val). [(col_item, CellVal (JStr key)), (col_value, tally_cell val)]) titles
            @ [[(col_item, CellVal (JStr [])), (col_value, CellVal (JStr []))],
               [(col_item, CellVal (JStr label_by_location)), (col_value, CellVal (JStr []))]]
            @ map (\<lambda>(key, val). [(col_item, CellVal (JStr key)), (col_value, tally_cell val)]) locations
            @ [[(col_item, CellVal (JStr [])), (col_value, CellVal (JStr []))],
               [(col_item, CellVal (JStr label_by_employmentType)), (col_value, CellVal (JStr []))]]
            @ map (\<lambda>(key, val). [(col_item, CellVal (JStr key)), (col_value, tally_cell val)]) types)]
     \<and> length summary = length jobs \<and> length detail = length jobs
     \<and> (\<forall>(field, section) \<in> set [(ascii ''jobTitle'', titles), (ascii ''location'', locations),
                                    (ascii ''employmentType'', types)].
          (\<forall>job \<in> set jobs. truthy (get_prop job field)
              \<longrightarrow> to_str (get_prop job field) \<notin> set object_prototype_names)
          \<longrightarrow> sum_list (map (\<lambda>p. tally_count (snd p)) section)
                 = length (filter (\<lambda>job. truthy (get_prop job field)) jobs)
              \<and> (\<forall>k. map_of section k
                     = (if \<exists>job \<in> set jobs. in_group field k job
                        then Some (Count (length (filter (in_group field k) jobs))) else None))
              \<and> distinct (map fst section)
              \<and> map (\<lambda>(key, val). [(col_item, CellVal (JStr key)), (col_value, tally_cell val)]) section
                  = map (\<lambda>(key, val). [(col_item, CellVal (JStr key)),
                           (col_value, CellNum (length (filter (in_group field key) jobs)))])
                      section)"
proof -
  from createExcelFile_sheets[OF assms] obtain summary detail s where sh:
    "excel = [(sheet_summary, summary), (sheet_detail, detail), (sheet_stats, statsData s)]"
    "compute_stats jobs = Inr s"
    "length summary = length jobs" "length detail = length jobs"
    by blast
  have f: "tally_field (ascii ''jobTitle'') jobs [] = Inr (by_jobTitle s)"
      "tally_field (ascii ''location'') jobs [] = Inr (by_location s)"
      "tally_field (ascii ''employmentType'') jobs [] = Inr (by_employmentType s)"
      "total_jobs s = length jobs"
    using count_jobs_fields[of jobs "\<lparr>total_jobs = length jobs, by_jobTitle = [], by_location = [],
                                    by_employmentType = []\<rparr>" s] sh(2)
    by (simp_all add: compute_stats_def)
  have total: "total_jobs s = length detail" using f(4) sh(4) by simp
  define titles where "titles = entries (by_jobTitle s)"
  define locations where "locations = entries (by_location s)"
  define types where "types = entries (by_employmentType s)"
  have sheet: "excel =
         [(sheet_summary, summary), (sheet_detail, detail),
          (sheet_stats,
            [[(col_item, CellVal (JStr label_total)), (col_value, CellNum (length detail))],
             [(col_item, CellVal (JStr [])), (col_value, CellVal (JStr []))],
             [(col_item, CellVal (JStr label_by_jobTitle)), (col_value, CellVal (JStr []))]]
            @ map (\<lambda>(key, val). [(col_item, CellVal (JStr key)), (col_value, tally_cell val)]) titles
            @ [[(col_item, CellVal (JStr [])), (col_value, CellVal (JStr []))],
               [(col_item, CellVal (JStr label_by_location)), (col_value, CellVal (JStr []))]]
            @ map (\<lambda>(key, val). [(col_item, CellVal (JStr key)), (col_value, tally_cell val)]) locations
            @ [[(col_item, CellVal (JStr [])), (col_value, CellVal (JStr []))],
               [(col_item, CellVal (JStr label_by_employmentType)), (col_value, CellVal (JStr []))]]
            @ map (\<lambda>(key, val). [(col_item, CellVal (JStr key)), (col_value, tally_cell val)]) types)]"
    unfolding sh(1) statsData_rows total titles_def locations_def types_def by (rule refl)
  have fields: "(\<forall>(field, section) \<in> set [(ascii ''jobTitle'', titles), (ascii ''location'', locations),
                                    (ascii ''employmentType'', types)].
          (\<forall>job \<in> set jobs. truthy (get_prop job field)
              \<longrightarrow> to_str (get_prop job field) \<notin> set object_prototype_names)
          \<longrightarrow> sum_list (map (\<lambda>p. tally_count (snd p)) section)
                 = length (filter (\<lambda>job. truthy (get_prop job field)) jobs)
              \<and> (\<forall>k. map_of section k
                     = (if \<exists>job \<in> set jobs. in_group field k job
                        then Some (Count (length (filter (in_group field k) jobs))) else None))
              \<and> distinct (map fst section)
              \<and> map (\<lambda>(key, val). [(col_item, CellVal (JStr key)), (col_value, tally_cell val)]) section
                  = map (\<lambda>(key, val). [(col_item, CellVal (JStr key)),
                           (col_value, CellNum (length (filter (in_group field key) jobs)))])
                      section)"
    using tally_field_exact[OF f(1)] tally_field_exact[OF f(2)] tally_field_exact[OF f(3)]
    unfolding titles_def locations_def types_def
    by (simp only: list.set ball_simps prod.case) blast
  show ?thesis using sheet sh(3,4) fields by blast
qed

lemma demo_stats:
  "compute_stats [engineer_job, blank_title_job, engineer_job]
     = Inr \<lparr>total_jobs = 3, by_jobTitle = [(ascii ''Engineer'', Count 2)], by_location = [],
            by_employmentType = []\<rparr>"
proof -
  have k: "ascii ''location'' \<noteq> ascii ''jobTitle''" "ascii ''employmentType'' \<noteq> ascii ''jobTitle''"
    "ascii ''location'' \<noteq> ascii ''extractedAt''" "ascii ''location'' \<noteq> ascii ''url''"
    "ascii ''employmentType'' \<noteq> ascii ''extractedAt''" "ascii ''employmentType'' \<noteq> ascii ''url''"
    "ascii ''Engineer'' \<noteq> ascii ''__proto__''"
    by (simp_all add: ascii_def)
  have f: "get_prop blank_title_job (ascii ''location'') = JNull"
    "get_prop blank_title_job (ascii ''employmentType'') = JNull"
    by (simp_all add: blank_title_job_def get_set_prop k empty_job_props)
  have g: "get_prop engineer_job (ascii ''location'') = JUndefined"
    "get_prop engineer_job (ascii ''employmentType'') = JUndefined"
    by (simp_all add: engineer_job_def get_set_prop k)
       (simp_all add: get_prop_def full_object_def ascii_def)
  have t: "truthy (JStr (ascii ''Engineer''))" by (simp add: ascii_def)
  have p: "ascii ''Engineer'' \<notin> set object_prototype_names"
    by (simp add: object_prototype_names_def ascii_def)
  show ?thesis
    using t p
    by (simp add: compute_stats_def count_job_def bump_if_present_def bump_def to_string_def
          and_then_def demo_titles f g k)
qed

lemma demo_entries: "entries [(ascii ''Engineer'', Count 2)] = [(ascii ''Engineer'', Count 2)]"
  by (simp add: entries_def is_array_index_def ascii_def)

theorem statistics_table_exact_witness:
  "\<exists>excel summary detail titles.
       createExcelFile (demo_env [] parse_full) [engineer_job, blank_title_job, engineer_job]
         = Inr excel
     \<and> excel =
         [(sheet_summary, summary), (sheet_detail, detail),
          (sheet_stats,
            [[(col_item, CellVal (JStr label_total)), (col_value, CellNum 3)],
             [(col_item, CellVal (JStr [])), (col_value, CellVal (JStr []))],
             [(col_item, CellVal (JStr label_by_jobTitle)), (col_value, CellVal (JStr []))],
             [(col_item, CellVal (JStr (ascii ''Engineer''))), (col_value, CellNum 2)],
             [(col_item, CellVal (JStr [])), (col_value, CellVal (JStr []))],
             [(col_item, CellVal (JStr label_by_location)), (col_value, CellVal (JStr []))],
             [(col_item, CellVal (JStr [])), (col_value, CellVal (JStr []))],
             [(col_item, CellVal (JStr label_by_employmentType)), (col_value, CellVal (JStr []))]])]
     \<and> length detail = 3
     \<and> titles = [(ascii ''Engineer'', Count 2)]
     \<and> sum_list (map (\<lambda>p. tally_count (snd p)) titles) = 2
     \<and> map_of titles (ascii ''Engineer'') = Some (Count 2)"
proof -
  let ?jobs = "[engineer_job, blank_title_job, engineer_job]"
  have "\<forall>job \<in> set ?jobs. well_shaped job" by (simp add: demo_jobs_shaped)
  then obtain excel where ex: "createExcelFile (demo_env [] parse_full) ?jobs = Inr excel"
    using createExcelFile_demo_succeeds[of _ _ ?jobs] by blast
  from statistics_table_exact[OF ex] obtain summary detail titles locations types where
    r: "excel =
         [(sheet_summary, summary), (sheet_detail, detail),
          (sheet_stats,
            [[(col_item, CellVal (JStr label_total)), (col_value, CellNum (length detail))],
             [(col_item, CellVal (JStr [])), (col_value, CellVal (JStr []))],
             [(col_item, CellVal (JStr label_by_jobTitle)), (col_value, CellVal (JStr []))]]
            @ map (\<lambda>(key, val). [(col_item, CellVal (JStr key)), (col_value, tally_cell val)]) titles
            @ [[(col_item, CellVal (JStr [])), (col_value, CellVal (JStr []))],
               [(col_item, CellVal (JStr label_by_location)), (col_value, CellVal (JStr []))]]
            @ map (\<lambda>(key, val). [(col_item, CellVal (JStr key)), (col_value, tally_cell val)]) locations
            @ [[(col_item, CellVal (JStr [])), (col_value, CellVal (JStr []))],
               [(col_item, CellVal (JStr label_by_employmentType)), (col_value, CellVal (JStr []))]]
            @ map (\<lambda>(key, val). [(col_item, CellVal (JStr key)), (col_value, tally_cell val)]) types)]"
    and l: "length detail = length ?jobs"
    and fields: "(\<forall>(field, section) \<in> set [(ascii ''jobTitle'', titles), (ascii ''location'', locations),
                                    (ascii ''employmentType'', types)].
          (\<forall>job \<in> set ?jobs. truthy (get_prop job field)
              \<longrightarrow> to_str (get_prop job field) \<notin> set object_prototype_names)
          \<longrightarrow> sum_list (map (\<lambda>p. tally_count (snd p)) section)
                 = length (filter (\<lambda>job. truthy (get_prop job field)) ?jobs)
              \<and> (\<forall>k. map_of section k
                     = (if \<exists>job \<in> set ?jobs. in_group field k job
                        then Some (Count (length (filter (in_group field k) ?jobs))) else None))
              \<and> distinct (map fst section)
              \<and> map (\<lambda>(key, val). [(col_item, CellVal (JStr key)), (col_value, tally_cell val)]) section
                  = map (\<lambda>(key, val). [(col_item, CellVal (JStr key)),
                           (col_value, CellNum (length (filter (in_group field key) ?jobs)))])
                      section)"
    by blast
  from createExcelFile_sheets[OF ex] obtain summary' detail' s where
    r': "excel = [(sheet_summary, summary'), (sheet_detail, detail'), (sheet_stats, statsData s)]"
    and s: "compute_stats ?jobs = Inr s"
    by blast
  have s': "s = \<lparr>total_jobs = 3, by_jobTitle = [(ascii ''Engineer'', Count 2)], by_location = [],
            by_employmentType = []\<rparr>"
    using s by (simp only: demo_stats sum.inject)
  have e0: "entries ([] :: tallies) = []" by (simp add: entries_def)
  have st: "statsData s =
            [[(col_item, CellVal (JStr label_total)), (col_value, CellNum 3)],
             [(col_item, CellVal (JStr [])), (col_value, CellVal (JStr []))],
             [(col_item, CellVal (JStr label_by_jobTitle)), (col_value, CellVal (JStr []))],
             [(col_item, CellVal (JStr (ascii ''Engineer''))), (col_value, CellNum 2)],
             [(col_item, CellVal (JStr [])), (col_value, CellVal (JStr []))],
             [(col_item, CellVal (JStr label_by_location)), (col_value, CellVal (JStr []))],
             [(col_item, CellVal (JStr [])), (col_value, CellVal (JStr []))],
             [(col_item, CellVal (JStr label_by_employmentType)), (col_value, CellVal (JStr []))]]"
    unfolding statsData_rows s' by (simp add: demo_entries e0 tally_cell_def)
  have same: "summary' = summary" "detail' = detail" using r r' by simp_all
  have x: "excel =
         [(sheet_summary, summary), (sheet_detail, detail),
          (sheet_stats,
            [[(col_item, CellVal (JStr label_total)), (col_value, CellNum 3)],
             [(col_item, CellVal (JStr [])), (col_value, CellVal (JStr []))],
             [(col_item, CellVal (JStr label_by_jobTitle)), (col_value, CellVal (JStr []))],
             [(col_item, CellVal (JStr (ascii ''Engineer''))), (col_value, CellNum 2)],
             [(col_item, CellVal (JStr [])), (col_value, CellVal (JStr []))],
             [(col_item, CellVal (JStr label_by_location)), (col_value, CellVal (JStr []))],
             [(col_item, CellVal (JStr [])), (col_value, CellVal (JStr []))],
             [(col_item, CellVal (JStr label_by_employmentType)), (col_value, CellVal (JStr []))]])]"
    using r' st same by simp
  have t: "truthy (JStr (ascii ''Engineer''))" by (simp add: ascii_def)
  have clean: "ascii ''Engineer'' \<notin> set object_prototype_names"
    by (simp add: object_prototype_names_def ascii_def)
  have hyp: "\<forall>job \<in> set ?jobs. truthy (get_prop job (ascii ''jobTitle''))
              \<longrightarrow> to_str (get_prop job (ascii ''jobTitle'')) \<notin> set object_prototype_names"
    using clean by (simp add: demo_titles)
  have title: "sum_list (map (\<lambda>p. tally_count (snd p)) titles)
                 = length (filter (\<lambda>job. truthy (get_prop job (ascii ''jobTitle''))) ?jobs)
              \<and> (\<forall>k. map_of titles k
                     = (if \<exists>job \<in> set ?jobs. in_group (ascii ''jobTitle'') k job
                        then Some (Count (length (filter (in_group (ascii ''jobTitle'') k) ?jobs)))
                        else None))
              \<and> distinct (map fst titles)"
    using fields hyp by (simp only: list.set ball_simps prod.case) blast
  have n: "length (filter (\<lambda>job. truthy (get_prop job (ascii ''jobTitle''))) ?jobs) = 2"
    using t by (simp add: demo_titles)
  have g: "\<And>k. in_group (ascii ''jobTitle'') k engineer_job \<longleftrightarrow> k = ascii ''Engineer''"
     "\<And>k. \<not> in_group (ascii ''jobTitle'') k blank_title_job"
    using t by (auto simp: in_group_def demo_titles)
  have m: "\<forall>k. map_of titles k = (if k = ascii ''Engineer'' then Some (Count 2) else None)"
    using title g by simp
  have sm: "sum_list (map (\<lambda>p. tally_count (snd p)) titles) = 2"
    using title n by simp
  have mm: "map_of titles (ascii ''Engineer'') = Some (Count 2)" using m by simp
  have keys: "set (map fst titles) = {ascii ''Engineer''}"
  proof -
    have "dom (map_of titles) = {ascii ''Engineer''}" using m by (auto simp: dom_def)
    then show ?thesis by (simp add: dom_map_of_conv_image_fst)
  qed
  have "map fst titles = [ascii ''Engineer'']"
  proof -
    have "distinct (map fst titles)" using title by blast
    then have "length (map fst titles) = card (set (map fst titles))"
      by (simp only: distinct_card)
    then have "length (map fst titles) = 1" using keys by simp
    then obtain a where "map fst titles = [a]"
      by (cases "map fst titles") (auto simp del: length_map list.map_disc_iff)
    then show ?thesis using keys by auto
  qed
  then obtain v where tv: "titles = [(ascii ''Engineer'', v)]" by auto
  then have "v = Count 2" using mm by simp
  then have tt: "titles = [(ascii ''Engineer'', Count 2)]" using tv by simp
  show ?thesis using ex x l tt sm mm by auto
qed

theorem statistics_table_exact_counterexample:
  "get_prop blank_title_job (ascii ''jobTitle'') = JStr []
   \<and> well_shaped blank_title_job
   \<and> compute_stats [blank_title_job]
       = Inr \<lparr>total_jobs = 1, by_jobTitle = [], by_location = [], by_employmentType = []\<rparr>"
proof -
  have k: "ascii ''location'' \<noteq> ascii ''jobTitle''" "ascii ''employmentType'' \<noteq> ascii ''jobTitle''"
    by (simp_all add: ascii_def)
  have f: "get_prop blank_title_job (ascii ''location'') = JNull"
    "get_prop blank_title_job (ascii ''employmentType'') = JNull"
    by (simp_all add: blank_title_job_def get_set_prop k empty_job_props)
  have "compute_stats [blank_title_job]
       = Inr \<lparr>total_jobs = 1, by_jobTitle = [], by_location = [], by_employmentType = []\<rparr>"
    by (simp add: compute_stats_def count_job_def bump_if_present_def and_then_def demo_titles f)
  then show ?thesis using demo_titles(2) demo_jobs_shaped(2) by blast
qed

text \<open>
  What the hypothesis on the keys leaves out: a job title that names a member of
  \<open>Object.prototype\<close> is not counted; its row holds a text.
\<close>

lemma inherited_key_example:
  "compute_stats [constructor_job]
     = Inr \<lparr>total_jobs = 1, by_jobTitle = [(ascii ''constructor'', Junk)], by_location = [],
            by_employmentType = []\<rparr>"
proof -
  have k: "ascii ''location'' \<noteq> ascii ''jobTitle''" "ascii ''employmentType'' \<noteq> ascii ''jobTitle''"
    "ascii ''constructor'' \<noteq> ascii ''__proto__''"
    by (simp_all add: ascii_def)
  have f: "get_prop constructor_job (ascii ''location'') = JNull"
    "get_prop constructor_job (ascii ''employmentType'') = JNull"
    by (simp_all add: constructor_job_def get_set_prop k empty_job_props)
  have t: "truthy (JStr (ascii ''constructor''))" by (simp add: ascii_def)
  have p: "ascii ''constructor'' \<in> set object_prototype_names"
    by (simp add: object_prototype_names_def)
  show ?thesis
    using t p
    by (simp add: compute_stats_def count_job_def bump_if_present_def bump_def to_string_def
          and_then_def demo_titles f k)
qed

end
